(* ===== verification/Prelude.thy ===== *)
theory Prelude
  imports Main "HOL-Library.Word"
begin

unbundle bit_operations_syntax

text \<open>
  Shared vocabulary of the development: the C integer types, byte buffers with
  \<open>memcpy\<close>-style updates, integers in network and host byte order, and the contract of a
  fixed-width message codec. Nothing here models a function of the program; the component
  theories build on it.

  The simplification collections \<open>word_nat\<close> (moving word arithmetic to natural numbers) and
  \<open>buf_simps\<close> (reading back a buffer that was written field by field) carry most component
  proofs.
\<close>

named_theorems word_nat
named_theorems buf_simps

type_synonym u8 = "8 word"
type_synonym u16 = "16 word"
type_synonym u32 = "32 word"
type_synonym u64 = "64 word"

text \<open>The byte order of the host: it matters wherever the code stores a native integer.\<close>

datatype endian = LE | BE

section \<open>Integers as bytes\<close>

fun le_bytes :: "nat \<Rightarrow> nat \<Rightarrow> u8 list" where
  "le_bytes 0 n = []"
| "le_bytes (Suc k) n = of_nat (n mod 256) # le_bytes k (n div 256)"

fun le_nat :: "u8 list \<Rightarrow> nat" where
  "le_nat [] = 0"
| "le_nat (b # bs) = unat b + 256 * le_nat bs"

definition be_bytes :: "nat \<Rightarrow> nat \<Rightarrow> u8 list" where
  "be_bytes k n = rev (le_bytes k n)"

definition be_nat :: "u8 list \<Rightarrow> nat" where
  "be_nat bs = le_nat (rev bs)"

definition host_bytes :: "endian \<Rightarrow> nat \<Rightarrow> nat \<Rightarrow> u8 list" where
  "host_bytes e k n = (case e of LE \<Rightarrow> le_bytes k n | BE \<Rightarrow> be_bytes k n)"

definition host_nat :: "endian \<Rightarrow> u8 list \<Rightarrow> nat" where
  "host_nat e bs = (case e of LE \<Rightarrow> le_nat bs | BE \<Rightarrow> be_nat bs)"

section \<open>Buffers\<close>

definition memcpy :: "u8 list \<Rightarrow> nat \<Rightarrow> u8 list \<Rightarrow> u8 list" where
  "memcpy buf off src = take off buf @ src @ drop (off + length src) buf"

definition slice :: "nat \<Rightarrow> nat \<Rightarrow> u8 list \<Rightarrow> u8 list" where
  "slice off n buf = take n (drop off buf)"

definition memset0 :: "u8 list \<Rightarrow> nat \<Rightarrow> nat \<Rightarrow> u8 list" where
  "memset0 buf off n = memcpy buf off (replicate n 0)"

section \<open>Facts about bytes\<close>

lemma unat_bound: "unat (w :: 'a::len word) < 2 ^ LENGTH('a)"
  by (rule unsigned_less)

lemma unat_u8_bound: "unat (b :: u8) < 256"
  using unat_bound [of b] by simp

lemma length_le_bytes [simp]: "length (le_bytes k n) = k"
  by (induction k arbitrary: n) auto

lemma length_be_bytes [simp]: "length (be_bytes k n) = k"
  by (simp add: be_bytes_def)

lemma length_host_bytes [simp]: "length (host_bytes e k n) = k"
  by (simp add: host_bytes_def split: endian.split)

lemma unat_of_nat_byte [simp]: "unat (of_nat (n mod 256) :: u8) = n mod 256"
  by (simp add: unat_of_nat)

lemma le_nat_le_bytes: "le_nat (le_bytes k n) = n mod 256 ^ k"
proof (induction k arbitrary: n)
  case 0
  show ?case by simp
next
  case (Suc k)
  have "n mod 256 + 256 * (n div 256 mod 256 ^ k) = n mod (256 * 256 ^ k)"
    by (simp add: mod_mult2_eq)
  with Suc show ?case by simp
qed

lemma be_nat_be_bytes: "be_nat (be_bytes k n) = n mod 256 ^ k"
  by (simp add: be_nat_def be_bytes_def le_nat_le_bytes)

lemma host_nat_host_bytes: "host_nat e (host_bytes e k n) = n mod 256 ^ k"
  by (simp add: host_nat_def host_bytes_def le_nat_le_bytes be_nat_be_bytes split: endian.split)

lemma le_nat_bound: "le_nat bs < 256 ^ length bs"
proof (induction bs)
  case Nil
  show ?case by simp
next
  case (Cons b bs)
  have "unat b < 256" by (rule unat_u8_bound)
  with Cons show ?case by simp
qed

lemma be_nat_bound: "be_nat bs < 256 ^ length bs"
  using le_nat_bound [of "rev bs"] by (simp add: be_nat_def)

lemma byte_mod_div [simp]: "(unat (b :: u8) + 256 * n) mod 256 = unat b"
    "(unat b + 256 * n) div 256 = n"
proof -
  have "unat b < 256" by (rule unat_u8_bound)
  then show "(unat b + 256 * n) mod 256 = unat b" and "(unat b + 256 * n) div 256 = n"
    by simp_all
qed

lemma le_bytes_le_nat: "length bs = k \<Longrightarrow> le_bytes k (le_nat bs) = bs"
  by (induction bs arbitrary: k) (auto simp: mod_less [OF unat_u8_bound])

lemma be_bytes_be_nat: "length bs = k \<Longrightarrow> be_bytes k (be_nat bs) = bs"
  by (simp add: be_bytes_def be_nat_def le_bytes_le_nat)

lemma host_bytes_host_nat: "length bs = k \<Longrightarrow> host_bytes e k (host_nat e bs) = bs"
  by (cases e) (simp_all add: host_bytes_def host_nat_def le_bytes_le_nat be_bytes_be_nat)

text \<open>Reading a word back from its bytes.\<close>

lemma unat_mod_self [simp]:
    "unat (w8 :: u8) mod 256 = unat w8"
    "unat (w16 :: u16) mod 65536 = unat w16"
    "unat (w32 :: u32) mod 4294967296 = unat w32"
    "unat (w64 :: u64) mod 18446744073709551616 = unat w64"
  using unat_bound [of w8] unat_bound [of w16] unat_bound [of w32] unat_bound [of w64]
  by simp_all

lemma word_of_be [buf_simps]:
    "be_nat (be_bytes 2 (unat (w16 :: u16))) = unat w16"
    "be_nat (be_bytes 4 (unat (w32 :: u32))) = unat w32"
    "be_nat (be_bytes 8 (unat (w64 :: u64))) = unat w64"
  by (simp_all add: be_nat_be_bytes)

lemma word_of_host [buf_simps]:
    "host_nat e (host_bytes e 2 (unat (w16 :: u16))) = unat w16"
    "host_nat e (host_bytes e 4 (unat (w32 :: u32))) = unat w32"
    "host_nat e (host_bytes e 8 (unat (w64 :: u64))) = unat w64"
  by (simp_all add: host_nat_host_bytes)

section \<open>Facts about buffers\<close>

lemma length_memcpy [simp]:
  "off + length src \<le> length buf \<Longrightarrow> length (memcpy buf off src) = length buf"
  by (simp add: memcpy_def)

lemma length_memset0 [simp]:
  "off + n \<le> length buf \<Longrightarrow> length (memset0 buf off n) = length buf"
  by (simp add: memset0_def)

lemma length_slice [simp]: "off + n \<le> length buf \<Longrightarrow> length (slice off n buf) = n"
  by (simp add: slice_def)

lemma slice_memcpy_same [buf_simps]:
  "off + length src \<le> length buf \<Longrightarrow> n = length src \<Longrightarrow> slice off n (memcpy buf off src) = src"
  by (simp add: slice_def memcpy_def)

lemma slice_memcpy_before [buf_simps]:
  assumes "off + length src \<le> length buf" and "i + n \<le> off"
  shows "slice i n (memcpy buf off src) = slice i n buf"
proof -
  have "drop i (take off buf @ src @ drop (off + length src) buf) =
      drop i (take off buf) @ src @ drop (off + length src) buf"
    using assms by simp
  moreover have "n \<le> length (drop i (take off buf))" using assms by simp
  ultimately have "slice i n (memcpy buf off src) = take n (drop i (take off buf))"
    by (simp add: slice_def memcpy_def)
  also have "\<dots> = slice i n buf"
    using assms by (simp add: slice_def drop_take min_def)
  finally show ?thesis .
qed

lemma slice_memcpy_after [buf_simps]:
  assumes "off + length src \<le> length buf" and "off + length src \<le> i"
  shows "slice i n (memcpy buf off src) = slice i n buf"
  using assms by (simp add: slice_def memcpy_def)

lemma nth_memcpy_before [buf_simps]:
  "off + length src \<le> length buf \<Longrightarrow> i < off \<Longrightarrow> memcpy buf off src ! i = buf ! i"
  by (simp add: memcpy_def nth_append)

lemma nth_memcpy_after [buf_simps]:
  "off + length src \<le> length buf \<Longrightarrow> off + length src \<le> i \<Longrightarrow> memcpy buf off src ! i = buf ! i"
  by (auto simp: memcpy_def nth_append)

lemma nth_memcpy_in [buf_simps]:
  "off + length src \<le> length buf \<Longrightarrow> off \<le> i \<Longrightarrow> i < off + length src \<Longrightarrow>
   memcpy buf off src ! i = src ! (i - off)"
  by (auto simp: memcpy_def nth_append)

lemma slice_update_out [buf_simps]:
  "i < off \<or> off + n \<le> i \<Longrightarrow> slice off n (buf[i := b]) = slice off n buf"
  by (auto simp: slice_def drop_update_swap)

lemma slice_replicate [buf_simps]:
  "off + n \<le> m \<Longrightarrow> slice off n (replicate m x) = replicate n x"
  by (simp add: slice_def min_def)

lemma slice_append_left [simp]:
  "off + n \<le> length xs \<Longrightarrow> slice off n (xs @ ys) = slice off n xs"
  by (simp add: slice_def)

lemma slice_0_all [simp]: "length xs = n \<Longrightarrow> slice 0 n xs = xs"
  by (simp add: slice_def)

section \<open>Words and natural numbers\<close>

lemma unat_plus_noov [word_nat]:
  "unat a + unat b < 2 ^ LENGTH('a) \<Longrightarrow> unat (a + b :: 'a::len word) = unat a + unat b"
  by (simp add: unat_word_ariths)

lemma unat_minus_noov [word_nat]:
  "unat b \<le> unat a \<Longrightarrow> unat (a - b :: 'a::len word) = unat a - unat b"
  by (simp add: unat_sub word_le_nat_alt)

lemma unat_less_iff: "(a < b) = (unat a < unat (b :: 'a::len word))"
  by (simp add: word_less_nat_alt)

lemma less_div_times_plus: "0 < (b :: nat) \<Longrightarrow> a < a div b * b + b"
  using mod_less_divisor [of b a] div_mult_mod_eq [of a b] by linarith

section \<open>Reading from a stream\<close>

text \<open>
  \<open>I2Readni\<close> on a connection: it returns the \<open>n\<close> bytes asked for, or fewer when the stream ends
  first (the code only tells a full read, a short one and an empty one apart).
\<close>

definition read_n :: "nat \<Rightarrow> u8 list \<Rightarrow> (u8 list \<times> u8 list) option" where
  "read_n n s = (if n \<le> length s then Some (take n s, drop n s) else None)"

lemma read_n_append [simp]: "length xs = n \<Longrightarrow> read_n n (xs @ ys) = Some (xs, ys)"
  by (simp add: read_n_def)

text \<open>The remaining pieces of a buffer built by concatenation.\<close>

lemma slice_append_skip [buf_simps]: "length xs \<le> i \<Longrightarrow> slice i n (xs @ ys) = slice (i - length xs) n ys"
  by (simp add: slice_def)

lemma slice_Cons_skip [buf_simps]: "0 < i \<Longrightarrow> slice i n (x # xs) = slice (i - 1) n xs"
  by (cases i) (simp_all add: slice_def)

lemma slice_append_head [buf_simps]: "length xs = n \<Longrightarrow> slice 0 n (xs @ ys) = xs"
  by (simp add: slice_def)

section \<open>The contract of a message\<close>

text \<open>
  What the reader of a message recovers is what its writer put in (up to the view the reader has
  of it), and the rest of the stream is left untouched. It follows that a sequence of messages is
  read back in order, and that the encoding is prefix free.
\<close>

locale stream_codec =
  fixes enc :: "'a \<Rightarrow> u8 list"
    and dec :: "u8 list \<Rightarrow> ('b \<times> u8 list) option"
    and view :: "'a \<Rightarrow> 'b"
    and valid :: "'a \<Rightarrow> bool"
  assumes dec_enc: "valid x \<Longrightarrow> dec (enc x @ rest) = Some (view x, rest)"
begin

fun dec_many :: "nat \<Rightarrow> u8 list \<Rightarrow> ('b list \<times> u8 list) option" where
  "dec_many 0 s = Some ([], s)"
| "dec_many (Suc k) s = (case dec s of None \<Rightarrow> None
     | Some (x, s') \<Rightarrow> map_option (\<lambda>(xs, r). (x # xs, r)) (dec_many k s'))"

lemma dec_many_concat:
  "\<forall>x \<in> set xs. valid x \<Longrightarrow> dec_many (length xs) (concat (map enc xs) @ rest) = Some (map view xs, rest)"
proof (induction xs)
  case Nil
  show ?case by simp
next
  case (Cons x xs)
  then show ?case by (simp add: dec_enc)
qed

lemma prefix_free:
  "valid x \<Longrightarrow> valid y \<Longrightarrow> enc x @ r = enc y @ r' \<Longrightarrow> view x = view y \<and> r = r'"
  using dec_enc [of x r] dec_enc [of y r'] by simp

end

text \<open>A message of fixed width, decoded from exactly its bytes.\<close>

locale fixed_codec =
  fixes enc :: "'a \<Rightarrow> u8 list"
    and dec :: "u8 list \<Rightarrow> 'b option"
    and width :: nat
    and view :: "'a \<Rightarrow> 'b"
    and valid :: "'a \<Rightarrow> bool"
  assumes enc_width: "valid x \<Longrightarrow> length (enc x) = width"
    and dec_msg: "valid x \<Longrightarrow> dec (enc x) = Some (view x)"
begin

definition read_msg :: "u8 list \<Rightarrow> ('b \<times> u8 list) option" where
  "read_msg s = (case read_n width s of None \<Rightarrow> None
     | Some (m, rest) \<Rightarrow> map_option (\<lambda>x. (x, rest)) (dec m))"

lemma read_msg_enc: "valid x \<Longrightarrow> read_msg (enc x @ rest) = Some (view x, rest)"
  by (simp add: read_msg_def enc_width dec_msg)

lemma read_msg_short: "length s < width \<Longrightarrow> read_msg s = None"
  by (simp add: read_msg_def read_n_def)

end

sublocale fixed_codec \<subseteq> stream_codec enc read_msg view valid
  by unfold_locales (rule read_msg_enc)

end
