(* ===== verification/Rijndael.thy ===== *)
theory Rijndael
  imports Rijndael_Tables
begin

unbundle bit_operations_syntax

text \<open>
  The block cipher of \<open>bwlib/rijndael-alg-fst.c\<close>: key setup for 128, 192 and 256 bit keys,
  encryption and decryption of a block, with the loop of the default build, the unrolled rounds
  of \<open>FULL_UNROLL\<close> and the round-limited variants of the known-answer tests. Pointers into the
  schedule are offsets into the list \<open>rk\<close>.

  Shown: decryption inverts encryption for every key size (\<open>rijndael_roundtrip\<close>), all variants
  compute the cipher of the standard over a schedule that satisfies the recurrence of the
  standard (\<open>rijndael_is_Cipher\<close>). The theory \<open>Blocks\<close> builds the chaining mode on it.
\<close>

section \<open>The code\<close>

text \<open>The macros \<open>GETU32\<close> and \<open>PUTU32\<close>: four bytes of a buffer as a big-endian word.\<close>

definition GETU32 :: "u8 list \<Rightarrow> nat \<Rightarrow> u32" where
  "GETU32 pt i = push_bit 24 (ucast (pt ! i)) XOR push_bit 16 (ucast (pt ! (i + 1)))
     XOR push_bit 8 (ucast (pt ! (i + 2))) XOR ucast (pt ! (i + 3))"

definition PUTU32 :: "u32 \<Rightarrow> u8 list" where
  "PUTU32 st = [ucast (drop_bit 24 st), ucast (drop_bit 16 st), ucast (drop_bit 8 st), ucast st]"

text \<open>
  Key expansion: the word \<open>temp\<close> rotated and substituted (for the first column of a round key),
  and substituted without rotation (the middle column of a 256 bit key).
\<close>

definition key_rot_sub :: "u32 \<Rightarrow> u32" where
  "key_rot_sub temp =
     (Te4 ! unat (drop_bit 16 temp AND 0xff) AND 0xff000000) XOR
     (Te4 ! unat (drop_bit 8 temp AND 0xff) AND 0x00ff0000) XOR
     (Te4 ! unat (temp AND 0xff) AND 0x0000ff00) XOR
     (Te4 ! unat (drop_bit 24 temp) AND 0x000000ff)"

definition key_sub :: "u32 \<Rightarrow> u32" where
  "key_sub temp =
     (Te4 ! unat (drop_bit 24 temp) AND 0xff000000) XOR
     (Te4 ! unat (drop_bit 16 temp AND 0xff) AND 0x00ff0000) XOR
     (Te4 ! unat (drop_bit 8 temp AND 0xff) AND 0x0000ff00) XOR
     (Te4 ! unat (temp AND 0xff) AND 0x000000ff)"

text \<open>\<open>rk[b + d] = rk[b + s] ^ rk[b + d - 1]\<close>, the remaining columns.\<close>

definition xor_prev :: "nat \<Rightarrow> nat \<Rightarrow> nat \<Rightarrow> u32 list \<Rightarrow> u32 list" where
  "xor_prev b s d rk = rk[b + d := rk ! (b + s) XOR rk ! (b + d - 1)]"

text \<open>One pass of each of the three loops; \<open>i\<close> counts the passes, \<open>rk\<close> has advanced by \<open>b\<close>.\<close>

definition expand128 :: "nat \<Rightarrow> u32 list \<Rightarrow> u32 list" where
  "expand128 i rk = (let b = 4 * i;
     rk = rk[b + 4 := rk ! b XOR key_rot_sub (rk ! (b + 3)) XOR rcon ! i];
     rk = xor_prev b 1 5 rk;
     rk = xor_prev b 2 6 rk
     in xor_prev b 3 7 rk)"

definition expand192 :: "nat \<Rightarrow> u32 list \<Rightarrow> u32 list" where
  "expand192 i rk = (let b = 6 * i;
     rk = rk[b + 6 := rk ! b XOR key_rot_sub (rk ! (b + 5)) XOR rcon ! i];
     rk = xor_prev b 1 7 rk;
     rk = xor_prev b 2 8 rk;
     rk = xor_prev b 3 9 rk
     in if i + 1 = 8 then rk
        else let rk = xor_prev b 4 10 rk in xor_prev b 5 11 rk)"

definition expand256 :: "nat \<Rightarrow> u32 list \<Rightarrow> u32 list" where
  "expand256 i rk = (let b = 8 * i;
     rk = rk[b + 8 := rk ! b XOR key_rot_sub (rk ! (b + 7)) XOR rcon ! i];
     rk = xor_prev b 1 9 rk;
     rk = xor_prev b 2 10 rk;
     rk = xor_prev b 3 11 rk
     in if i + 1 = 7 then rk
        else let rk = rk[b + 12 := rk ! (b + 4) XOR key_sub (rk ! (b + 11))];
                 rk = xor_prev b 5 13 rk;
                 rk = xor_prev b 6 14 rk
             in xor_prev b 7 15 rk)"

definition rijndaelKeySetupEnc :: "u32 list \<Rightarrow> u8 list \<Rightarrow> nat \<Rightarrow> u32 list \<times> nat" where
  "rijndaelKeySetupEnc rk cipherKey keyBits =
     (let rk = rk[0 := GETU32 cipherKey 0, 1 := GETU32 cipherKey 4,
                  2 := GETU32 cipherKey 8, 3 := GETU32 cipherKey 12]
      in if keyBits = 128 then (fold expand128 [0..<10] rk, 10)
      else let rk = rk[4 := GETU32 cipherKey 16, 5 := GETU32 cipherKey 20]
      in if keyBits = 192 then (fold expand192 [0..<8] rk, 12)
      else let rk = rk[6 := GETU32 cipherKey 24, 7 := GETU32 cipherKey 28]
      in if keyBits = 256 then (fold expand256 [0..<7] rk, 14)
      else (rk, 0))"

text \<open>The decryption schedule: the round keys in reverse order, all but the first and the last
  under the inverse of MixColumn.\<close>

definition swap_key :: "nat \<Rightarrow> nat \<Rightarrow> u32 list \<Rightarrow> u32 list" where
  "swap_key i j rk = rk[i := rk ! j, j := rk ! i]"

function invert_order :: "nat \<Rightarrow> nat \<Rightarrow> u32 list \<Rightarrow> u32 list" where
  "invert_order i j rk = (if i < j
     then invert_order (i + 4) (j - 4)
       (swap_key (i + 3) (j + 3) (swap_key (i + 2) (j + 2)
         (swap_key (i + 1) (j + 1) (swap_key i j rk))))
     else rk)"
  by pat_completeness auto
termination by (relation "measure (\<lambda>(i, j, rk). j)") auto

definition inv_mix_word :: "u32 \<Rightarrow> u32" where
  "inv_mix_word w =
     Td0 ! unat (Te4 ! unat (drop_bit 24 w) AND 0xff) XOR
     Td1 ! unat (Te4 ! unat (drop_bit 16 w AND 0xff) AND 0xff) XOR
     Td2 ! unat (Te4 ! unat (drop_bit 8 w AND 0xff) AND 0xff) XOR
     Td3 ! unat (Te4 ! unat (w AND 0xff) AND 0xff)"

definition inv_mix_key :: "nat \<Rightarrow> u32 list \<Rightarrow> u32 list" where
  "inv_mix_key i rk = (let b = 4 * i in
     rk[b := inv_mix_word (rk ! b), b + 1 := inv_mix_word (rk ! (b + 1)),
        b + 2 := inv_mix_word (rk ! (b + 2)), b + 3 := inv_mix_word (rk ! (b + 3))])"

definition rijndaelKeySetupDec :: "u32 list \<Rightarrow> u8 list \<Rightarrow> nat \<Rightarrow> u32 list \<times> nat" where
  "rijndaelKeySetupDec rk cipherKey keyBits =
     (let (rk, Nr) = rijndaelKeySetupEnc rk cipherKey keyBits;
          rk = invert_order 0 (4 * Nr) rk;
          rk = fold inv_mix_key [1..<Nr] rk
      in (rk, Nr))"

text \<open>The cipher state: the four columns \<open>s0\<close> to \<open>s3\<close>.\<close>

type_synonym columns = "u32 \<times> u32 \<times> u32 \<times> u32"

definition load_state :: "u8 list \<Rightarrow> u32 list \<Rightarrow> columns" where
  "load_state pt rk = (GETU32 pt 0 XOR rk ! 0, GETU32 pt 4 XOR rk ! 1,
     GETU32 pt 8 XOR rk ! 2, GETU32 pt 12 XOR rk ! 3)"

text \<open>One column of a full encryption round and of the last one.\<close>

definition enc_col :: "u32 \<Rightarrow> u32 \<Rightarrow> u32 \<Rightarrow> u32 \<Rightarrow> u32 \<Rightarrow> u32" where
  "enc_col a b c d k = Te0 ! unat (drop_bit 24 a) XOR Te1 ! unat (drop_bit 16 b AND 0xff)
     XOR Te2 ! unat (drop_bit 8 c AND 0xff) XOR Te3 ! unat (d AND 0xff) XOR k"

definition enc_last_col :: "u32 \<Rightarrow> u32 \<Rightarrow> u32 \<Rightarrow> u32 \<Rightarrow> u32 \<Rightarrow> u32" where
  "enc_last_col a b c d k =
     (Te4 ! unat (drop_bit 24 a) AND 0xff000000) XOR
     (Te4 ! unat (drop_bit 16 b AND 0xff) AND 0x00ff0000) XOR
     (Te4 ! unat (drop_bit 8 c AND 0xff) AND 0x0000ff00) XOR
     (Te4 ! unat (d AND 0xff) AND 0x000000ff) XOR k"

fun enc_round :: "u32 list \<Rightarrow> nat \<Rightarrow> columns \<Rightarrow> columns" where
  "enc_round rk p (s0, s1, s2, s3) =
     (enc_col s0 s1 s2 s3 (rk ! p), enc_col s1 s2 s3 s0 (rk ! (p + 1)),
      enc_col s2 s3 s0 s1 (rk ! (p + 2)), enc_col s3 s0 s1 s2 (rk ! (p + 3)))"

fun enc_last :: "u32 list \<Rightarrow> nat \<Rightarrow> columns \<Rightarrow> columns" where
  "enc_last rk p (t0, t1, t2, t3) =
     (enc_last_col t0 t1 t2 t3 (rk ! p), enc_last_col t1 t2 t3 t0 (rk ! (p + 1)),
      enc_last_col t2 t3 t0 t1 (rk ! (p + 2)), enc_last_col t3 t0 t1 t2 (rk ! (p + 3)))"

definition dec_col :: "u32 \<Rightarrow> u32 \<Rightarrow> u32 \<Rightarrow> u32 \<Rightarrow> u32 \<Rightarrow> u32" where
  "dec_col a b c d k = Td0 ! unat (drop_bit 24 a) XOR Td1 ! unat (drop_bit 16 b AND 0xff)
     XOR Td2 ! unat (drop_bit 8 c AND 0xff) XOR Td3 ! unat (d AND 0xff) XOR k"

definition dec_last_col :: "u32 \<Rightarrow> u32 \<Rightarrow> u32 \<Rightarrow> u32 \<Rightarrow> u32 \<Rightarrow> u32" where
  "dec_last_col a b c d k =
     (Td4 ! unat (drop_bit 24 a) AND 0xff000000) XOR
     (Td4 ! unat (drop_bit 16 b AND 0xff) AND 0x00ff0000) XOR
     (Td4 ! unat (drop_bit 8 c AND 0xff) AND 0x0000ff00) XOR
     (Td4 ! unat (d AND 0xff) AND 0x000000ff) XOR k"

fun dec_round :: "u32 list \<Rightarrow> nat \<Rightarrow> columns \<Rightarrow> columns" where
  "dec_round rk p (s0, s1, s2, s3) =
     (dec_col s0 s3 s2 s1 (rk ! p), dec_col s1 s0 s3 s2 (rk ! (p + 1)),
      dec_col s2 s1 s0 s3 (rk ! (p + 2)), dec_col s3 s2 s1 s0 (rk ! (p + 3)))"

fun dec_last :: "u32 list \<Rightarrow> nat \<Rightarrow> columns \<Rightarrow> columns" where
  "dec_last rk p (t0, t1, t2, t3) =
     (dec_last_col t0 t3 t2 t1 (rk ! p), dec_last_col t1 t0 t3 t2 (rk ! (p + 1)),
      dec_last_col t2 t1 t0 t3 (rk ! (p + 2)), dec_last_col t3 t2 t1 t0 (rk ! (p + 3)))"

text \<open>
  The loop of the full rounds, two rounds per pass (the code is compiled without
  \<open>FULL_UNROLL\<close>): \<open>r\<close> is the counter at the top of the loop, \<open>p\<close> how far \<open>rk\<close> has advanced.
  The key setup returns 10, 12 or 14 rounds, so the counter starts at 5, 6 or 7; with a counter
  of 0 the code would run off the schedule, and no schedule with that many rounds exists.
\<close>

fun enc_loop :: "nat \<Rightarrow> u32 list \<Rightarrow> nat \<Rightarrow> columns \<Rightarrow> columns \<times> nat" where
  "enc_loop 0 rk p s = (s, p)"
| "enc_loop (Suc r) rk p s = (let t = enc_round rk (p + 4) s; p = p + 8
     in if r = 0 then (t, p) else enc_loop r rk p (enc_round rk p t))"

fun dec_loop :: "nat \<Rightarrow> u32 list \<Rightarrow> nat \<Rightarrow> columns \<Rightarrow> columns \<times> nat" where
  "dec_loop 0 rk p s = (s, p)"
| "dec_loop (Suc r) rk p s = (let t = dec_round rk (p + 4) s; p = p + 8
     in if r = 0 then (t, p) else dec_loop r rk p (dec_round rk p t))"

fun store_state :: "columns \<Rightarrow> u8 list" where
  "store_state (s0, s1, s2, s3) = PUTU32 s0 @ PUTU32 s1 @ PUTU32 s2 @ PUTU32 s3"

definition rijndaelEncrypt :: "u32 list \<Rightarrow> nat \<Rightarrow> u8 list \<Rightarrow> u8 list" where
  "rijndaelEncrypt rk Nr pt = (let (t, p) = enc_loop (drop_bit 1 Nr) rk 0 (load_state pt rk)
     in store_state (enc_last rk p t))"

definition rijndaelDecrypt :: "u32 list \<Rightarrow> nat \<Rightarrow> u8 list \<Rightarrow> u8 list" where
  "rijndaelDecrypt rk Nr ct = (let (t, p) = dec_loop (drop_bit 1 Nr) rk 0 (load_state ct rk)
     in store_state (dec_last rk p t))"

text \<open>The same functions compiled with \<open>FULL_UNROLL\<close>.\<close>

definition rijndaelEncrypt_unrolled :: "u32 list \<Rightarrow> nat \<Rightarrow> u8 list \<Rightarrow> u8 list" where
  "rijndaelEncrypt_unrolled rk Nr pt = (let
     s = load_state pt rk;
     t = enc_round rk 4 s;
     s = enc_round rk 8 t;
     t = enc_round rk 12 s;
     s = enc_round rk 16 t;
     t = enc_round rk 20 s;
     s = enc_round rk 24 t;
     t = enc_round rk 28 s;
     s = enc_round rk 32 t;
     t = enc_round rk 36 s;
     t = (if 10 < Nr then let
            s = enc_round rk 40 t;
            t = enc_round rk 44 s
          in if 12 < Nr then let
              s = enc_round rk 48 t;
              t = enc_round rk 52 s in t
          else t
        else t)
     in store_state (enc_last rk (push_bit 2 Nr) t))"

definition rijndaelDecrypt_unrolled :: "u32 list \<Rightarrow> nat \<Rightarrow> u8 list \<Rightarrow> u8 list" where
  "rijndaelDecrypt_unrolled rk Nr ct = (let
     s = load_state ct rk;
     t = dec_round rk 4 s;
     s = dec_round rk 8 t;
     t = dec_round rk 12 s;
     s = dec_round rk 16 t;
     t = dec_round rk 20 s;
     s = dec_round rk 24 t;
     t = dec_round rk 28 s;
     s = dec_round rk 32 t;
     t = dec_round rk 36 s;
     t = (if 10 < Nr then let
            s = dec_round rk 40 t;
            t = dec_round rk 44 s
          in if 12 < Nr then let
              s = dec_round rk 48 t;
              t = dec_round rk 52 s in t
          else t
        else t)
     in store_state (dec_last rk (push_bit 2 Nr) t))"

text \<open>The variants of the known-answer tests, which stop after a number of rounds.\<close>

fun enc_count :: "nat \<Rightarrow> u32 list \<Rightarrow> nat \<Rightarrow> columns \<Rightarrow> columns \<times> nat" where
  "enc_count 0 rk p s = (s, p)"
| "enc_count (Suc r) rk p s = enc_count r rk (p + 4) (enc_round rk p s)"

fun dec_count :: "nat \<Rightarrow> u32 list \<Rightarrow> nat \<Rightarrow> columns \<Rightarrow> columns \<times> nat" where
  "dec_count 0 rk p s = (s, p)"
| "dec_count (Suc r) rk p s = dec_count r rk (p + 4) (dec_round rk p s)"

definition rijndaelEncryptRound :: "u32 list \<Rightarrow> nat \<Rightarrow> u8 list \<Rightarrow> nat \<Rightarrow> u8 list" where
  "rijndaelEncryptRound rk Nr block rounds =
     (let (s, p) = enc_count (if rounds < Nr then rounds else Nr - 1) rk 4 (load_state block rk);
          s = (if rounds = Nr then enc_last rk p s else s)
      in store_state s)"

definition no_key :: "u32 list" where
  "no_key = replicate 4 0"

definition rijndaelDecryptRound :: "u32 list \<Rightarrow> nat \<Rightarrow> u8 list \<Rightarrow> nat \<Rightarrow> u8 list" where
  "rijndaelDecryptRound rk Nr block rounds =
     (let (s, p) = dec_count ((if rounds < Nr then rounds else Nr) - 1) rk 4 (load_state block rk);
          t = (if rounds = Nr then dec_last rk p s else dec_last no_key 0 s)
      in store_state t)"

section \<open>Arithmetic of the rounds\<close>

lemma xtime_xor [simp]: "xtime (a XOR b) = xtime a XOR xtime b"
  by (simp add: xtime_def bit_simps push_bit_xor ac_simps)

lemma bit_u8_less: "bit (b :: u8) n \<Longrightarrow> n < 8"
  using bit_imp_le_length [of b n] by simp

lemma unat_up [simp]: "unat (ucast (b :: u8) :: u32) = unat b"
  using unat_u8_bound [of b] by (simp add: unsigned_ucast_eq take_bit_nat_eq_self_iff)

text \<open>Byte extraction as the code writes it.\<close>

lemma index_bytes [simp]:
  "unat (drop_bit 24 w) = unat (byte3 w)" "unat (drop_bit 16 w AND 0xff) = unat (byte2 w)"
  "unat (drop_bit 8 w AND 0xff) = unat (byte1 w)" "unat (w AND 0xff) = unat (byte0 (w :: u32))"
proof -
  have mask8: "(0xff :: u32) = mask 8" by (simp add: mask_eq_exp_minus_1)
  have ucast8: "v AND 0xff = ucast (ucast v :: u8)" for v :: u32
    by (rule bit_word_eqI) (auto simp: mask8 bit_simps)
  have "drop_bit 24 w = ucast (byte3 w)"
    by (rule bit_word_eqI) (auto simp: byte_bits dest: bit_imp_le_length)
  then show "unat (drop_bit 24 w) = unat (byte3 w)"
    by (simp)
  show "unat (drop_bit 16 w AND 0xff) = unat (byte2 w)" "unat (drop_bit 8 w AND 0xff) = unat (byte1 w)"
      "unat (w AND 0xff) = unat (byte0 w)"
    by (simp_all add: ucast8 byte2_def byte1_def byte0_def)
qed

lemma byte0_drop_bit [simp]:
  "byte0 (drop_bit 8 w) = byte1 w" "byte0 (drop_bit 16 w) = byte2 w" "byte0 (drop_bit 24 w) = byte3 w"
  by (simp_all add: byte0_def byte1_def byte2_def byte3_def)

lemma mask_w4 [simp]:
  "w4 a b c d AND 0xff000000 = w4 a 0 0 0" "w4 a b c d AND 0x00ff0000 = w4 0 b 0 0"
  "w4 a b c d AND 0x0000ff00 = w4 0 0 c 0" "w4 a b c d AND 0x000000ff = w4 0 0 0 d"
proof -
  have masks: "(0xff000000 :: u32) = push_bit 24 (mask 8)" "(0x00ff0000 :: u32) = push_bit 16 (mask 8)"
     "(0x0000ff00 :: u32) = push_bit 8 (mask 8)" "(0x000000ff :: u32) = mask 8"
    by (simp_all add: mask_eq_exp_minus_1)
  show "w4 a b c d AND 0xff000000 = w4 a 0 0 0" "w4 a b c d AND 0x00ff0000 = w4 0 b 0 0"
  "w4 a b c d AND 0x0000ff00 = w4 0 0 c 0" "w4 a b c d AND 0x000000ff = w4 0 0 0 d"
    unfolding masks by (rule bit_word_eqI; auto simp: byte_bits dest: bit_u8_less)+
qed

section \<open>Rounds as transformations of the state\<close>

definition mix_column :: "u32 \<Rightarrow> u32" where
  "mix_column w = (let a = byte3 w; b = byte2 w; c = byte1 w; d = byte0 w in
     w4 (xtime a XOR (xtime b XOR b) XOR c XOR d)
        (a XOR xtime b XOR (xtime c XOR c) XOR d)
        (a XOR b XOR xtime c XOR (xtime d XOR d))
        ((xtime a XOR a) XOR b XOR c XOR xtime d))"

definition inv_mix_column :: "u32 \<Rightarrow> u32" where
  "inv_mix_column w = (let a = byte3 w; b = byte2 w; c = byte1 w; d = byte0 w in
     w4 (gfe a XOR gfb b XOR gfd c XOR gf9 d)
        (gf9 a XOR gfe b XOR gfb c XOR gfd d)
        (gfd a XOR gf9 b XOR gfe c XOR gfb d)
        (gfb a XOR gfd b XOR gf9 c XOR gfe d))"

lemmas gf_defs = gf9_def gfb_def gfd_def gfe_def

lemma xor_cancel [simp]: "(a :: 'a::len word) XOR (a XOR b) = b"
  by (simp flip: xor.assoc)

lemma inv_mix_xor: "inv_mix_column (v XOR w) = inv_mix_column v XOR inv_mix_column w"
  by (simp add: inv_mix_column_def Let_def w4_xor gf_defs ac_simps)

lemma inv_mix_mix [simp]: "inv_mix_column (mix_column w) = w"
proof -
  have "inv_mix_column (mix_column (w4 a b c d)) = w4 a b c d" for a b c d
    by (simp add: inv_mix_column_def mix_column_def Let_def gf_defs w4_eq_iff ac_simps)
  from this [of "byte3 w" "byte2 w" "byte1 w" "byte0 w"] show ?thesis by simp
qed

text \<open>SubBytes and ShiftRows together, on the four columns, and their inverse.\<close>

fun sub_shift :: "columns \<Rightarrow> columns" where
  "sub_shift (s0, s1, s2, s3) =
     (w4 (sbox (byte3 s0)) (sbox (byte2 s1)) (sbox (byte1 s2)) (sbox (byte0 s3)),
      w4 (sbox (byte3 s1)) (sbox (byte2 s2)) (sbox (byte1 s3)) (sbox (byte0 s0)),
      w4 (sbox (byte3 s2)) (sbox (byte2 s3)) (sbox (byte1 s0)) (sbox (byte0 s1)),
      w4 (sbox (byte3 s3)) (sbox (byte2 s0)) (sbox (byte1 s1)) (sbox (byte0 s2)))"

fun inv_sub_shift :: "columns \<Rightarrow> columns" where
  "inv_sub_shift (s0, s1, s2, s3) =
     (w4 (inv_sbox (byte3 s0)) (inv_sbox (byte2 s3)) (inv_sbox (byte1 s2)) (inv_sbox (byte0 s1)),
      w4 (inv_sbox (byte3 s1)) (inv_sbox (byte2 s0)) (inv_sbox (byte1 s3)) (inv_sbox (byte0 s2)),
      w4 (inv_sbox (byte3 s2)) (inv_sbox (byte2 s1)) (inv_sbox (byte1 s0)) (inv_sbox (byte0 s3)),
      w4 (inv_sbox (byte3 s3)) (inv_sbox (byte2 s2)) (inv_sbox (byte1 s1)) (inv_sbox (byte0 s0)))"

fun col_map :: "(u32 \<Rightarrow> u32) \<Rightarrow> columns \<Rightarrow> columns" where
  "col_map f (s0, s1, s2, s3) = (f s0, f s1, f s2, f s3)"

fun col_xor :: "columns \<Rightarrow> columns \<Rightarrow> columns" where
  "col_xor (s0, s1, s2, s3) (t0, t1, t2, t3) = (s0 XOR t0, s1 XOR t1, s2 XOR t2, s3 XOR t3)"

definition round_key :: "u32 list \<Rightarrow> nat \<Rightarrow> columns" where
  "round_key rk p = (rk ! p, rk ! (p + 1), rk ! (p + 2), rk ! (p + 3))"

lemma inv_sub_shift_sub_shift [simp]: "inv_sub_shift (sub_shift s) = s"
  by (cases s) simp

lemma col_map_comp: "col_map f (col_map g s) = col_map (f \<circ> g) s"
  by (cases s) simp

lemma col_inv_mix_mix [simp]: "col_map inv_mix_column (col_map mix_column s) = s"
  by (cases s) simp

lemma col_inv_mix_xor:
  "col_map inv_mix_column (col_xor s t) = col_xor (col_map inv_mix_column s) (col_map inv_mix_column t)"
  by (cases s; cases t) (simp add: inv_mix_xor)

lemma col_xor_cancel [simp]: "col_xor (col_xor s t) t = s"
  by (cases s; cases t) (simp add: xor.assoc)

lemma enc_col_mix: "enc_col a b c d k = mix_column (w4 (sbox (byte3 a)) (sbox (byte2 b)) (sbox (byte1 c)) (sbox (byte0 d))) XOR k"
  by (simp add: enc_col_def table_lookups mix_column_def Let_def w4_xor xor.assoc [symmetric])

lemma dec_col_mix: "dec_col a b c d k = inv_mix_column (w4 (inv_sbox (byte3 a)) (inv_sbox (byte2 b)) (inv_sbox (byte1 c)) (inv_sbox (byte0 d))) XOR k"
  by (simp add: dec_col_def table_lookups inv_mix_column_def Let_def w4_xor xor.assoc [symmetric])

lemma enc_last_col_sub: "enc_last_col a b c d k = w4 (sbox (byte3 a)) (sbox (byte2 b)) (sbox (byte1 c)) (sbox (byte0 d)) XOR k"
  by (simp add: enc_last_col_def table_lookups w4_xor xor.assoc [symmetric])

lemma dec_last_col_sub: "dec_last_col a b c d k = w4 (inv_sbox (byte3 a)) (inv_sbox (byte2 b)) (inv_sbox (byte1 c)) (inv_sbox (byte0 d)) XOR k"
  by (simp add: dec_last_col_def table_lookups w4_xor xor.assoc [symmetric])

lemma enc_round_eq: "enc_round rk p s = col_xor (col_map mix_column (sub_shift s)) (round_key rk p)"
  by (cases s) (simp add: enc_col_mix round_key_def)

lemma dec_round_eq: "dec_round rk p s = col_xor (col_map inv_mix_column (inv_sub_shift s)) (round_key rk p)"
  by (cases s) (simp add: dec_col_mix round_key_def)

lemma enc_last_eq: "enc_last rk p s = col_xor (sub_shift s) (round_key rk p)"
  by (cases s) (simp add: enc_last_col_sub round_key_def)

lemma dec_last_eq: "dec_last rk p s = col_xor (inv_sub_shift s) (round_key rk p)"
  by (cases s) (simp add: dec_last_col_sub round_key_def)

lemma unat_w4_low [simp]: "unat (w4 0 0 0 x) = unat x"
  by (simp add: w4_def)

lemma inv_mix_word_eq: "inv_mix_word w = inv_mix_column w"
  by (simp add: inv_mix_word_def table_lookups inv_mix_column_def Let_def w4_xor xor.assoc [symmetric])

section \<open>The loops\<close>

fun enc_rounds :: "u32 list \<Rightarrow> nat \<Rightarrow> nat \<Rightarrow> columns \<Rightarrow> columns" where
  "enc_rounds rk p 0 s = s"
| "enc_rounds rk p (Suc n) s = enc_round rk (p + 4 * Suc n) (enc_rounds rk p n s)"

fun dec_rounds :: "u32 list \<Rightarrow> nat \<Rightarrow> nat \<Rightarrow> columns \<Rightarrow> columns" where
  "dec_rounds rk p 0 s = s"
| "dec_rounds rk p (Suc n) s = dec_round rk (p + 4 * Suc n) (dec_rounds rk p n s)"

lemma enc_rounds_front: "enc_rounds rk p (Suc n) s = enc_rounds rk (p + 4) n (enc_round rk (p + 4) s)"
  by (induction n) (simp_all add: algebra_simps)

lemma dec_rounds_front: "dec_rounds rk p (Suc n) s = dec_rounds rk (p + 4) n (dec_round rk (p + 4) s)"
  by (induction n) (simp_all add: algebra_simps)

lemma enc_loop_rounds: "enc_loop (Suc n) rk p s = (enc_rounds rk p (2 * n + 1) s, p + 8 * Suc n)"
proof (induction n arbitrary: p s)
  case 0
  show ?case by simp
next
  case (Suc n)
  have "enc_loop (Suc (Suc n)) rk p s =
      enc_loop (Suc n) rk (p + 8) (enc_round rk (p + 8) (enc_round rk (p + 4) s))"
    by (simp add: Let_def)
  also have "\<dots> = (enc_rounds rk (p + 4 + 4) (2 * n + 1) (enc_round rk (p + 4 + 4) (enc_round rk (p + 4) s)),
      p + 8 * Suc (Suc n))"
    by (subst Suc.IH) (simp add: algebra_simps)
  also have "\<dots> = (enc_rounds rk p (Suc (Suc (2 * n + 1))) s, p + 8 * Suc (Suc n))"
    by (simp only: enc_rounds_front)
  finally show ?case by simp
qed

lemma dec_loop_rounds: "dec_loop (Suc n) rk p s = (dec_rounds rk p (2 * n + 1) s, p + 8 * Suc n)"
proof (induction n arbitrary: p s)
  case 0
  show ?case by simp
next
  case (Suc n)
  have "dec_loop (Suc (Suc n)) rk p s =
      dec_loop (Suc n) rk (p + 8) (dec_round rk (p + 8) (dec_round rk (p + 4) s))"
    by (simp add: Let_def)
  also have "\<dots> = (dec_rounds rk (p + 4 + 4) (2 * n + 1) (dec_round rk (p + 4 + 4) (dec_round rk (p + 4) s)),
      p + 8 * Suc (Suc n))"
    by (subst Suc.IH) (simp add: algebra_simps)
  also have "\<dots> = (dec_rounds rk p (Suc (Suc (2 * n + 1))) s, p + 8 * Suc (Suc n))"
    by (simp only: dec_rounds_front)
  finally show ?case by simp
qed

text \<open>What the key setup returns.\<close>

definition valid_rounds :: "nat \<Rightarrow> bool" where
  "valid_rounds Nr \<longleftrightarrow> even Nr \<and> 0 < Nr"

lemma rijndaelEncrypt_rounds:
  assumes "valid_rounds Nr"
  shows "rijndaelEncrypt rk Nr pt = store_state (enc_last rk (4 * Nr) (enc_rounds rk 0 (Nr - 1) (load_state pt rk)))"
proof -
  from assms obtain n where n: "Nr = 2 * Suc n"
    unfolding valid_rounds_def by (metis evenE not0_implies_Suc not_gr0 mult_0_right)
  then have "drop_bit 1 Nr = Suc n" "Nr - 1 = 2 * n + 1" "4 * Nr = 0 + 8 * Suc n"
    by (simp_all add: drop_bit_Suc drop_bit_eq_div)
  then show ?thesis by (simp add: rijndaelEncrypt_def enc_loop_rounds del: enc_loop.simps)
qed

lemma rijndaelDecrypt_rounds:
  assumes "valid_rounds Nr"
  shows "rijndaelDecrypt rk Nr ct = store_state (dec_last rk (4 * Nr) (dec_rounds rk 0 (Nr - 1) (load_state ct rk)))"
proof -
  from assms obtain n where n: "Nr = 2 * Suc n"
    unfolding valid_rounds_def by (metis evenE not0_implies_Suc not_gr0 mult_0_right)
  then have "drop_bit 1 Nr = Suc n" "Nr - 1 = 2 * n + 1" "4 * Nr = 0 + 8 * Suc n"
    by (simp_all add: drop_bit_Suc drop_bit_eq_div)
  then show ?thesis by (simp add: rijndaelDecrypt_def dec_loop_rounds del: dec_loop.simps)
qed

text \<open>A decryption schedule for an encryption schedule.\<close>

definition dec_schedule :: "nat \<Rightarrow> u32 list \<Rightarrow> u32 list \<Rightarrow> bool" where
  "dec_schedule Nr ek dk \<longleftrightarrow> (\<forall>r \<le> Nr. round_key dk (4 * r) =
     (if 0 < r \<and> r < Nr then col_map inv_mix_column (round_key ek (4 * (Nr - r)))
      else round_key ek (4 * (Nr - r))))"

lemma dec_rounds_invert:
  assumes "dec_schedule Nr ek dk" and "j < Nr"
  shows "dec_rounds dk 0 j (sub_shift (enc_rounds ek 0 (Nr - 1) s)) = sub_shift (enc_rounds ek 0 (Nr - 1 - j) s)"
  using assms(2)
proof (induction j)
  case 0
  show ?case by simp
next
  case (Suc j)
  define x where "x = enc_rounds ek 0 (Nr - 1 - Suc j) s"
  have pred: "Nr - 1 - j = Suc (Nr - 1 - Suc j)" using Suc.prems by simp
  have key: "round_key dk (4 * Suc j) = col_map inv_mix_column (round_key ek (4 * (Nr - Suc j)))"
    using assms(1) [unfolded dec_schedule_def, rule_format, of "Suc j"] Suc.prems by simp
  have "dec_rounds dk 0 (Suc j) (sub_shift (enc_rounds ek 0 (Nr - 1) s)) =
      dec_round dk (4 * Suc j) (sub_shift (enc_rounds ek 0 (Nr - 1 - j) s))"
    using Suc by simp
  also have "\<dots> = dec_round dk (4 * Suc j) (sub_shift (enc_round ek (4 * (Nr - Suc j)) x))"
    using pred Suc.prems by (simp add: x_def)
  also have "\<dots> = sub_shift x"
    by (simp add: dec_round_eq enc_round_eq key col_inv_mix_xor del: mult_Suc_right)
  finally show ?case by (simp add: x_def)
qed

lemma length_store [simp]: "length (store_state s) = 16"
  by (cases s) (simp add: PUTU32_def)

lemma GETU32_PUTU32: "length xs = i \<Longrightarrow> GETU32 (xs @ PUTU32 w @ ys) i = w"
  using w4_b [of w] by (simp add: GETU32_def PUTU32_def nth_append w4_def byte3_def byte2_def byte1_def byte0_def)

lemma PUTU32_GETU32: "i + 4 \<le> length pt \<Longrightarrow> PUTU32 (GETU32 pt i) = slice i 4 pt"
proof -
  assume "i + 4 \<le> length pt"
  then have "slice i 4 pt = [pt ! i, pt ! (i + 1), pt ! (i + 2), pt ! (i + 3)]"
    by (simp add: slice_def Cons_nth_drop_Suc [symmetric] numeral_eq_Suc)
  moreover have "GETU32 pt i = w4 (pt ! i) (pt ! (i + 1)) (pt ! (i + 2)) (pt ! (i + 3))"
    by (simp add: GETU32_def w4_def)
  moreover have "PUTU32 w = [byte3 w, byte2 w, byte1 w, byte0 w]" for w
    by (simp add: PUTU32_def byte3_def byte2_def byte1_def byte0_def)
  ultimately show ?thesis by simp
qed

lemma load_store [simp]: "load_state (store_state s) rk = col_xor s (round_key rk 0)"
proof -
  obtain s0 s1 s2 s3 where s: "s = (s0, s1, s2, s3)" by (cases s)
  have len: "length (PUTU32 w) = 4" for w by (simp add: PUTU32_def)
  show ?thesis
    using GETU32_PUTU32 [of "[]" 0 s0 "PUTU32 s1 @ PUTU32 s2 @ PUTU32 s3"]
      GETU32_PUTU32 [of "PUTU32 s0" 4 s1 "PUTU32 s2 @ PUTU32 s3"]
      GETU32_PUTU32 [of "PUTU32 s0 @ PUTU32 s1" 8 s2 "PUTU32 s3"]
      GETU32_PUTU32 [of "PUTU32 s0 @ PUTU32 s1 @ PUTU32 s2" 12 s3 "[]"]
    by (simp add: s len load_state_def round_key_def numeral_2_eq_2)
qed

lemma slice_drop: "slice i n xs @ drop (i + n) xs = drop i xs"
  using append_take_drop_id [of n "drop i xs"] by (simp add: slice_def add.commute)

lemma store_load:
  assumes "length pt = 16"
  shows "store_state (col_xor (load_state pt rk) (round_key rk 0)) = pt"
proof -
  have "store_state (col_xor (load_state pt rk) (round_key rk 0)) =
      slice 0 4 pt @ slice 4 4 pt @ slice 8 4 pt @ slice 12 4 pt"
    using assms by (simp add: load_state_def round_key_def xor.assoc PUTU32_GETU32 numeral_2_eq_2)
  also have "\<dots> = pt"
    using slice_drop [of 0 4 pt] slice_drop [of 4 4 pt] slice_drop [of 8 4 pt]
      slice_drop [of 12 4 pt] assms by simp
  finally show ?thesis .
qed

lemma decrypt_encrypt_schedule:
  assumes "dec_schedule Nr ek dk" "valid_rounds Nr" "length pt = 16"
  shows "rijndaelDecrypt dk Nr (rijndaelEncrypt ek Nr pt) = pt"
proof -
  let ?x = "enc_rounds ek 0 (Nr - 1) (load_state pt ek)"
  from assms(2) have Nr: "0 < Nr" by (simp add: valid_rounds_def)
  have k0: "round_key dk 0 = round_key ek (4 * Nr)" and kN: "round_key dk (4 * Nr) = round_key ek 0"
    using assms(1) unfolding dec_schedule_def by (metis bot_nat_0.extremum diff_zero less_irrefl mult_0_right)
      (use assms(1) in \<open>simp add: dec_schedule_def\<close>)
  have "rijndaelDecrypt dk Nr (rijndaelEncrypt ek Nr pt) =
      store_state (dec_last dk (4 * Nr) (dec_rounds dk 0 (Nr - 1) (sub_shift ?x)))"
    using assms(2) by (simp add: rijndaelEncrypt_rounds rijndaelDecrypt_rounds enc_last_eq k0)
  also have "\<dots> = store_state (dec_last dk (4 * Nr) (sub_shift (load_state pt ek)))"
    using dec_rounds_invert [OF assms(1), of "Nr - 1"] Nr by simp
  also have "\<dots> = pt"
    using assms(3) by (simp add: dec_last_eq kN store_load)
  finally show ?thesis .
qed

section \<open>The key schedules\<close>

lemma length_swap_key [simp]: "length (swap_key i j rk) = length rk"
  by (simp add: swap_key_def)

lemma swap_key_nth:
  "i < length rk \<Longrightarrow> j < length rk \<Longrightarrow>
   swap_key i j rk ! x = (if x = j then rk ! i else if x = i then rk ! j else rk ! x)"
  by (simp add: swap_key_def nth_list_update)

declare invert_order.simps [simp del]

text \<open>One pass of the reversal exchanges two round keys.\<close>

definition swap_round :: "nat \<Rightarrow> nat \<Rightarrow> u32 list \<Rightarrow> u32 list" where
  "swap_round a b rk = swap_key (4 * a + 3) (4 * b + 3) (swap_key (4 * a + 2) (4 * b + 2)
     (swap_key (4 * a + 1) (4 * b + 1) (swap_key (4 * a) (4 * b) rk)))"

lemma length_swap_round [simp]: "length (swap_round a b rk) = length rk"
  by (simp add: swap_round_def)

lemma swap_key_at:
  assumes "4 * a + 4 \<le> length rk" "4 * b + 4 \<le> length rk" "c < 4" "d < 4"
  shows "swap_key (4 * a + c) (4 * b + c) rk ! (4 * r + d) =
    (if c = d \<and> r = b then rk ! (4 * a + d) else if c = d \<and> r = a then rk ! (4 * b + d)
     else rk ! (4 * r + d))"
proof -
  have "4 * r + d = 4 * x + c \<longleftrightarrow> r = x \<and> d = c" for x using assms(3,4) by presburger
  with assms show ?thesis by (auto simp: swap_key_nth)
qed

lemma round_key_swap_round:
  assumes "4 * b + 4 \<le> length rk" "a < b"
  shows "round_key (swap_round a b rk) (4 * r) =
    (if r = a then round_key rk (4 * b) else if r = b then round_key rk (4 * a) else round_key rk (4 * r))"
proof -
  have len: "4 * a + 4 \<le> length rk" using assms by simp
  have nth: "swap_round a b rk ! (4 * r + d) = (if r = a then rk ! (4 * b + d)
      else if r = b then rk ! (4 * a + d) else rk ! (4 * r + d))" if "d < 4" for d
  proof -
    have "swap_round a b rk = swap_key (4 * a + 3) (4 * b + 3) (swap_key (4 * a + 2) (4 * b + 2)
        (swap_key (4 * a + 1) (4 * b + 1) (swap_key (4 * a + 0) (4 * b + 0) rk)))"
      by (simp add: swap_round_def)
    moreover have "d = 0 \<or> d = 1 \<or> d = 2 \<or> d = 3" using that by linarith
    ultimately show ?thesis
      using assms len that by (simp only: swap_key_at length_swap_key) auto
  qed
  show ?thesis
    using nth [of 0] nth [of 1] nth [of 2] nth [of 3] by (auto simp: round_key_def)
qed

lemma invert_order_rounds:
  "invert_order (4 * a) (4 * b) rk =
    (if a < b then invert_order (4 * Suc a) (4 * (b - 1)) (swap_round a b rk) else rk)"
  by (subst invert_order.simps) (simp add: swap_round_def algebra_simps)

lemma invert_order_spec:
  "4 * b + 4 \<le> length rk \<Longrightarrow> length (invert_order (4 * a) (4 * b) rk) = length rk \<and>
     (\<forall>r. round_key (invert_order (4 * a) (4 * b) rk) (4 * r) =
       (if a \<le> r \<and> r \<le> b then round_key rk (4 * (a + b - r)) else round_key rk (4 * r)))"
proof (induction "b - a" arbitrary: a b rk rule: less_induct)
  case less
  show ?case
  proof (cases "a < b")
    case False
    then have "a + b - r = r" if "a \<le> r" "r \<le> b" for r using that by linarith
    with False show ?thesis by (simp add: invert_order_rounds)
  next
    case True
    let ?rk = "swap_round a b rk"
    have "length (invert_order (4 * Suc a) (4 * (b - 1)) ?rk) = length ?rk \<and>
     (\<forall>r. round_key (invert_order (4 * Suc a) (4 * (b - 1)) ?rk) (4 * r) =
       (if Suc a \<le> r \<and> r \<le> b - 1 then round_key ?rk (4 * (Suc a + (b - 1) - r)) else round_key ?rk (4 * r)))"
      by (rule less.hyps) (use True less.prems in auto)
    moreover have "Suc a + (b - 1) = a + b" using True by simp
    ultimately show ?thesis
      using True less.prems
      by (simp add: invert_order_rounds [of a b rk] round_key_swap_round) auto
  qed
qed

lemma length_inv_mix_key [simp]: "length (inv_mix_key i rk) = length rk"
  by (simp add: inv_mix_key_def Let_def)

lemma round_key_inv_mix_key:
  assumes "4 * i + 4 \<le> length rk"
  shows "round_key (inv_mix_key i rk) (4 * r) =
    (if r = i then col_map inv_mix_column (round_key rk (4 * r)) else round_key rk (4 * r))"
proof (cases "r = i")
  case True
  with assms show ?thesis
    by (simp add: inv_mix_key_def round_key_def inv_mix_word_eq Let_def)
next
  case False
  then have "4 * r + c \<noteq> 4 * i + d" if "c < 4" "d < 4" for c d using that by presburger
  from this [of 0 0] this [of 0 1] this [of 0 2] this [of 0 3]
    this [of 1 0] this [of 1 1] this [of 1 2] this [of 1 3]
    this [of 2 0] this [of 2 1] this [of 2 2] this [of 2 3]
    this [of 3 0] this [of 3 1] this [of 3 2] this [of 3 3] False
  show ?thesis by (simp add: inv_mix_key_def round_key_def Let_def)
qed

lemma inv_mix_keys_spec:
  "4 * n \<le> length rk \<Longrightarrow> length (fold inv_mix_key [1..<n] rk) = length rk \<and>
    round_key (fold inv_mix_key [1..<n] rk) (4 * r) =
     (if 0 < r \<and> r < n then col_map inv_mix_column (round_key rk (4 * r)) else round_key rk (4 * r))"
proof (induction n)
  case 0
  show ?case by simp
next
  case (Suc n)
  show ?case
  proof (cases "n = 0")
    case False
    then have "[1..<Suc n] = [1..<n] @ [n]" by simp
    with Suc False show ?thesis by (auto simp: round_key_inv_mix_key)
  qed auto
qed

lemma length_fold_expand:
  "(\<And>i rk. length (f i rk) = length rk) \<Longrightarrow> length (fold f is rk) = length (rk :: u32 list)"
  by (induction "is" arbitrary: rk) simp_all

lemma length_expand [simp]:
  "length (expand128 i rk) = length rk" "length (expand192 i rk) = length rk"
  "length (expand256 i rk) = length rk"
  by (simp_all add: expand128_def expand192_def expand256_def xor_prev_def Let_def)

lemma length_KeySetupEnc: "length (fst (rijndaelKeySetupEnc rk key bits)) = length rk"
  by (simp add: rijndaelKeySetupEnc_def Let_def length_fold_expand)

definition valid_bits :: "nat \<Rightarrow> bool" where
  "valid_bits bits \<longleftrightarrow> bits \<in> {128, 192, 256}"

lemma KeySetupEnc_rounds:
  "valid_bits bits \<Longrightarrow> snd (rijndaelKeySetupEnc rk key bits) = bits div 32 + 6"
  by (auto simp: valid_bits_def rijndaelKeySetupEnc_def Let_def)

text \<open>The expanded key depends on the key alone, not on what the array held before.\<close>

lemma KeySetupDec_schedule:
  assumes "rijndaelKeySetupEnc rk key bits = (ek, Nr)" and "rijndaelKeySetupDec rk key bits = (dk, Nr')"
    and "4 * Nr + 4 \<le> length rk"
  shows "Nr' = Nr \<and> dec_schedule Nr ek dk"
proof -
  let ?inv = "invert_order 0 (4 * Nr) ek"
  have len: "length ek = length rk" using length_KeySetupEnc [of rk key bits] assms(1) by simp
  have inv: "length ?inv = length ek"
    "round_key ?inv (4 * r) = (if r \<le> Nr then round_key ek (4 * (Nr - r)) else round_key ek (4 * r))" for r
    using invert_order_spec [of Nr ek 0] len assms(3) by simp_all
  have dk: "dk = fold inv_mix_key [1..<Nr] ?inv" and "Nr' = Nr"
    using assms(1,2) by (auto simp: rijndaelKeySetupDec_def)
  moreover have "4 * Nr \<le> length ?inv" using inv(1) len assms(3) by simp
  ultimately show ?thesis
    using inv inv(2) [of 0] inv_mix_keys_spec [of Nr ?inv] by (auto simp: dec_schedule_def)
qed

text \<open>The recurrence of the key expansion, for a key of \<open>Nk\<close> words.\<close>

definition next_word :: "nat \<Rightarrow> u32 list \<Rightarrow> nat \<Rightarrow> u32" where
  "next_word Nk w i = w ! (i - Nk) XOR
     (if i mod Nk = 0 then key_rot_sub (w ! (i - 1)) XOR rcon ! (i div Nk - 1)
      else if 6 < Nk \<and> i mod Nk = 4 then key_sub (w ! (i - 1)) else w ! (i - 1))"

definition expanded :: "nat \<Rightarrow> u8 list \<Rightarrow> nat \<Rightarrow> u32 list \<Rightarrow> bool" where
  "expanded Nk key n w \<longleftrightarrow> n \<le> length w \<and> (\<forall>i < n. w ! i =
     (if i < Nk then GETU32 key (4 * i) else next_word Nk w i))"

lemma next_word_update: "i \<le> n \<Longrightarrow> 0 < Nk \<Longrightarrow> Nk \<le> i \<Longrightarrow> next_word Nk (w[n := v]) i = next_word Nk w i"
  by (simp add: next_word_def)

lemma expanded_step:
  assumes "expanded Nk key n w" "n < length w" "0 < Nk" "Nk \<le> n" "v = next_word Nk w n" "n' = Suc n"
  shows "expanded Nk key n' (w[n := v])"
  using assms by (auto simp: expanded_def less_Suc_eq next_word_update)

lemma expanded_init:
  assumes "\<forall>i < Nk. w ! i = GETU32 key (4 * i)" "Nk \<le> length w"
  shows "expanded Nk key Nk w"
  using assms by (simp add: expanded_def)

lemma expanded_unique:
  assumes "expanded Nk key n w" "expanded Nk key n w'" "0 < Nk" "i < n"
  shows "w ! i = w' ! i"
  using assms(4)
proof (induction i rule: less_induct)
  case (less i)
  then have "next_word Nk w i = next_word Nk w' i" if "Nk \<le> i"
    using that assms(3) by (simp add: next_word_def)
  with less.prems assms(1,2) show ?case by (simp add: expanded_def)
qed

lemma expanded_first:
  assumes "expanded Nk key (Nk * i + Nk) w" "Nk * i + Nk < length w" "0 < Nk"
    and "p = Nk * i + Nk" "q = Nk * i + (Nk - 1)" "n = Suc p"
  shows "expanded Nk key n (w[p := w ! (Nk * i) XOR key_rot_sub (w ! q) XOR rcon ! i])"
proof -
  have "p - Nk = Nk * i" "p - 1 = q" "p mod Nk = 0" "p div Nk - 1 = i" using assms by auto
  then have "w ! (Nk * i) XOR key_rot_sub (w ! q) XOR rcon ! i = next_word Nk w p"
    by (simp add: next_word_def xor.assoc)
  with assms show ?thesis by (intro expanded_step [where Nk = Nk and n = p]) auto
qed

lemma expanded_xor_prev:
  assumes "expanded Nk key (Nk * i + d) w" "Nk * i + d < length w" "0 < Nk" "Nk \<le> d" "s = d - Nk"
    and "d mod Nk \<noteq> 0" "\<not> (6 < Nk \<and> d mod Nk = 4)" "d' = Suc d"
  shows "expanded Nk key (Nk * i + d') (xor_prev (Nk * i) s d w)"
proof -
  have "(Nk * i + d) mod Nk = d mod Nk" by simp
  with assms have "w ! (Nk * i + s) XOR w ! (Nk * i + d - 1) = next_word Nk w (Nk * i + d)"
    by (auto simp: next_word_def)
  with assms show ?thesis
    unfolding xor_prev_def by (intro expanded_step [where Nk = Nk and n = "Nk * i + d"]) auto
qed

lemma length_xor_prev [simp]: "length (xor_prev b s d w) = length w"
  by (simp add: xor_prev_def)

lemma expanded_expand128:
  assumes "expanded 4 key (4 * i + 4) w" "4 * i + 8 \<le> length w"
  shows "expanded 4 key (4 * i + 8) (expand128 i w)"
proof -
  have "expanded 4 key (4 * i + 5) (w[4 * i + 4 := w ! (4 * i) XOR key_rot_sub (w ! (4 * i + 3)) XOR rcon ! i])"
    by (rule expanded_first) (use assms in simp_all)
  with assms(2) show ?thesis
    unfolding expand128_def Let_def
    by (intro expanded_xor_prev [where d' = 8] expanded_xor_prev [where d' = 7] expanded_xor_prev [where d' = 6])
       simp_all
qed

lemma expanded_expand192:
  assumes "expanded 6 key (6 * i + 6) w" "6 * i + 12 \<le> length w \<or> (i = 7 \<and> 52 \<le> length w)"
  shows "expanded 6 key (if i = 7 then 52 else 6 * i + 12) (expand192 i w)"
proof -
  have "expanded 6 key (6 * i + 7) (w[6 * i + 6 := w ! (6 * i) XOR key_rot_sub (w ! (6 * i + 5)) XOR rcon ! i])"
    by (rule expanded_first) (use assms in auto)
  then have four: "expanded 6 key (6 * i + 10) (xor_prev (6 * i) 3 9 (xor_prev (6 * i) 2 8 (xor_prev (6 * i) 1 7
      (w[6 * i + 6 := w ! (6 * i) XOR key_rot_sub (w ! (6 * i + 5)) XOR rcon ! i]))))"
    by (intro expanded_xor_prev [where d' = 10] expanded_xor_prev [where d' = 9] expanded_xor_prev [where d' = 8])
       (use assms(2) in auto)
  show ?thesis
  proof (cases "i = 7")
    case True
    with four show ?thesis by (simp add: expand192_def Let_def)
  next
    case False
    with four assms(2) have "expanded 6 key (6 * i + 12) (expand192 i w)"
      unfolding expand192_def Let_def
      by (simp, intro expanded_xor_prev [where d' = 12] expanded_xor_prev [where d' = 11]) simp_all
    with False show ?thesis by simp
  qed
qed

lemma expanded_expand256:
  assumes "expanded 8 key (8 * i + 8) w" "8 * i + 16 \<le> length w \<or> (i = 6 \<and> 60 \<le> length w)"
  shows "expanded 8 key (if i = 6 then 60 else 8 * i + 16) (expand256 i w)"
proof -
  define u where "u = xor_prev (8 * i) 3 11 (xor_prev (8 * i) 2 10 (xor_prev (8 * i) 1 9
      (w[8 * i + 8 := w ! (8 * i) XOR key_rot_sub (w ! (8 * i + 7)) XOR rcon ! i])))"
  have "expanded 8 key (8 * i + 9) (w[8 * i + 8 := w ! (8 * i) XOR key_rot_sub (w ! (8 * i + 7)) XOR rcon ! i])"
    by (rule expanded_first) (use assms in auto)
  then have four: "expanded 8 key (8 * i + 12) u"
    unfolding u_def
    by (intro expanded_xor_prev [where d' = 12] expanded_xor_prev [where d' = 11] expanded_xor_prev [where d' = 10])
       (use assms(2) in auto)
  have u: "expand256 i w = (if i = 6 then u else xor_prev (8 * i) 7 15 (xor_prev (8 * i) 6 14
      (xor_prev (8 * i) 5 13 (u[8 * i + 12 := u ! (8 * i + 4) XOR key_sub (u ! (8 * i + 11))]))))"
    by (simp add: expand256_def Let_def u_def)
  show ?thesis
  proof (cases "i = 6")
    case True
    with four u show ?thesis by simp
  next
    case False
    have len: "8 * i + 16 \<le> length u" using False assms(2) by (simp add: u_def)
    have "(8 * i + 12) mod 8 = 4" by presburger
    with len have "expanded 8 key (8 * i + 13) (u[8 * i + 12 := u ! (8 * i + 4) XOR key_sub (u ! (8 * i + 11))])"
      by (intro expanded_step [OF four]) (simp_all add: next_word_def add.commute)
    with len have "expanded 8 key (8 * i + 16) (expand256 i w)"
      unfolding u using False
      by (simp, intro expanded_xor_prev [where d' = 16] expanded_xor_prev [where d' = 15]
          expanded_xor_prev [where d' = 14]) simp_all
    with False show ?thesis by simp
  qed
qed

text \<open>The loops run the recurrence to the end of the schedule.\<close>

lemma expanded_128: "expanded 4 key 4 w \<Longrightarrow> 44 \<le> length w \<Longrightarrow> n \<le> 10 \<Longrightarrow>
    expanded 4 key (4 * n + 4) (fold expand128 [0..<n] w)"
proof (induction n)
  case (Suc n)
  then show ?case
    using expanded_expand128 [of key n "fold expand128 [0..<n] w"]
    by (simp add: length_fold_expand add.commute)
qed simp

lemma expanded_192: "expanded 6 key 6 w \<Longrightarrow> 52 \<le> length w \<Longrightarrow> n \<le> 8 \<Longrightarrow>
    expanded 6 key (if n = 8 then 52 else 6 * n + 6) (fold expand192 [0..<n] w)"
proof (induction n)
  case (Suc n)
  then have "6 * n + 12 \<le> length w \<or> n = 7" by linarith
  with Suc show ?case
    using expanded_expand192 [of key n "fold expand192 [0..<n] w"]
    by (auto simp add: length_fold_expand add.commute)
qed simp

lemma expanded_256: "expanded 8 key 8 w \<Longrightarrow> 60 \<le> length w \<Longrightarrow> n \<le> 7 \<Longrightarrow>
    expanded 8 key (if n = 7 then 60 else 8 * n + 8) (fold expand256 [0..<n] w)"
proof (induction n)
  case (Suc n)
  then have "8 * n + 16 \<le> length w \<or> n = 6" by linarith
  with Suc show ?case
    using expanded_expand256 [of key n "fold expand256 [0..<n] w"]
    by (auto simp add: length_fold_expand add.commute)
qed simp

lemma KeySetupEnc_expanded:
  assumes "valid_bits bits" "60 \<le> length rk" "rijndaelKeySetupEnc rk key bits = (ek, Nr)"
  shows "expanded (bits div 32) key (4 * Nr + 4) ek \<and> Nr = bits div 32 + 6 \<and> length ek = length rk"
proof -
  let ?r4 = "rk[0 := GETU32 key 0, 1 := GETU32 key 4, 2 := GETU32 key 8, 3 := GETU32 key 12]"
  let ?r6 = "?r4[4 := GETU32 key 16, 5 := GETU32 key 20]"
  let ?r8 = "?r6[6 := GETU32 key 24, 7 := GETU32 key 28]"
  have less: "i < 4 \<longleftrightarrow> i \<in> {0, 1, 2, 3}" "i < 6 \<longleftrightarrow> i \<in> {0, 1, 2, 3, 4, 5}"
    "i < 8 \<longleftrightarrow> i \<in> {0, 1, 2, 3, 4, 5, 6, 7}" for i :: nat by auto
  have ne: "rk \<noteq> []" using assms(2) by auto
  have "expanded 4 key 4 ?r4" "expanded 6 key 6 ?r6" "expanded 8 key 8 ?r8"
    by (rule expanded_init; use assms(2) ne in \<open>auto simp: less\<close>)+
  then have "expanded 4 key 44 (fold expand128 [0..<10] ?r4)"
    "expanded 6 key 52 (fold expand192 [0..<8] ?r6)" "expanded 8 key 60 (fold expand256 [0..<7] ?r8)"
    using expanded_128 [of key ?r4 10] expanded_192 [of key ?r6 8] expanded_256 [of key ?r8 7] assms(2)
    by simp_all
  with assms show ?thesis
    by (auto simp: valid_bits_def rijndaelKeySetupEnc_def Let_def length_fold_expand simp del: upt_Suc fold_simps)
qed

lemma KeySetup_inverse:
  assumes "valid_bits bits" "60 \<le> length rk" "60 \<le> length rk'"
    and "rijndaelKeySetupEnc rk key bits = (ek, Nr)" "rijndaelKeySetupDec rk' key bits = (dk, Nr')"
  shows "Nr' = Nr \<and> valid_rounds Nr \<and> dec_schedule Nr ek dk"
proof -
  obtain ek' where ek': "rijndaelKeySetupEnc rk' key bits = (ek', bits div 32 + 6)"
    using KeySetupEnc_rounds [OF assms(1), of rk' key] by (metis prod.collapse)
  have Nr: "Nr = bits div 32 + 6" "valid_rounds Nr" "4 * Nr + 4 \<le> 60" "0 < bits div 32"
    using KeySetupEnc_rounds [OF assms(1), of rk key] assms(1,4)
    by (auto simp: valid_bits_def valid_rounds_def)
  have "ek ! i = ek' ! i" if "i < 4 * Nr + 4" for i
    by (rule expanded_unique [where key = key and Nk = "bits div 32" and n = "4 * Nr + 4"])
      (use that Nr KeySetupEnc_expanded [OF assms(1,2,4)] KeySetupEnc_expanded [OF assms(1,3) ek'] in auto)
  then have keys: "round_key ek' (4 * r) = round_key ek (4 * r)" if "r \<le> Nr" for r
    using that by (simp add: round_key_def)
  moreover have "Nr' = Nr \<and> dec_schedule Nr ek' dk"
    using KeySetupDec_schedule [OF ek' assms(5)] Nr assms(3) by simp
  ultimately show ?thesis using Nr(2) keys [of 0] by (auto simp: dec_schedule_def)
qed

lemma enc_count_rounds: "enc_count n rk (p + 4) s = (enc_rounds rk p n s, p + 4 * Suc n)"
proof (induction n arbitrary: p s)
  case (Suc n)
  show ?case using Suc [of "p + 4" "enc_round rk (p + 4) s"]
    by (simp add: enc_rounds_front del: enc_rounds.simps) 
qed simp

lemma dec_count_rounds: "dec_count n rk (p + 4) s = (dec_rounds rk p n s, p + 4 * Suc n)"
proof (induction n arbitrary: p s)
  case (Suc n)
  show ?case using Suc [of "p + 4" "dec_round rk (p + 4) s"]
    by (simp add: dec_rounds_front del: dec_rounds.simps)
qed simp

lemma push_bit_2_nat: "push_bit 2 (n :: nat) = 4 * n"
  by (simp add: push_bit_eq_mult)

lemma KeySetupEnc_Nr:
  "valid_bits bits \<Longrightarrow> rijndaelKeySetupEnc rk key bits = (ek, Nr) \<Longrightarrow> Nr \<in> {10, 12, 14}"
  using KeySetupEnc_rounds [of bits rk key] by (auto simp: valid_bits_def)

lemma valid_rounds_cases: "Nr \<in> {10, 12, 14} \<Longrightarrow> valid_rounds Nr"
  by (auto simp: valid_rounds_def)

lemma enc_unrolled: "Nr \<in> {10, 12, 14} \<Longrightarrow> rijndaelEncrypt_unrolled rk Nr pt = rijndaelEncrypt rk Nr pt"
  using rijndaelEncrypt_rounds [OF valid_rounds_cases, of Nr rk pt]
  by (auto simp: rijndaelEncrypt_unrolled_def push_bit_2_nat eval_nat_numeral Let_def)

lemma dec_unrolled: "Nr \<in> {10, 12, 14} \<Longrightarrow> rijndaelDecrypt_unrolled rk Nr ct = rijndaelDecrypt rk Nr ct"
  using rijndaelDecrypt_rounds [OF valid_rounds_cases, of Nr rk ct]
  by (auto simp: rijndaelDecrypt_unrolled_def push_bit_2_nat eval_nat_numeral Let_def)

lemma enc_round_variant: "valid_rounds Nr \<Longrightarrow> rijndaelEncryptRound rk Nr pt Nr = rijndaelEncrypt rk Nr pt"
  using enc_count_rounds [of "Nr - 1" rk 0]
  by (simp add: rijndaelEncryptRound_def rijndaelEncrypt_rounds valid_rounds_def)

lemma dec_round_variant: "valid_rounds Nr \<Longrightarrow> rijndaelDecryptRound rk Nr ct Nr = rijndaelDecrypt rk Nr ct"
  using dec_count_rounds [of "Nr - 1" rk 0]
  by (simp add: rijndaelDecryptRound_def rijndaelDecrypt_rounds valid_rounds_def)

section \<open>The standard's cipher, on the sixteen bytes of the state\<close>

definition SubBytes :: "u8 list \<Rightarrow> u8 list" where
  "SubBytes st = map sbox st"

definition ShiftRows :: "u8 list \<Rightarrow> u8 list" where
  "ShiftRows st = map (\<lambda>i. st ! ((i + 4 * (i mod 4)) mod 16)) [0..<16]"

definition gf3 :: "u8 \<Rightarrow> u8" where "gf3 x = xtime x XOR x"

fun mix_bytes :: "u8 list \<Rightarrow> u8 list" where
  "mix_bytes (a # b # c # d # st) =
     [xtime a XOR gf3 b XOR c XOR d, a XOR xtime b XOR gf3 c XOR d,
      a XOR b XOR xtime c XOR gf3 d, gf3 a XOR b XOR c XOR xtime d] @ mix_bytes st"
| "mix_bytes st = []"

definition AddRoundKey :: "u8 list \<Rightarrow> u8 list \<Rightarrow> u8 list" where
  "AddRoundKey st k = map2 (XOR) st k"

fun cipher_rounds :: "(nat \<Rightarrow> u8 list) \<Rightarrow> nat \<Rightarrow> u8 list \<Rightarrow> u8 list" where
  "cipher_rounds k 0 st = AddRoundKey st (k 0)"
| "cipher_rounds k (Suc n) st = AddRoundKey (mix_bytes (ShiftRows (SubBytes (cipher_rounds k n st)))) (k (Suc n))"

definition Cipher :: "(nat \<Rightarrow> u8 list) \<Rightarrow> nat \<Rightarrow> u8 list \<Rightarrow> u8 list" where
  "Cipher k Nr st = AddRoundKey (ShiftRows (SubBytes (cipher_rounds k (Nr - 1) st))) (k Nr)"

lemma PUTU32_b: "PUTU32 w = [byte3 w, byte2 w, byte1 w, byte0 w]"
  by (simp add: PUTU32_def byte3_def byte2_def byte1_def byte0_def)

lemma upt_16: "[0..<16] = [0, 1, 2, 3, 4, 5, 6, 7, 8, 9, 10, 11, 12, 13, 14, 15]"
  by code_simp

lemma store_sub_shift: "store_state (sub_shift s) = ShiftRows (SubBytes (store_state s))"
  by (cases s) (simp add: PUTU32_b ShiftRows_def SubBytes_def upt_16)

lemma store_mix: "store_state (col_map mix_column s) = mix_bytes (store_state s)"
  by (cases s) (simp add: PUTU32_b mix_column_def Let_def gf3_def)

lemma store_xor: "store_state (col_xor s t) = AddRoundKey (store_state s) (store_state t)"
  by (cases s; cases t) (simp add: PUTU32_b AddRoundKey_def)

lemma store_load_xor: "length pt = 16 \<Longrightarrow> store_state (load_state pt rk) = AddRoundKey pt (store_state (round_key rk 0))"
  by (metis col_xor_cancel store_load store_xor load_store)

lemma store_enc_rounds:
  "length pt = 16 \<Longrightarrow> store_state (enc_rounds rk 0 n (load_state pt rk)) = cipher_rounds (\<lambda>r. store_state (round_key rk (4 * r))) n pt"
  by (induction n) (simp_all add: store_load_xor enc_round_eq store_xor store_mix store_sub_shift)

lemma encrypt_is_Cipher:
  "valid_rounds Nr \<Longrightarrow> length pt = 16 \<Longrightarrow>
   rijndaelEncrypt rk Nr pt = Cipher (\<lambda>r. store_state (round_key rk (4 * r))) Nr pt"
  by (simp add: rijndaelEncrypt_rounds Cipher_def enc_last_eq store_xor store_sub_shift store_enc_rounds)

section \<open>Results\<close>

text \<open>
  C24. Whatever the two schedule arrays held before, a block encrypted under a key of 128, 192 or
  256 bits is decrypted to itself by the schedule \<open>rijndaelKeySetupDec\<close> derives from the same key.
\<close>

theorem rijndael_roundtrip:
  assumes "valid_bits bits" "60 \<le> length rk" "60 \<le> length rk'" "length pt = 16"
    and "rijndaelKeySetupEnc rk key bits = (ek, Nr)" "rijndaelKeySetupDec rk' key bits = (dk, Nr')"
  shows "rijndaelDecrypt dk Nr' (rijndaelEncrypt ek Nr pt) = pt \<and> Nr' = Nr"
  using KeySetup_inverse [OF assms(1-3,5,6)] decrypt_encrypt_schedule assms(4) by blast

theorem rijndael_roundtrip_witness:
  "rijndaelDecrypt (fst (rijndaelKeySetupDec (replicate 60 1) (replicate 16 7) 128)) 10
     (rijndaelEncrypt (fst (rijndaelKeySetupEnc (replicate 60 0) (replicate 16 7) 128)) 10
       (replicate 16 42)) = replicate 16 42"
proof -
  let ?E = "rijndaelKeySetupEnc (replicate 60 0) (replicate 16 7) 128"
  let ?D = "rijndaelKeySetupDec (replicate 60 1) (replicate 16 7) 128"
  have N: "snd ?E = 10" by (simp add: KeySetupEnc_rounds valid_bits_def)
  have E: "?E = (fst ?E, 10)" using N by (metis prod.collapse)
  have D: "?D = (fst ?D, snd ?D)" by simp
  have "rijndaelDecrypt (fst ?D) (snd ?D) (rijndaelEncrypt (fst ?E) 10 (replicate 16 42)) = replicate 16 42
      \<and> snd ?D = 10"
    by (rule rijndael_roundtrip [OF _ _ _ _ E D]) (simp_all add: valid_bits_def)
  then show ?thesis by metis
qed

text \<open>
  C25. The key setup produces the expanded key of the standard, and over it the table-driven loop,
  the unrolled rounds and the round-counting variant all compute the standard's composition of
  SubBytes, ShiftRows, MixColumns and AddRoundKey on the sixteen bytes of the block.
\<close>

theorem rijndael_is_Cipher:
  assumes "valid_bits bits" "60 \<le> length rk" "length pt = 16"
    and "rijndaelKeySetupEnc rk key bits = (ek, Nr)"
  shows "expanded (bits div 32) key (4 * Nr + 4) ek \<and> Nr = bits div 32 + 6 \<and>
    rijndaelEncrypt ek Nr pt = Cipher (\<lambda>r. store_state (round_key ek (4 * r))) Nr pt \<and>
    rijndaelEncrypt_unrolled ek Nr pt = rijndaelEncrypt ek Nr pt \<and>
    rijndaelEncryptRound ek Nr pt Nr = rijndaelEncrypt ek Nr pt \<and>
    rijndaelDecrypt_unrolled ek Nr pt = rijndaelDecrypt ek Nr pt \<and>
    rijndaelDecryptRound ek Nr pt Nr = rijndaelDecrypt ek Nr pt"
proof -
  have Nr: "Nr \<in> {10, 12, 14}" by (rule KeySetupEnc_Nr [OF assms(1,4)])
  show ?thesis
    using KeySetupEnc_expanded [OF assms(1,2,4)] encrypt_is_Cipher [OF valid_rounds_cases [OF Nr] assms(3)]
      enc_unrolled [OF Nr] dec_unrolled [OF Nr] enc_round_variant [OF valid_rounds_cases [OF Nr]]
      dec_round_variant [OF valid_rounds_cases [OF Nr]]
    by blast
qed

theorem rijndael_is_Cipher_witness:
  "rijndaelEncrypt_unrolled (fst (rijndaelKeySetupEnc (replicate 60 0) (replicate 32 7) 256)) 14
     (replicate 16 42) =
   Cipher (\<lambda>r. store_state (round_key (fst (rijndaelKeySetupEnc (replicate 60 0) (replicate 32 7) 256)) (4 * r)))
     14 (replicate 16 42)"
proof -
  let ?E = "rijndaelKeySetupEnc (replicate 60 0) (replicate 32 7) 256"
  have N: "snd ?E = 14" by (simp add: KeySetupEnc_rounds valid_bits_def)
  have E: "?E = (fst ?E, 14)" using N by (metis prod.collapse)
  show ?thesis
    using rijndael_is_Cipher [OF _ _ _ E, of "replicate 16 42"] by (simp add: valid_bits_def)
qed

end
