(* ===== verification/Blocks.thy ===== *)
theory Blocks
  imports Rijndael
begin

unbundle bit_operations_syntax

text \<open>
  Keys and the chaining mode of \<open>bwlib/rijndael-api-fst.c\<close>, the hexadecimal readers of keys and
  initialisation vectors, and the token functions of \<open>bwlib/io.c\<close>. A key instance is the record
  the C code fills in; its schedule array keeps what it held beyond the round keys.

  The locale \<open>block_cipher\<close> is what chaining needs of a block cipher: decryption under a matching
  key inverts encryption. Its lemmas (a chained message is read back, also in pieces) are proved
  once there and interpreted on the cipher of \<open>Rijndael\<close>.
\<close>

section \<open>Keys\<close>

record keyInstance =
  Nr :: nat
  rk :: "u32 list"

definition DIR_ENCRYPT :: nat where "DIR_ENCRYPT = 0"
definition DIR_DECRYPT :: nat where "DIR_DECRYPT = 1"

definition BAD_KEY_MAT :: int where "BAD_KEY_MAT = -2"
definition BAD_CIPHER_INSTANCE :: int where "BAD_CIPHER_INSTANCE = -7"

text \<open>A hexadecimal digit; any other character is refused.\<close>

definition hex_digit :: "char \<Rightarrow> nat option" where
  "hex_digit c = (let t = of_char c in
     if of_char CHR ''0'' \<le> t \<and> t \<le> of_char CHR ''9'' then Some (t - of_char CHR ''0'')
     else if of_char CHR ''a'' \<le> t \<and> t \<le> of_char CHR ''f'' then Some (t - of_char CHR ''a'' + 10)
     else if of_char CHR ''A'' \<le> t \<and> t \<le> of_char CHR ''F'' then Some (t - of_char CHR ''A'' + 10)
     else None)"

text \<open>The loop both readers share: \<open>n\<close> bytes from two digits each. The terminating zero of a
  short string is not a digit, so reading stops there.\<close>

fun hex_bytes :: "nat \<Rightarrow> string \<Rightarrow> u8 list option" where
  "hex_bytes 0 s = Some []"
| "hex_bytes (Suc n) (c # d # s) = (case (hex_digit c, hex_digit d) of
     (Some v, Some w) \<Rightarrow> map_option ((#) (of_nat (push_bit 4 v) XOR of_nat w)) (hex_bytes n s)
   | _ \<Rightarrow> None)"
| "hex_bytes (Suc n) s = None"

definition setup_key :: "nat \<Rightarrow> keyInstance \<Rightarrow> u8 list \<Rightarrow> keyInstance" where
  "setup_key direction key cipherKey =
     (let (r, n) = (if direction = DIR_ENCRYPT then rijndaelKeySetupEnc (rk key) cipherKey 128
                    else rijndaelKeySetupDec (rk key) cipherKey 128)
      in key\<lparr>Nr := n, rk := r\<rparr>)"

definition makeKey :: "keyInstance \<Rightarrow> nat \<Rightarrow> string \<Rightarrow> int \<times> keyInstance" where
  "makeKey key direction keyMaterial = (case hex_bytes 16 keyMaterial of
     None \<Rightarrow> (BAD_KEY_MAT, key)
   | Some cipherKey \<Rightarrow> (1, setup_key direction key cipherKey))"

definition bytes2Key :: "keyInstance \<Rightarrow> u8 list \<Rightarrow> keyInstance" where
  "bytes2Key key sid = setup_key DIR_ENCRYPT key sid"

text \<open>\<open>cipherInit\<close>: a missing string gives the zero vector; the bytes read before a bad digit
  have already been stored.\<close>

fun hex_prefix :: "nat \<Rightarrow> string \<Rightarrow> u8 list" where
  "hex_prefix 0 s = []"
| "hex_prefix (Suc n) (c # d # s) = (case (hex_digit c, hex_digit d) of
     (Some v, Some w) \<Rightarrow> (of_nat (push_bit 4 v) XOR of_nat w) # hex_prefix n s
   | _ \<Rightarrow> [])"
| "hex_prefix (Suc n) s = []"

definition cipherInit :: "u8 list \<Rightarrow> string option \<Rightarrow> int \<times> u8 list" where
  "cipherInit binIV hexIV = (case hexIV of
     None \<Rightarrow> (1, replicate 16 0)
   | Some s \<Rightarrow> (case hex_bytes 16 s of
       Some iv \<Rightarrow> (1, iv)
     | None \<Rightarrow> (BAD_CIPHER_INSTANCE, memcpy binIV 0 (hex_prefix 16 s))))"

section \<open>Chaining\<close>

text \<open>
  The loops of \<open>blockEncrypt\<close> and \<open>blockDecrypt\<close>, for an arbitrary function on blocks. Each
  block of the input is read before the same block of the output is written and never again, so
  the callers that pass one buffer as input and output get the same result. The four word-wise
  exclusive-ors of the code are one on sixteen bytes.
\<close>

definition xor16 :: "u8 list \<Rightarrow> u8 list \<Rightarrow> u8 list" where
  "xor16 a b = map2 (XOR) a b"

fun cbc_encrypt :: "(u8 list \<Rightarrow> u8 list) \<Rightarrow> nat \<Rightarrow> u8 list \<Rightarrow> u8 list \<Rightarrow> u8 list \<times> u8 list" where
  "cbc_encrypt E 0 iv input = ([], iv)"
| "cbc_encrypt E (Suc n) iv input =
     (let block = xor16 (take 16 input) iv;
          c = E block;
          (cs, iv') = cbc_encrypt E n c (drop 16 input)
      in (c @ cs, iv'))"

fun cbc_decrypt :: "(u8 list \<Rightarrow> u8 list) \<Rightarrow> nat \<Rightarrow> u8 list \<Rightarrow> u8 list \<Rightarrow> u8 list \<times> u8 list" where
  "cbc_decrypt D 0 iv input = ([], iv)"
| "cbc_decrypt D (Suc n) iv input =
     (let block = xor16 (D (take 16 input)) iv;
          (bs, iv') = cbc_decrypt D n (take 16 input) (drop 16 input)
      in (block @ bs, iv'))"

text \<open>
  \<open>blockEncrypt\<close> and \<open>blockDecrypt\<close> return the number of bits done, the bytes written to the
  output and the vector left in \<open>binIV\<close>. (The tests for null pointers have no counterpart.)
\<close>

definition blockEncrypt :: "u8 list \<Rightarrow> keyInstance \<Rightarrow> u8 list \<Rightarrow> int \<Rightarrow> int \<times> u8 list \<times> u8 list" where
  "blockEncrypt binIV key input inputLen =
     (if inputLen \<le> 0 then (0, [], binIV)
      else let numBlocks = nat (inputLen div 128)
           in (128 * int numBlocks, cbc_encrypt (rijndaelEncrypt (rk key) (Nr key)) numBlocks binIV input))"

definition blockDecrypt :: "u8 list \<Rightarrow> keyInstance \<Rightarrow> u8 list \<Rightarrow> int \<Rightarrow> int \<times> u8 list \<times> u8 list" where
  "blockDecrypt binIV key input inputLen =
     (if inputLen \<le> 0 then (0, [], binIV)
      else let numBlocks = nat (inputLen div 128)
           in (128 * int numBlocks, cbc_decrypt (rijndaelDecrypt (rk key) (Nr key)) numBlocks binIV input))"

section \<open>Tokens\<close>

text \<open>\<open>key0\<close> is the uninitialised local key of the C functions.\<close>

definition TOKEN_BITS_LEN :: int where "TOKEN_BITS_LEN = 2 * 16 * 8"

definition BWLEncryptToken :: "keyInstance \<Rightarrow> u8 list \<Rightarrow> u8 list \<Rightarrow> int \<times> u8 list" where
  "BWLEncryptToken key0 binKey token_in =
     (let IV = replicate 16 0;
          key = setup_key DIR_ENCRYPT key0 binKey;
          (r, token_out, _) = blockEncrypt IV key token_in TOKEN_BITS_LEN
      in (if r \<noteq> TOKEN_BITS_LEN then -1 else 0, token_out))"

definition BWLDecryptToken :: "keyInstance \<Rightarrow> u8 list \<Rightarrow> u8 list \<Rightarrow> int \<times> u8 list" where
  "BWLDecryptToken key0 binKey token_in =
     (let IV = replicate 16 0;
          key = setup_key DIR_DECRYPT key0 binKey;
          (r, token_out, _) = blockDecrypt IV key token_in TOKEN_BITS_LEN
      in (if r \<noteq> TOKEN_BITS_LEN then -1 else 0, token_out))"

section \<open>What chaining needs of the cipher\<close>

locale block_cipher =
  fixes enc dec :: "'k \<Rightarrow> u8 list \<Rightarrow> u8 list"
    and matching :: "'k \<Rightarrow> 'k \<Rightarrow> bool"
  assumes dec_enc: "matching ke kd \<Longrightarrow> length b = 16 \<Longrightarrow> dec kd (enc ke b) = b"
    and length_enc: "matching ke kd \<Longrightarrow> length b = 16 \<Longrightarrow> length (enc ke b) = 16"
begin

lemma length_xor16: "length a = 16 \<Longrightarrow> length b = 16 \<Longrightarrow> length (xor16 a b) = 16"
  by (simp add: xor16_def)

lemma xor16_cancel: "length a = n \<Longrightarrow> length b = n \<Longrightarrow> xor16 (xor16 a b) b = a"
  by (simp add: xor16_def list_eq_iff_nth_eq xor.assoc)

lemma cbc_decrypt_encrypt:
  "matching ke kd \<Longrightarrow> length iv = 16 \<Longrightarrow> length data = 16 * n \<Longrightarrow>
   cbc_encrypt (enc ke) n iv data = (c, iv') \<Longrightarrow>
   length c = 16 * n \<and> length iv' = 16 \<and> cbc_decrypt (dec kd) n iv (c @ rest) = (data, iv')"
proof (induction n arbitrary: iv data c)
  case 0
  then show ?case by simp
next
  case (Suc n)
  let ?b = "xor16 (take 16 data) iv"
  have b: "length ?b = 16" using Suc.prems by (intro length_xor16) simp_all
  obtain cs where cs: "cbc_encrypt (enc ke) n (enc ke ?b) (drop 16 data) = (cs, iv')" and c: "c = enc ke ?b @ cs"
    using Suc.prems(4) by (auto simp: Let_def split: prod.splits)
  have len: "length (enc ke ?b) = 16" by (rule length_enc [OF Suc.prems(1) b])
  from Suc.IH [OF Suc.prems(1) len _ cs] Suc.prems(3)
  have IH: "length cs = 16 * n" "length iv' = 16"
    "cbc_decrypt (dec kd) n (enc ke ?b) (cs @ rest) = (drop 16 data, iv')" by simp_all
  have "xor16 (dec kd (enc ke ?b)) iv = take 16 data"
    using Suc.prems by (simp add: dec_enc [OF Suc.prems(1) b] xor16_cancel [where n = 16])
  then show ?case using IH len by (simp add: c Let_def append.assoc)
qed

lemma cbc_encrypt_append:
  "length a = 16 * m \<Longrightarrow> cbc_encrypt E m iv a = (ca, iv1) \<Longrightarrow> cbc_encrypt E n iv1 b = (cb, iv2) \<Longrightarrow>
   cbc_encrypt E (m + n) iv (a @ b) = (ca @ cb, iv2)"
proof (induction m arbitrary: iv a ca)
  case (Suc m)
  then obtain c1 where c1: "cbc_encrypt E m (E (xor16 (take 16 a) iv)) (drop 16 a) = (c1, iv1)"
      "ca = E (xor16 (take 16 a) iv) @ c1"
    by (auto simp: Let_def split: prod.splits)
  from Suc.IH [OF _ c1(1) Suc.prems(3)] Suc.prems(1) c1(2) show ?case by (simp add: Let_def)
qed simp

end

text \<open>The key instances set up for the two directions from the same sixteen bytes.\<close>

definition key_pair :: "keyInstance \<Rightarrow> keyInstance \<Rightarrow> bool" where
  "key_pair ke kd \<longleftrightarrow> (\<exists>k0 k1 key. 60 \<le> length (rk k0) \<and> 60 \<le> length (rk k1) \<and>
     ke = setup_key DIR_ENCRYPT k0 key \<and> kd = setup_key DIR_DECRYPT k1 key)"

lemma key_pairI:
  "60 \<le> length (rk k0) \<Longrightarrow> 60 \<le> length (rk k1) \<Longrightarrow>
   key_pair (setup_key DIR_ENCRYPT k0 key) (setup_key DIR_DECRYPT k1 key)"
  unfolding key_pair_def by blast

lemma key_pair_inverse:
  assumes "key_pair ke kd" "length b = 16"
  shows "rijndaelDecrypt (rk kd) (Nr kd) (rijndaelEncrypt (rk ke) (Nr ke) b) = b \<and>
    length (rijndaelEncrypt (rk ke) (Nr ke) b) = 16"
proof -
  from assms(1) obtain k0 k1 key where k: "60 \<le> length (rk k0)" "60 \<le> length (rk k1)"
      "ke = setup_key DIR_ENCRYPT k0 key" "kd = setup_key DIR_DECRYPT k1 key"
    unfolding key_pair_def by blast
  obtain ek n where e: "rijndaelKeySetupEnc (rk k0) key 128 = (ek, n)" by fastforce
  obtain dk n' where d: "rijndaelKeySetupDec (rk k1) key 128 = (dk, n')" by fastforce
  have "valid_bits 128" by (simp add: valid_bits_def)
  note inv = KeySetup_inverse [OF this k(1,2) e d]
  with k(3,4) e d show ?thesis
    using decrypt_encrypt_schedule [of n ek dk b] assms(2)
    by (simp add: setup_key_def DIR_ENCRYPT_def DIR_DECRYPT_def rijndaelEncrypt_rounds)
qed

interpretation rij: block_cipher "\<lambda>k. rijndaelEncrypt (rk k) (Nr k)" "\<lambda>k. rijndaelDecrypt (rk k) (Nr k)" key_pair
  by unfold_locales (simp_all add: key_pair_inverse)

text \<open>The same on the level of the API functions.\<close>

lemma blockEncrypt_blocks:
  "blockEncrypt iv key data (int n * 128) =
     (128 * int n, cbc_encrypt (rijndaelEncrypt (rk key) (Nr key)) n iv data)"
  by (auto simp: blockEncrypt_def Let_def)

lemma blockDecrypt_blocks:
  "blockDecrypt iv key data (int n * 128) =
     (128 * int n, cbc_decrypt (rijndaelDecrypt (rk key) (Nr key)) n iv data)"
  by (auto simp: blockDecrypt_def Let_def)

text \<open>
  A token encrypted under a key and decrypted under the same key, both starting from the zero
  vector, is the token again, whatever the local key structures held before.
\<close>

lemma token_roundtrip:
  assumes "length token = 32" "60 \<le> length (rk k0)" "60 \<le> length (rk k1)"
  shows "\<exists>c. BWLEncryptToken k0 key token = (0, c) \<and> length c = 32 \<and>
    BWLDecryptToken k1 key c = (0, token)"
proof -
  let ?e = "setup_key DIR_ENCRYPT k0 key" and ?d = "setup_key DIR_DECRYPT k1 key"
  obtain c iv' where c: "cbc_encrypt (rijndaelEncrypt (rk ?e) (Nr ?e)) 2 (replicate 16 0) token = (c, iv')"
    by fastforce
  have len: "TOKEN_BITS_LEN = int 2 * 128" by (simp add: TOKEN_BITS_LEN_def)
  have "length c = 16 * 2 \<and> length iv' = 16 \<and>
      cbc_decrypt (rijndaelDecrypt (rk ?d) (Nr ?d)) 2 (replicate 16 0) (c @ []) = (token, iv')"
    by (rule rij.cbc_decrypt_encrypt [OF key_pairI [OF assms(2,3)] _ _ c]) (simp_all add: assms(1))
  then show ?thesis
    using c by (simp add: BWLEncryptToken_def BWLDecryptToken_def Let_def len blockEncrypt_blocks
        blockDecrypt_blocks del: of_nat_numeral)
qed

end
