(* ===== verification/Arith64.thy ===== *)
theory Arith64
  imports Prelude
begin

text \<open>
  The fixed-point time arithmetic of \<open>bwlib/arithm64.c\<close> and the \<open>BWLNum64\<close> macros of
  \<open>bwlib/bwlib.h\<close>. A \<open>BWLNum64\<close> is an unsigned 64-bit integer: 32 bits of seconds, 32 bits
  of binary fraction. The normalisation loops of the conversions are recursive functions with
  a termination measure; C's \<open>long\<close> fields are \<open>int\<close>, \<open>uint32_t\<close> locals are \<open>32 word\<close>.
  The two conversions to and from \<open>double\<close> are left to the floating-point rounding of
  theory \<open>Rounding\<close>.
\<close>

type_synonym BWLNum64 = u64
type_synonym I2numT = u64

definition MASK32 :: "u64 \<Rightarrow> u64" where
  "MASK32 x = x AND 0xFFFFFFFF"

definition BILLION :: nat where "BILLION = 1000000000"
definition MILLION :: nat where "MILLION = 1000000"

section \<open>Macros of bwlib.h\<close>

definition BWLNum64Diff :: "BWLNum64 \<Rightarrow> BWLNum64 \<Rightarrow> BWLNum64" where
  "BWLNum64Diff x y = (if x > y then x - y else y - x)"

definition BWLNum64Add :: "BWLNum64 \<Rightarrow> BWLNum64 \<Rightarrow> BWLNum64" where
  "BWLNum64Add x y = x + y"

definition BWLNum64Sub :: "BWLNum64 \<Rightarrow> BWLNum64 \<Rightarrow> BWLNum64" where
  "BWLNum64Sub x y = x - y"

definition BWLNum64Cmp :: "BWLNum64 \<Rightarrow> BWLNum64 \<Rightarrow> int" where
  "BWLNum64Cmp x y = (if x < y then - 1 else if x > y then 1 else 0)"

definition BWLNum64Min :: "BWLNum64 \<Rightarrow> BWLNum64 \<Rightarrow> BWLNum64" where
  "BWLNum64Min x y = (if x < y then x else y)"

definition BWLNum64Max :: "BWLNum64 \<Rightarrow> BWLNum64 \<Rightarrow> BWLNum64" where
  "BWLNum64Max x y = (if x > y then x else y)"

section \<open>Multiplication and integer conversions\<close>

definition BWLNum64Mult :: "BWLNum64 \<Rightarrow> BWLNum64 \<Rightarrow> BWLNum64" where
  "BWLNum64Mult x y =
     (let xlo = MASK32 x; xhi = MASK32 (drop_bit 32 x);
          ylo = MASK32 y; yhi = MASK32 (drop_bit 32 y)
      in drop_bit 32 (xlo * ylo) + xhi * ylo + xlo * yhi + push_bit 32 (xhi * yhi))"

definition BWLULongToNum64 :: "u32 \<Rightarrow> BWLNum64" where
  "BWLULongToNum64 a = push_bit 32 (ucast a)"

definition BWLI2numTToNum64 :: "I2numT \<Rightarrow> BWLNum64" where
  "BWLI2numTToNum64 a = push_bit 32 a"

definition BWLUsecToNum64 :: "u32 \<Rightarrow> BWLNum64" where
  "BWLUsecToNum64 usec = push_bit 32 (ucast usec) div of_nat MILLION"

section \<open>Conversions to and from timespec and timeval\<close>

record timespec =
  ts_sec :: int
  ts_nsec :: int

record timeval =
  tvl_sec :: int
  tvl_usec :: int

text \<open>The loop \<open>while (frac >= unit) { sec++; frac -= unit; }\<close> on \<open>long\<close> fields.\<close>

function carry_long :: "nat \<Rightarrow> int \<Rightarrow> int \<Rightarrow> int \<times> int" where
  "carry_long base sec frac =
     (if 0 < base \<and> int base \<le> frac then carry_long base (sec + 1) (frac - int base)
      else (sec, frac))"
  by pat_completeness auto
termination
  by (relation "measure (\<lambda>(base, sec, frac). nat frac)") auto

declare carry_long.simps [simp del]

text \<open>The same loop on \<open>uint32_t\<close> locals, where \<open>sec++\<close> wraps around.\<close>

function carry_u32 :: "nat \<Rightarrow> u32 \<Rightarrow> u32 \<Rightarrow> u32 \<times> u32" where
  "carry_u32 base sec frac =
     (if 0 < base \<and> base \<le> unat frac then carry_u32 base (sec + 1) (frac - of_nat base)
      else (sec, frac))"
  by pat_completeness auto
termination
proof (relation "measure (\<lambda>(base, sec, frac). unat frac)", goal_cases)
  case 1
  show ?case by simp
next
  case (2 base sec frac)
  then have "base < 2 ^ 32"
    using unat_bound [of frac] by simp
  then have "unat (of_nat base :: u32) = base" by (simp add: unat_of_nat)
  with 2 show ?case by (simp add: unat_minus_noov)
qed

declare carry_u32.simps [simp del]

definition BWLNum64ToTimespec :: "BWLNum64 \<Rightarrow> timespec" where
  "BWLNum64ToTimespec from =
     (let sec = uint (MASK32 (drop_bit 32 from));
          nsec = uint (MASK32 (drop_bit 32 (MASK32 from * of_nat BILLION)));
          (s, n) = carry_long BILLION sec nsec
      in \<lparr>ts_sec = s, ts_nsec = n\<rparr>)"

definition BWLTimespecToNum64 :: "timespec \<Rightarrow> BWLNum64" where
  "BWLTimespecToNum64 from =
     (let (sec, nsec) = carry_u32 BILLION (word_of_int (ts_sec from)) (word_of_int (ts_nsec from))
      in push_bit 32 (MASK32 (ucast sec)) OR
         MASK32 (push_bit 32 (ucast nsec) div of_nat BILLION))"

definition BWLNum64ToTimeval :: "BWLNum64 \<Rightarrow> timeval" where
  "BWLNum64ToTimeval from =
     (let sec = uint (MASK32 (drop_bit 32 from));
          usec = uint (MASK32 (drop_bit 32 (MASK32 from * of_nat MILLION)));
          (s, n) = carry_long MILLION sec usec
      in \<lparr>tvl_sec = s, tvl_usec = n\<rparr>)"

definition BWLTimevalToNum64 :: "timeval \<Rightarrow> BWLNum64" where
  "BWLTimevalToNum64 from =
     (let (sec, usec) = carry_u32 MILLION (word_of_int (tvl_sec from)) (word_of_int (tvl_usec from))
      in push_bit 32 (MASK32 (ucast sec)) OR
         MASK32 (push_bit 32 (ucast usec) div of_nat MILLION))"

section \<open>Reading the operations on natural numbers\<close>

lemma unat_MASK32 [word_nat]: "unat (MASK32 x) = unat x mod 2 ^ 32"
proof -
  have "MASK32 x = take_bit 32 x"
    by (simp add: MASK32_def take_bit_eq_mask mask_eq_exp_minus_1)
  then show ?thesis by (simp add: take_bit_eq_mod unat_mod)
qed

lemma unat_drop_bit32 [word_nat]: "unat (drop_bit 32 (x :: u64)) = unat x div 2 ^ 32"
  by (simp add: drop_bit_eq_div unat_div)

lemma unat_push_bit32 [word_nat]: "unat (push_bit 32 (x :: u64)) = unat x * 2 ^ 32 mod 2 ^ 64"
  by (simp add: push_bit_eq_mult unat_word_ariths)

lemma unat_ucast32 [word_nat]: "unat (ucast (x :: u32) :: u64) = unat x"
  using unat_bound [of x] by (simp add: unsigned_ucast_eq take_bit_nat_eq_self)

lemma u32_bound: "unat (x :: u32) < 2 ^ 32"
  using unat_bound [of x] by simp

lemma u64_bound: "unat (x :: u64) < 2 ^ 64"
  using unat_bound [of x] by simp

lemma unat_shifted_seconds [word_nat]:
  "unat (push_bit 32 (ucast (x :: u32) :: u64)) = unat x * 2 ^ 32"
proof -
  have "unat x * 2 ^ 32 < 2 ^ 64" using u32_bound [of x] by simp
  then show ?thesis by (simp add: unat_push_bit32 unat_ucast32)
qed

lemma unat_BWLULongToNum64 [word_nat]: "unat (BWLULongToNum64 a) = unat a * 2 ^ 32"
  by (simp add: BWLULongToNum64_def unat_shifted_seconds)

text \<open>Seconds and fraction in disjoint halves: the bitwise or is a sum.\<close>

lemma unat_join_halves [word_nat]:
  fixes a b :: u64
  assumes "unat a < 2 ^ 32" and "unat b < 2 ^ 32"
  shows "unat (push_bit 32 a OR b) = unat a * 2 ^ 32 + unat b"
proof -
  have b: "take_bit 32 b = b"
    using assms(2) by (simp add: take_bit_eq_mod word_unat_eq_iff unat_mod)
  have "push_bit 32 a AND b = 0"
  proof (rule bit_word_eqI)
    fix n assume "n < LENGTH(64)"
    have "bit b n \<Longrightarrow> n < 32"
      by (subst (asm) b [symmetric]) (simp add: bit_take_bit_iff)
    then show "bit (push_bit 32 a AND b) n = bit (0 :: u64) n"
      by (auto simp: bit_and_iff bit_push_bit_iff)
  qed
  then have "push_bit 32 a OR b = push_bit 32 a + b"
    by (simp add: disjunctive_add_eq_or)
  moreover have "unat (push_bit 32 a) = unat a * 2 ^ 32"
    using assms(1) by (simp add: unat_push_bit32)
  ultimately show ?thesis
    using assms by (simp add: unat_plus_noov)
qed

section \<open>Multiplication is exact fixed-point multiplication\<close>

lemma mult_halves:
  fixes X Y :: nat
  shows "X * Y div 2 ^ 32 =
    (X mod 2 ^ 32) * (Y mod 2 ^ 32) div 2 ^ 32 + (X div 2 ^ 32) * (Y mod 2 ^ 32)
      + (X mod 2 ^ 32) * (Y div 2 ^ 32) + (X div 2 ^ 32) * (Y div 2 ^ 32) * 2 ^ 32"
proof -
  define xl xh yl yh :: nat where "xl = X mod 2 ^ 32" and "xh = X div 2 ^ 32"
    and "yl = Y mod 2 ^ 32" and "yh = Y div 2 ^ 32"
  have X: "X = xh * 2 ^ 32 + xl" and Y: "Y = yh * 2 ^ 32 + yl"
    unfolding xl_def xh_def yl_def yh_def by simp_all
  have "X * Y = xl * yl + (xh * yl + xl * yh + xh * yh * 2 ^ 32) * 2 ^ 32"
    unfolding X Y by (simp add: algebra_simps)
  then have "X * Y div 2 ^ 32 = xl * yl div 2 ^ 32 + (xh * yl + xl * yh + xh * yh * 2 ^ 32)"
    by simp
  then show ?thesis unfolding xl_def xh_def yl_def yh_def by simp
qed

text \<open>
  C12. \<open>BWLNum64Mult\<close> computes the product of two 32.32 fixed-point numbers from four 32-bit
  partial products. The result is the full 128-bit product shifted right by 32 bits, reduced
  modulo \<open>2 ^ 64\<close>: no partial product loses a carry, and only the documented overflow of the
  seconds is dropped.
\<close>

theorem BWLNum64Mult_exact:
  "unat (BWLNum64Mult x y) = unat x * unat y div 2 ^ 32 mod 2 ^ 64"
proof -
  have h: "unat z div 2 ^ 32 mod 2 ^ 32 = unat z div 2 ^ 32" for z :: u64
    using u64_bound [of z] by (simp add: less_mult_imp_div_less)
  have ll: "unat (MASK32 x * MASK32 y) = (unat x mod 2 ^ 32) * (unat y mod 2 ^ 32)"
  proof -
    have "(unat x mod 2 ^ 32) * (unat y mod 2 ^ 32) < 2 ^ 32 * 2 ^ 32"
      by (rule mult_strict_mono) simp_all
    then show ?thesis by (simp add: unat_word_ariths unat_MASK32)
  qed
  have "BWLNum64Mult x y = of_nat
    ((unat x mod 2 ^ 32) * (unat y mod 2 ^ 32) div 2 ^ 32 + (unat x div 2 ^ 32) * (unat y mod 2 ^ 32)
      + (unat x mod 2 ^ 32) * (unat y div 2 ^ 32) + (unat x div 2 ^ 32) * (unat y div 2 ^ 32) * 2 ^ 32)"
  proof -
    have w: "z = of_nat (unat z)" for z :: u64 by simp
    have "drop_bit 32 (MASK32 x * MASK32 y) =
        (of_nat ((unat x mod 2 ^ 32) * (unat y mod 2 ^ 32) div 2 ^ 32) :: u64)"
      by (subst w) (simp only: unat_drop_bit32 ll)
    moreover have "MASK32 z = of_nat (unat z mod 2 ^ 32)" for z
      by (subst w) (simp only: unat_MASK32)
    moreover have "MASK32 (drop_bit 32 z) = of_nat (unat z div 2 ^ 32)" for z
      by (subst w) (simp only: unat_MASK32 unat_drop_bit32 h)
    ultimately show ?thesis
      by (simp add: BWLNum64Mult_def Let_def push_bit_eq_mult)
  qed
  then show ?thesis by (simp only: mult_halves [symmetric] unat_of_nat) simp
qed

section \<open>The carry loops\<close>

lemma carry_long_eq:
  "0 < base \<Longrightarrow> 0 \<le> frac \<Longrightarrow>
   carry_long base sec frac = (sec + frac div int base, frac mod int base)"
proof (induction base sec frac rule: carry_long.induct)
  case (1 base sec frac)
  show ?case
  proof (cases "int base \<le> frac")
    case True
    have d: "frac div int base = (frac - int base) div int base + 1"
      using True "1.prems" by (intro div_pos_geq) simp_all
    have m: "frac mod int base = (frac - int base) mod int base"
      using True "1.prems" by (intro mod_pos_geq) simp_all
    have "carry_long base sec frac = carry_long base (sec + 1) (frac - int base)"
      using True "1.prems" by (subst carry_long.simps) simp
    also have "\<dots> = (sec + 1 + (frac - int base) div int base, (frac - int base) mod int base)"
      using True "1.IH" "1.prems" by simp
    finally show ?thesis by (simp only: d m add.assoc add.commute [of 1])
  next
    case False
    then show ?thesis using "1.prems" by (simp add: carry_long.simps [of base sec frac])
  qed
qed

lemma carry_u32_eq:
  "0 < base \<Longrightarrow> base < 2 ^ 32 \<Longrightarrow>
   carry_u32 base sec frac = (sec + of_nat (unat frac div base), of_nat (unat frac mod base))"
proof (induction base sec frac rule: carry_u32.induct)
  case (1 base sec frac)
  show ?case
  proof (cases "base \<le> unat frac")
    case True
    have b: "unat (of_nat base :: u32) = base" using "1.prems" by (simp add: unat_of_nat)
    then have u: "unat (frac - of_nat base) = unat frac - base"
      using True by (simp add: unat_minus_noov)
    have d: "unat frac div base = Suc ((unat frac - base) div base)"
      using True "1.prems" by (simp add: le_div_geq)
    have m: "unat frac mod base = (unat frac - base) mod base"
      using True by (simp add: le_mod_geq)
    have "carry_u32 base sec frac = carry_u32 base (sec + 1) (frac - of_nat base)"
      using True "1.prems" by (subst carry_u32.simps) simp
    also have "\<dots> = (sec + 1 + of_nat ((unat frac - base) div base),
        of_nat ((unat frac - base) mod base))"
      using True "1.IH" "1.prems" by (simp only: u)
    finally show ?thesis by (simp only: d m of_nat_Suc add.assoc)
  next
    case False
    then show ?thesis by (simp add: carry_u32.simps [of base sec frac])
  qed
qed

section \<open>Sub-second units\<close>

text \<open>
  Both timespec and timeval express the fraction of a second in units of \<open>1 / base\<close>. The
  binary fraction has \<open>2 ^ 32\<close> steps, so each direction of the conversion rounds down. The
  facts below hold for any unit not finer than the binary fraction.
\<close>

locale subsecond =
  fixes base :: nat
  assumes base_pos: "0 < base" and base_le: "base < 2 ^ 32"
begin

definition units_of :: "nat \<Rightarrow> nat" where
  "units_of f = f * base div 2 ^ 32"

definition frac_of :: "nat \<Rightarrow> nat" where
  "frac_of n = n * 2 ^ 32 div base"

lemma units_of_less: "f < 2 ^ 32 \<Longrightarrow> units_of f < base"
  by (simp add: units_of_def less_mult_imp_div_less base_pos)

lemma frac_of_less: "n < base \<Longrightarrow> frac_of n < 2 ^ 32"
  by (simp add: frac_of_def less_mult_imp_div_less mult.commute)

lemma frac_units_le: "frac_of (units_of f) \<le> f"
proof -
  have "f * base div 2 ^ 32 * 2 ^ 32 \<le> f * base" by (rule div_times_less_eq_dividend)
  then have "frac_of (units_of f) \<le> f * base div base"
    unfolding frac_of_def units_of_def by (rule div_le_mono)
  then show ?thesis using base_pos by simp
qed

lemma frac_units_close: "f \<le> frac_of (units_of f) + 2 ^ 32 div base + 1"
proof -
  let ?q = "f * base div 2 ^ 32" and ?r = "frac_of (units_of f)"
  have 1: "f * base < ?q * 2 ^ 32 + 2 ^ 32"
    by (rule less_div_times_plus) simp
  have 2: "?q * 2 ^ 32 < ?r * base + base"
    unfolding frac_of_def units_of_def by (rule less_div_times_plus [OF base_pos])
  have 3: "2 ^ 32 < 2 ^ 32 div base * base + base"
    by (rule less_div_times_plus [OF base_pos])
  have "f * base < (?r + 1 + (2 ^ 32 div base + 1)) * base"
    using 1 2 3 by (simp add: algebra_simps)
  then have "f < ?r + 1 + (2 ^ 32 div base + 1)"
    using base_pos by (simp only: mult_less_cancel2)
  then show ?thesis by simp
qed

lemma units_frac_le: "units_of (frac_of n) \<le> n"
proof -
  have "n * 2 ^ 32 div base * base \<le> n * 2 ^ 32" by (rule div_times_less_eq_dividend)
  then have "units_of (frac_of n) \<le> n * 2 ^ 32 div 2 ^ 32"
    unfolding frac_of_def units_of_def by (rule div_le_mono)
  then show ?thesis by simp
qed

lemma units_frac_close: "n \<le> units_of (frac_of n) + 1"
proof -
  let ?q = "n * 2 ^ 32 div base"
  have "n * 2 ^ 32 < ?q * base + base"
    by (rule less_div_times_plus [OF base_pos])
  also have "?q * base + base < (units_of (frac_of n) * 2 ^ 32 + 2 ^ 32) + 2 ^ 32"
    using less_div_times_plus [of "2 ^ 32" "?q * base"] base_le
    unfolding frac_of_def units_of_def by linarith
  finally have "n * 2 ^ 32 < (units_of (frac_of n) + 2) * 2 ^ 32" by simp
  then have "n < units_of (frac_of n) + 2" by (simp only: mult_less_cancel2)
  then show ?thesis by simp
qed

lemmas roundtrip_bounds = frac_units_le frac_units_close units_frac_le units_frac_close

end

interpretation nano: subsecond BILLION
  by unfold_locales (simp_all add: BILLION_def)

interpretation micro: subsecond MILLION
  by unfold_locales (simp_all add: MILLION_def)

section \<open>The conversions in terms of units\<close>

lemma fraction_scaled:
  assumes "base \<le> 2 ^ 32"
  shows "unat (MASK32 (drop_bit 32 (MASK32 x * of_nat base))) = unat x mod 2 ^ 32 * base div 2 ^ 32"
proof -
  have 1: "unat x mod 2 ^ 32 * base < 2 ^ 32 * 2 ^ 32" if "0 < base"
    using assms that by (intro mult_less_le_imp_less) simp_all
  then have 2: "unat x mod 2 ^ 32 * base < 2 ^ 64" by (cases "base = 0") simp_all
  have "unat (MASK32 x * of_nat base) = unat x mod 2 ^ 32 * base"
    using assms 2 by (simp add: unat_word_ariths unat_MASK32 unat_of_nat)
  moreover have "unat x mod 2 ^ 32 * base div 2 ^ 32 < 2 ^ 32"
    using 2 by (simp add: less_mult_imp_div_less)
  ultimately show ?thesis by (simp add: unat_MASK32 unat_drop_bit32)
qed

lemma seconds_part: "unat (MASK32 (drop_bit 32 x)) = unat x div 2 ^ 32"
proof -
  have "unat x div 2 ^ 32 < 2 ^ 32"
    using u64_bound [of x] by (simp add: less_mult_imp_div_less)
  then show ?thesis by (simp add: unat_MASK32 unat_drop_bit32)
qed

lemma uint_eq_int_unat: "uint w = int (unat w)"
  by simp

lemma BWLNum64ToTimespec_eq:
  "BWLNum64ToTimespec x =
     \<lparr>ts_sec = int (unat x div 2 ^ 32), ts_nsec = int (nano.units_of (unat x mod 2 ^ 32))\<rparr>"
proof -
  have l: "nano.units_of (unat x mod 2 ^ 32) < BILLION" by (rule nano.units_of_less) simp
  have u: "unat (MASK32 (drop_bit 32 (MASK32 x * of_nat BILLION))) = nano.units_of (unat x mod 2 ^ 32)"
    unfolding nano.units_of_def by (rule fraction_scaled) (simp add: BILLION_def)
  have "carry_long BILLION s (int (nano.units_of (unat x mod 2 ^ 32))) =
      (s, int (nano.units_of (unat x mod 2 ^ 32)))" for s
    using l by (subst carry_long.simps) simp
  then show ?thesis
    by (simp only: BWLNum64ToTimespec_def Let_def uint_eq_int_unat u seconds_part [of x] prod.case)
qed

lemma BWLNum64ToTimeval_eq:
  "BWLNum64ToTimeval x =
     \<lparr>tvl_sec = int (unat x div 2 ^ 32), tvl_usec = int (micro.units_of (unat x mod 2 ^ 32))\<rparr>"
proof -
  have l: "micro.units_of (unat x mod 2 ^ 32) < MILLION" by (rule micro.units_of_less) simp
  have u: "unat (MASK32 (drop_bit 32 (MASK32 x * of_nat MILLION))) = micro.units_of (unat x mod 2 ^ 32)"
    unfolding micro.units_of_def by (rule fraction_scaled) (simp add: MILLION_def)
  have "carry_long MILLION s (int (micro.units_of (unat x mod 2 ^ 32))) =
      (s, int (micro.units_of (unat x mod 2 ^ 32)))" for s
    using l by (subst carry_long.simps) simp
  then show ?thesis
    by (simp only: BWLNum64ToTimeval_def Let_def uint_eq_int_unat u seconds_part [of x] prod.case)
qed

lemma join_scaled:
  fixes sec frac :: u32
  assumes "0 < base" and "base < 2 ^ 32" and "unat frac < base"
  shows "unat (push_bit 32 (MASK32 (ucast sec)) OR
           MASK32 (push_bit 32 (ucast frac) div of_nat base)) =
         unat sec * 2 ^ 32 + unat frac * 2 ^ 32 div base"
proof -
  have s: "unat (MASK32 (ucast sec)) = unat sec"
    by (simp add: unat_MASK32 unat_ucast32)
  have b: "unat (of_nat base :: u64) = base"
    using assms(2) by (simp add: unat_of_nat)
  have q: "unat frac * 2 ^ 32 div base < 2 ^ 32"
    using assms(3) by (simp add: less_mult_imp_div_less mult.commute)
  have f: "unat (MASK32 (push_bit 32 (ucast frac) div of_nat base)) = unat frac * 2 ^ 32 div base"
    using q by (simp only: unat_MASK32 unat_div unat_shifted_seconds b) simp
  show ?thesis
    using q u32_bound [of sec] by (subst unat_join_halves) (simp_all only: s f)
qed

lemma unat_word_of_int32: "0 \<le> i \<Longrightarrow> i < 2 ^ 32 \<Longrightarrow> unat (word_of_int i :: u32) = nat i"
  by (simp add: take_bit_int_eq_self unat_eq_nat_uint uint_word_of_int_eq)

lemma BWLTimespecToNum64_eq:
  assumes "0 \<le> ts_sec t" "ts_sec t < 2 ^ 32" "0 \<le> ts_nsec t" "ts_nsec t < int BILLION"
  shows "unat (BWLTimespecToNum64 t) =
    nat (ts_sec t) * 2 ^ 32 + nano.frac_of (nat (ts_nsec t))"
proof -
  have n: "unat (word_of_int (ts_nsec t) :: u32) = nat (ts_nsec t)"
    using assms by (simp add: unat_word_of_int32 BILLION_def)
  have c: "carry_u32 BILLION (word_of_int (ts_sec t)) (word_of_int (ts_nsec t)) =
      (word_of_int (ts_sec t), word_of_int (ts_nsec t))"
    using assms n by (subst carry_u32.simps) auto
  show ?thesis
    using assms n unfolding BWLTimespecToNum64_def c
    by (simp only: Let_def prod.case)
      (subst join_scaled [OF nano.base_pos nano.base_le],
       simp_all add: unat_word_of_int32 nano.frac_of_def nat_less_iff)
qed

lemma BWLTimevalToNum64_eq:
  assumes "0 \<le> tvl_sec t" "tvl_sec t < 2 ^ 32" "0 \<le> tvl_usec t" "tvl_usec t < int MILLION"
  shows "unat (BWLTimevalToNum64 t) =
    nat (tvl_sec t) * 2 ^ 32 + micro.frac_of (nat (tvl_usec t))"
proof -
  have n: "unat (word_of_int (tvl_usec t) :: u32) = nat (tvl_usec t)"
    using assms by (simp add: unat_word_of_int32 MILLION_def)
  have c: "carry_u32 MILLION (word_of_int (tvl_sec t)) (word_of_int (tvl_usec t)) =
      (word_of_int (tvl_sec t), word_of_int (tvl_usec t))"
    using assms n by (subst carry_u32.simps) auto
  show ?thesis
    using assms n unfolding BWLTimevalToNum64_def c
    by (simp only: Let_def prod.case)
      (subst join_scaled [OF micro.base_pos micro.base_le],
       simp_all add: unat_word_of_int32 micro.frac_of_def nat_less_iff)
qed


section \<open>Round trips\<close>

text \<open>
  C16. Converting a normalised timespec to \<open>BWLNum64\<close> and back (\<open>BWLTimespecToNum64\<close>, then
  \<open>BWLNum64ToTimespec\<close>) keeps the seconds and loses at most one nanosecond, never gaining time;
  in the other direction the result is at most five units of \<open>2 ^ -32\<close> seconds below the input.
\<close>

theorem timespec_roundtrip:
  fixes t :: timespec and x :: BWLNum64
  assumes "0 \<le> ts_sec t" "ts_sec t < 2 ^ 32" "0 \<le> ts_nsec t" "ts_nsec t < 1000000000"
  defines "t' \<equiv> BWLNum64ToTimespec (BWLTimespecToNum64 t)"
    and "x' \<equiv> BWLTimespecToNum64 (BWLNum64ToTimespec x)"
  shows "ts_sec t' = ts_sec t \<and> ts_nsec t - 1 \<le> ts_nsec t' \<and> ts_nsec t' \<le> ts_nsec t \<and>
    unat x' \<le> unat x \<and> unat x \<le> unat x' + 5"
proof -
  let ?n = "nat (ts_nsec t)"
  have f: "nano.frac_of ?n < 2 ^ 32"
    using assms by (intro nano.frac_of_less) (simp add: BILLION_def nat_less_iff)
  have u: "unat (BWLTimespecToNum64 t) = nat (ts_sec t) * 2 ^ 32 + nano.frac_of ?n"
    using assms by (intro BWLTimespecToNum64_eq) (simp_all add: BILLION_def)
  have t': "t' = \<lparr>ts_sec = ts_sec t, ts_nsec = int (nano.units_of (nano.frac_of ?n))\<rparr>"
    using f assms(1) by (simp add: t'_def BWLNum64ToTimespec_eq u)
  let ?s = "unat x div 2 ^ 32" and ?f = "unat x mod 2 ^ 32"
  have s: "?s < 2 ^ 32" using u64_bound [of x] by (simp add: less_mult_imp_div_less)
  have "nano.units_of ?f < BILLION" by (rule nano.units_of_less) simp
  then have x': "unat x' = ?s * 2 ^ 32 + nano.frac_of (nano.units_of ?f)"
    using s by (simp add: x'_def BWLNum64ToTimespec_eq BWLTimespecToNum64_eq nat_less_iff)
  have x: "unat x = ?s * 2 ^ 32 + ?f" by simp
  have "?f \<le> nano.frac_of (nano.units_of ?f) + 5"
    using nano.frac_units_close [of ?f] by (simp add: BILLION_def)
  then have "unat x' \<le> unat x \<and> unat x \<le> unat x' + 5"
    using x x' nano.frac_units_le [of ?f] by linarith
  moreover have "ts_nsec t = int ?n" using assms(3) by simp
  then have "ts_nsec t - 1 \<le> ts_nsec t' \<and> ts_nsec t' \<le> ts_nsec t"
    using nano.units_frac_le [of ?n] nano.units_frac_close [of ?n]
    unfolding t' timespec.select_convs by linarith
  ultimately show ?thesis by (simp add: t')
qed

theorem timespec_roundtrip_witness:
  "ts_sec (BWLNum64ToTimespec (BWLTimespecToNum64 \<lparr>ts_sec = 7, ts_nsec = 999999999\<rparr>)) = 7"
  using timespec_roundtrip [of "\<lparr>ts_sec = 7, ts_nsec = 999999999\<rparr>" 0] by simp

text \<open>
  The same for timeval: \<open>BWLTimevalToNum64\<close> and \<open>BWLNum64ToTimeval\<close> keep the seconds,
  lose at most one microsecond in one direction and fewer than 4296 fraction units in the other.
\<close>

lemma timeval_roundtrip:
  fixes t :: timeval and x :: BWLNum64
  assumes "0 \<le> tvl_sec t" "tvl_sec t < 2 ^ 32" "0 \<le> tvl_usec t" "tvl_usec t < 1000000"
  defines "t' \<equiv> BWLNum64ToTimeval (BWLTimevalToNum64 t)"
    and "x' \<equiv> BWLTimevalToNum64 (BWLNum64ToTimeval x)"
  shows "tvl_sec t' = tvl_sec t \<and> tvl_usec t - 1 \<le> tvl_usec t' \<and> tvl_usec t' \<le> tvl_usec t \<and>
    unat x' \<le> unat x \<and> unat x \<le> unat x' + 4295"
proof -
  let ?n = "nat (tvl_usec t)"
  have f: "micro.frac_of ?n < 2 ^ 32"
    using assms by (intro micro.frac_of_less) (simp add: MILLION_def nat_less_iff)
  have u: "unat (BWLTimevalToNum64 t) = nat (tvl_sec t) * 2 ^ 32 + micro.frac_of ?n"
    using assms by (intro BWLTimevalToNum64_eq) (simp_all add: MILLION_def)
  have t': "t' = \<lparr>tvl_sec = tvl_sec t, tvl_usec = int (micro.units_of (micro.frac_of ?n))\<rparr>"
    using f assms(1) by (simp add: t'_def BWLNum64ToTimeval_eq u)
  let ?s = "unat x div 2 ^ 32" and ?f = "unat x mod 2 ^ 32"
  have s: "?s < 2 ^ 32" using u64_bound [of x] by (simp add: less_mult_imp_div_less)
  have "micro.units_of ?f < MILLION" by (rule micro.units_of_less) simp
  then have x': "unat x' = ?s * 2 ^ 32 + micro.frac_of (micro.units_of ?f)"
    using s by (simp add: x'_def BWLNum64ToTimeval_eq BWLTimevalToNum64_eq nat_less_iff)
  have x: "unat x = ?s * 2 ^ 32 + ?f" by simp
  have "?f \<le> micro.frac_of (micro.units_of ?f) + 4295"
    using micro.frac_units_close [of ?f] by (simp add: MILLION_def)
  then have "unat x' \<le> unat x \<and> unat x \<le> unat x' + 4295"
    using x x' micro.frac_units_le [of ?f] by linarith
  moreover have "tvl_usec t = int ?n" using assms(3) by simp
  then have "tvl_usec t - 1 \<le> tvl_usec t' \<and> tvl_usec t' \<le> tvl_usec t"
    using micro.units_frac_le [of ?n] micro.units_frac_close [of ?n]
    unfolding t' timeval.select_convs by linarith
  ultimately show ?thesis by (simp add: t')
qed

lemma timeval_roundtrip_example:
  "tvl_sec (BWLNum64ToTimeval (BWLTimevalToNum64 \<lparr>tvl_sec = 7, tvl_usec = 999999\<rparr>)) = 7"
  using timeval_roundtrip [of "\<lparr>tvl_sec = 7, tvl_usec = 999999\<rparr>" 0] by simp

end
