(* ===== verification/Timestamp.thy ===== *)
theory Timestamp
  imports Arith64
begin

text \<open>
  Absolute timestamps, \<open>bwlib/time.c\<close>: the \<open>BWLTimeStamp\<close> record of \<open>bwlib/bwlib.h\<close>, its wire
  format (8 bytes of time, 2 bytes of error estimate), the floating error estimate
  (multiplier and scale), the conversions between the NTP epoch and the Unix epoch, and the
  clock reading \<open>_BWLGetTimespec\<close> with its static state. The system calls
  \<open>gettimeofday\<close> and \<open>ntp_adjtime\<close> are inputs of the model.
\<close>

record BWLTimeStamp =
  tstamp :: BWLNum64
  sync :: u8
  multiplier :: u8
  scale :: u8

definition BWLJAN_1970 :: nat where "BWLJAN_1970 = 0x83aa7e80"

section \<open>Wire format\<close>

definition BWLEncodeTimeStamp :: "BWLTimeStamp \<Rightarrow> u8 list" where
  "BWLEncodeTimeStamp ts =
     be_bytes 4 (unat (ucast (drop_bit 32 (tstamp ts) AND 0xFFFFFFFF) :: u32)) @
     be_bytes 4 (unat (ucast (tstamp ts AND 0xFFFFFFFF) :: u32))"

definition BWLEncodeTimeStampErrEstimate :: "BWLTimeStamp \<Rightarrow> u8 list option" where
  "BWLEncodeTimeStampErrEstimate ts =
     (if multiplier ts = 0 then None
      else let b0 = scale ts AND 0x3F
           in Some [if sync ts \<noteq> 0 then b0 OR 0x80 else b0, multiplier ts])"

definition BWLDecodeTimeStamp :: "BWLTimeStamp \<Rightarrow> u8 list \<Rightarrow> BWLTimeStamp" where
  "BWLDecodeTimeStamp ts buf =
     (let hi = of_nat (be_nat (slice 0 4 buf)) :: u32;
          lo = of_nat (be_nat (slice 4 4 buf)) :: u32
      in ts\<lparr>tstamp := push_bit 32 (ucast hi) OR (ucast lo AND 0xFFFFFFFF)\<rparr>)"

definition BWLDecodeTimeStampErrEstimate :: "BWLTimeStamp \<Rightarrow> u8 list \<Rightarrow> BWLTimeStamp \<times> bool" where
  "BWLDecodeTimeStampErrEstimate ts buf =
     (let b1 = buf ! 1; b0 = (if b1 = 0 then 0 else buf ! 0);
          ts' = ts\<lparr>sync := (if b0 AND 0x80 \<noteq> 0 then 1 else 0),
                   scale := b0 AND 0x3F, multiplier := b1\<rparr>
      in (ts', multiplier ts' \<noteq> 0))"

section \<open>The error estimate\<close>

function shift_err :: "u64 \<Rightarrow> u8 \<Rightarrow> u64 \<times> u8" where
  "shift_err err sc = (if 0xFF \<le> unat err then shift_err (drop_bit 1 err) (sc + 1) else (err, sc))"
  by pat_completeness auto
termination
  by (relation "measure (\<lambda>(err, sc). unat err)") (auto simp: drop_bit_eq_div unat_div)

declare shift_err.simps [simp del]

definition BWLSetTimeStampError :: "BWLTimeStamp \<Rightarrow> BWLNum64 \<Rightarrow> BWLTimeStamp" where
  "BWLSetTimeStampError ts val =
     (let (err, sc) = shift_err (val AND 0xFFFFFFFFFFFFFFFF) 0
      in ts\<lparr>scale := sc, multiplier := ucast (0xFF AND (err + 1))\<rparr>)"

fun unshift_err :: "nat \<Rightarrow> u64 \<Rightarrow> u64" where
  "unshift_err 0 err = err"
| "unshift_err (Suc n) err = unshift_err n (push_bit 1 err)"

definition BWLGetTimeStampError :: "BWLTimeStamp \<Rightarrow> BWLNum64" where
  "BWLGetTimeStampError ts =
     unshift_err (unat (scale ts AND 0x3F)) (ucast (multiplier ts) AND 0xFF)"

section \<open>Epochs\<close>

definition BWLTimevalToTimeStamp :: "BWLTimeStamp \<Rightarrow> timeval \<Rightarrow> BWLTimeStamp" where
  "BWLTimevalToTimeStamp ts tval =
     ts\<lparr>tstamp := BWLNum64Add (BWLTimevalToNum64 tval) (BWLULongToNum64 (of_nat BWLJAN_1970))\<rparr>"

definition BWLTimeStampToTimeval :: "BWLTimeStamp \<Rightarrow> timeval" where
  "BWLTimeStampToTimeval ts =
     BWLNum64ToTimeval (BWLNum64Sub (tstamp ts) (BWLULongToNum64 (of_nat BWLJAN_1970)))"

definition BWLTimespecToTimeStamp ::
  "BWLTimeStamp \<Rightarrow> timespec \<Rightarrow> u32 option \<Rightarrow> u32 option \<Rightarrow> BWLTimeStamp" where
  "BWLTimespecToTimeStamp ts tval errest last_errest =
     (let ts1 = ts\<lparr>tstamp := BWLNum64Add (BWLTimespecToNum64 tval)
                               (BWLULongToNum64 (of_nat BWLJAN_1970))\<rparr>
      in case errest of
           Some e \<Rightarrow>
             if e \<noteq> 0 then
               (if last_errest = None \<or> last_errest \<noteq> Some e
                then BWLSetTimeStampError ts1 (BWLUsecToNum64 e) else ts1)
             else ts1\<lparr>sync := 0, scale := 0, multiplier := 0\<rparr>
         | None \<Rightarrow> ts1\<lparr>sync := 0, scale := 0, multiplier := 0\<rparr>)"

definition BWLTimeStampToTimespec :: "BWLTimeStamp \<Rightarrow> timespec" where
  "BWLTimeStampToTimespec ts =
     BWLNum64ToTimespec (BWLNum64Sub (tstamp ts) (BWLULongToNum64 (of_nat BWLJAN_1970)))"

definition BWLNum64ToTimestamp :: "BWLNum64 \<Rightarrow> int" where
  "BWLNum64ToTimestamp ts =
     ts_sec (BWLNum64ToTimespec (BWLNum64Sub ts (BWLULongToNum64 (of_nat BWLJAN_1970))))"

definition BWLTimestampToNum64 :: "int \<Rightarrow> BWLNum64" where
  "BWLTimestampToNum64 ts = BWLULongToNum64 (word_of_int (ts + int BWLJAN_1970))"

section \<open>Reading the clock\<close>

text \<open>
  The static variables of \<open>time.c\<close>, and what the two system calls return: \<open>gettimeofday\<close>
  fails or gives a timeval; \<open>ntp_adjtime\<close> fails or gives the status bits the code looks at
  (\<open>STA_UNSYNC\<close>, \<open>STA_NANO\<close>), the offset and the maximum error. The configured \<open>BWLSyncFuzz\<close>
  enters as the number of microseconds the code converts it to.
\<close>

record clock_state =
  timeoffset :: timeval
  sign_timeoffset :: int
  ntpsyscall_fails :: bool
  ntp_unsync :: bool
  check_fuzz :: bool
  syncfuzz :: int

record ntp_conf =
  sta_unsync :: bool
  sta_nano :: bool
  ntp_offset :: int
  ntp_maxerror :: int

definition tvaladd :: "timeval \<Rightarrow> timeval \<Rightarrow> timeval" where
  "tvaladd a b =
     (let s = tvl_sec a + tvl_sec b; u = tvl_usec a + tvl_usec b
      in if u \<ge> 1000000 then \<lparr>tvl_sec = s + 1, tvl_usec = u - 1000000\<rparr>
         else \<lparr>tvl_sec = s, tvl_usec = u\<rparr>)"

definition tvalsub :: "timeval \<Rightarrow> timeval \<Rightarrow> timeval" where
  "tvalsub a b =
     (let s = tvl_sec a - tvl_sec b; u = tvl_usec a - tvl_usec b
      in if u < 0 then \<lparr>tvl_sec = s - 1, tvl_usec = u + 1000000\<rparr>
         else \<lparr>tvl_sec = s, tvl_usec = u\<rparr>)"

text \<open>The loop \<open>while (offset < 0) { tv_sec--; offset += sec; }\<close>.\<close>

function borrow_long :: "nat \<Rightarrow> int \<Rightarrow> int \<Rightarrow> int \<times> int" where
  "borrow_long base sec off =
     (if 0 < base \<and> off < 0 then borrow_long base (sec - 1) (off + int base) else (sec, off))"
  by pat_completeness auto
termination
  by (relation "measure (\<lambda>(base, sec, off). nat (- off))") auto

declare borrow_long.simps [simp del]

definition apply_ntp_offset :: "ntp_conf \<Rightarrow> timespec \<Rightarrow> timespec" where
  "apply_ntp_offset nc ts =
     (let base = (if sta_nano nc then BILLION else MILLION);
          (s1, o1) = borrow_long base (ts_sec ts) (ntp_offset nc);
          (s2, o2) = carry_long base s1 o1;
          o3 = (if sta_nano nc then o2 else o2 * 1000);
          n = ts_nsec ts + o3
      in if n \<ge> 1000000000 then \<lparr>ts_sec = s2 + 1, ts_nsec = n - 1000000000\<rparr>
         else \<lparr>ts_sec = s2, ts_nsec = n\<rparr>)"

text \<open>The NTP section of \<open>_BWLGetTimespec\<close>: new state, time, maximum error, synchronised.\<close>

definition ntp_section ::
  "clock_state \<Rightarrow> ntp_conf option \<Rightarrow> timespec \<Rightarrow> clock_state \<times> timespec \<times> u32 \<times> bool" where
  "ntp_section st adj ts =
     (if ntpsyscall_fails st then (st, ts, 100000, False)
      else case adj of
        None \<Rightarrow> (st\<lparr>ntpsyscall_fails := True\<rparr>, ts, 100000, False)
      | Some nc \<Rightarrow>
          if sta_unsync nc then (st\<lparr>ntp_unsync := True\<rparr>, ts, 100000, False)
          else (st\<lparr>ntp_unsync := False\<rparr>, apply_ntp_offset nc ts, word_of_int (ntp_maxerror nc), True))"

definition fuzz_section :: "clock_state \<Rightarrow> int option \<Rightarrow> clock_state" where
  "fuzz_section st fuzz =
     (if check_fuzz st then st
      else (case fuzz of None \<Rightarrow> st | Some f \<Rightarrow> st\<lparr>syncfuzz := f\<rparr>)\<lparr>check_fuzz := True\<rparr>)"

definition BWLGetTimespec ::
  "clock_state \<Rightarrow> timeval option \<Rightarrow> ntp_conf option \<Rightarrow> int option \<Rightarrow>
   clock_state \<times> (timespec \<times> u32 \<times> bool) option" where
  "BWLGetTimespec st tod adj fuzz =
     (case tod of None \<Rightarrow> (st, None)
      | Some tod0 \<Rightarrow>
        let tv = (if sign_timeoffset st > 0 then tvaladd tod0 (timeoffset st)
                  else if sign_timeoffset st < 0 then tvalsub tod0 (timeoffset st) else tod0);
            (st1, ts1, maxerr, synced) =
              ntp_section st adj \<lparr>ts_sec = tvl_sec tv, ts_nsec = tvl_usec tv * 1000\<rparr>;
            st2 = fuzz_section st1 fuzz;
            e = maxerr + word_of_int (syncfuzz st2)
        in (st2, Some (ts1, if e = 0 then 1 else e, synced)))"

definition BWLGetTimeStamp ::
  "clock_state \<Rightarrow> timeval option \<Rightarrow> ntp_conf option \<Rightarrow> int option \<Rightarrow>
   clock_state \<times> BWLTimeStamp option" where
  "BWLGetTimeStamp st tod adj fuzz =
     (case BWLGetTimespec st tod adj fuzz of
        (st', None) \<Rightarrow> (st', None)
      | (st', Some (ts, errest, synced)) \<Rightarrow>
          (st', Some (BWLTimespecToTimeStamp
             \<lparr>tstamp = 0, sync = (if synced then 1 else 0), multiplier = 0, scale = 0\<rparr>
             ts (Some errest) None)))"

definition BWLNTPIsSynchronized ::
  "clock_state \<Rightarrow> timeval option \<Rightarrow> ntp_conf option \<Rightarrow> int option \<Rightarrow> clock_state \<times> bool" where
  "BWLNTPIsSynchronized st tod adj fuzz =
     (case BWLGetTimeStamp st tod adj fuzz of
        (st', None) \<Rightarrow> (st', False)
      | (st', Some ts) \<Rightarrow> (st', sync ts \<noteq> 0))"


section \<open>Wire format round trip\<close>

lemma MASK32_alt: "x AND 0xFFFFFFFF = MASK32 x"
  by (simp add: MASK32_def)

lemma unat_ucast_low: "unat (ucast (w :: u64) :: u32) = unat w mod 2 ^ 32"
  by (simp add: unsigned_ucast_eq take_bit_eq_mod)

lemma join_low_high:
  fixes x :: u64
  shows "push_bit 32 (ucast (of_nat (unat x div 2 ^ 32) :: u32)) OR
           MASK32 (ucast (of_nat (unat x mod 2 ^ 32) :: u32)) = x"
proof -
  let ?hi = "ucast (of_nat (unat x div 2 ^ 32) :: u32) :: u64"
  let ?lo = "MASK32 (ucast (of_nat (unat x mod 2 ^ 32) :: u32)) :: u64"
  have d: "unat x div 2 ^ 32 < 2 ^ 32"
    using u64_bound [of x] by (simp add: less_mult_imp_div_less)
  have hi: "unat ?hi = unat x div 2 ^ 32"
    using d by (simp add: unat_ucast32 unat_of_nat)
  have lo: "unat ?lo = unat x mod 2 ^ 32"
    by (simp add: unat_MASK32 unat_ucast32 unat_of_nat)
  have "unat (push_bit 32 ?hi OR ?lo) = unat ?hi * 2 ^ 32 + unat ?lo"
    using d by (intro unat_join_halves) (simp_all only: hi lo, simp)
  also have "\<dots> = unat x" by (simp only: hi lo div_mult_mod_eq)
  finally show ?thesis by (simp only: word_unat_eq_iff)
qed

lemma BWLDecodeTimeStamp_tstamp:
  assumes "slice 0 4 buf = be_bytes 4 (unat x div 2 ^ 32)"
    and "slice 4 4 buf = be_bytes 4 (unat x mod 2 ^ 32)"
  shows "BWLDecodeTimeStamp ts buf = ts\<lparr>tstamp := x\<rparr>"
proof -
  have d: "unat x div 2 ^ 32 < 2 ^ 32"
    using u64_bound [of x] by (simp add: less_mult_imp_div_less)
  then have "be_nat (slice 0 4 buf) = unat x div 2 ^ 32"
    by (simp add: assms(1) be_nat_be_bytes)
  moreover have "be_nat (slice 4 4 buf) = unat x mod 2 ^ 32"
    by (simp add: assms(2) be_nat_be_bytes)
  ultimately show ?thesis
    by (simp only: BWLDecodeTimeStamp_def Let_def MASK32_alt join_low_high)
qed

lemma BWLEncodeTimeStamp_eq:
  "BWLEncodeTimeStamp ts =
     be_bytes 4 (unat (tstamp ts) div 2 ^ 32) @ be_bytes 4 (unat (tstamp ts) mod 2 ^ 32)"
proof -
  have "unat (tstamp ts) div 2 ^ 32 mod 2 ^ 32 = unat (tstamp ts) div 2 ^ 32"
    using u64_bound [of "tstamp ts"] by (simp add: less_mult_imp_div_less)
  then show ?thesis
    by (simp only: BWLEncodeTimeStamp_def MASK32_alt unat_ucast_low unat_MASK32 unat_drop_bit32
        mod_mod_trivial)
qed

lemma length_BWLEncodeTimeStamp [simp]: "length (BWLEncodeTimeStamp ts) = 8"
  by (simp add: BWLEncodeTimeStamp_def)

lemma BWLDecode_Encode [simp]:
  "BWLDecodeTimeStamp t0 (BWLEncodeTimeStamp ts) = t0\<lparr>tstamp := tstamp ts\<rparr>"
  by (rule BWLDecodeTimeStamp_tstamp) (simp_all add: BWLEncodeTimeStamp_eq slice_def)

lemma length_ErrEstimate: "BWLEncodeTimeStampErrEstimate ts = Some bs \<Longrightarrow> length bs = 2"
  by (auto simp: BWLEncodeTimeStampErrEstimate_def Let_def split: if_splits)

lemma low6: "unat (s :: u8) < 64 \<Longrightarrow> s AND 0x3F = s"
proof -
  assume "unat s < 64"
  moreover have "s AND 0x3F = take_bit 6 s"
    by (simp add: take_bit_eq_mask mask_eq_exp_minus_1)
  ultimately show ?thesis
    by (simp add: take_bit_eq_mod word_unat_eq_iff unat_mod)
qed

lemma err_byte_bits:
  "((s AND 0x3F) OR 0x80) AND 0x80 \<noteq> (0 :: u8)" "((s AND 0x3F) OR 0x80) AND 0x3F = (s AND 0x3F :: u8)"
  "(s AND 0x3F) AND 0x80 = (0 :: u8)" "(s AND 0x3F) AND 0x3F = (s AND 0x3F :: u8)"
proof -
  have m: "(0x3F :: u8) = mask 6" by (simp add: mask_eq_exp_minus_1)
  have h: "(0x80 :: u8) = push_bit 7 1" by (simp add: push_bit_eq_mult)
  have "bit (((s AND mask 6) OR push_bit 7 1) AND push_bit 7 1 :: u8) 7"
    by (simp add: bit_simps)
  then show "((s AND 0x3F) OR 0x80) AND 0x80 \<noteq> (0 :: u8)"
    unfolding m h by (metis bit_0_eq bot_apply bot_bool_def)
  have b7: "bit (0x80 :: u8) n = (n = 7)" for n
    unfolding h by (auto simp only: bit_push_bit_iff bit_1_iff) simp
  show "((s AND 0x3F) OR 0x80) AND 0x3F = (s AND 0x3F :: u8)"
    by (rule bit_word_eqI) (auto simp only: m bit_and_iff bit_or_iff bit_mask_iff b7)
  show "(s AND 0x3F) AND 0x80 = (0 :: u8)"
    by (rule bit_word_eqI) (auto simp only: m bit_and_iff bit_mask_iff b7 bit_0_eq bot_apply bot_bool_def)
  show "(s AND 0x3F) AND 0x3F = (s AND 0x3F :: u8)"
    by (simp add: and.assoc)
qed

lemma decode_encode_err:
  assumes "multiplier ts \<noteq> 0"
  shows "BWLEncodeTimeStampErrEstimate ts = Some bs \<Longrightarrow>
    BWLDecodeTimeStampErrEstimate t0 bs =
      (t0\<lparr>sync := (if sync ts \<noteq> 0 then 1 else 0), scale := scale ts AND 0x3F,
          multiplier := multiplier ts\<rparr>, True)"
  using assms
  by (auto simp: BWLEncodeTimeStampErrEstimate_def BWLDecodeTimeStampErrEstimate_def Let_def
      err_byte_bits)

lemma timestamp_wire:
  assumes "multiplier ts \<noteq> 0" and "unat (scale ts) < 64" and "sync ts \<in> {0, 1}"
  shows "\<exists>bs. BWLEncodeTimeStampErrEstimate ts = Some bs \<and> length bs = 2 \<and>
    BWLDecodeTimeStampErrEstimate (BWLDecodeTimeStamp t0 (BWLEncodeTimeStamp ts)) bs = (ts, True)"
proof -
  obtain bs where bs: "BWLEncodeTimeStampErrEstimate ts = Some bs"
    using assms(1) by (auto simp: BWLEncodeTimeStampErrEstimate_def Let_def)
  show ?thesis
    using assms bs decode_encode_err [OF assms(1) bs] length_ErrEstimate [OF bs]
    by (auto simp: low6)
qed

text \<open>
  C14. A timestamp written by \<open>_BWLEncodeTimeStamp\<close> and \<open>_BWLEncodeTimeStampErrEstimate\<close> is read
  back by \<open>_BWLDecodeTimeStamp\<close> and \<open>_BWLDecodeTimeStampErrEstimate\<close> unchanged, provided the
  error estimate is valid (non-zero multiplier, 6-bit scale) and the sync flag is 0 or 1.
\<close>

theorem timestamp_wire_roundtrip:
  assumes "multiplier ts \<noteq> 0" and "unat (scale ts) < 64" and "sync ts \<in> {0, 1}"
  shows "\<exists>bs. BWLEncodeTimeStampErrEstimate ts = Some bs \<and> length bs = 2 \<and>
    BWLDecodeTimeStampErrEstimate (BWLDecodeTimeStamp t0 (BWLEncodeTimeStamp ts)) bs = (ts, True)"
  by (rule timestamp_wire [OF assms])

theorem timestamp_wire_roundtrip_witness:
  "\<exists>bs. BWLEncodeTimeStampErrEstimate \<lparr>tstamp = 0x83aa7e8180000000, sync = 1, multiplier = 200, scale = 21\<rparr>
     = Some bs \<and> length bs = 2"
  using timestamp_wire_roundtrip
    [of "\<lparr>tstamp = 0x83aa7e8180000000, sync = 1, multiplier = 200, scale = 21\<rparr>" undefined]
  by auto


section \<open>The error estimate is conservative\<close>

lemma shift_err_spec:
  assumes "shift_err err sc = (e, sc')"
  shows "\<exists>k. sc' = sc + of_nat k \<and> unat e = unat err div 2 ^ k \<and> unat e < 255 \<and>
    (0 < k \<longrightarrow> 255 \<le> unat err div 2 ^ (k - 1))"
  using assms
proof (induction err sc arbitrary: e sc' rule: shift_err.induct)
  case (1 err sc)
  show ?case
  proof (cases "255 \<le> unat err")
    case True
    have h: "unat (drop_bit 1 err) = unat err div 2"
      by (simp add: drop_bit_eq_div unat_div)
    have "shift_err (drop_bit 1 err) (sc + 1) = (e, sc')"
      using True "1.prems" by (subst (asm) shift_err.simps) simp
    then obtain k where k: "sc' = sc + 1 + of_nat k" "unat e = unat err div 2 div 2 ^ k"
      "unat e < 255" "0 < k \<longrightarrow> 255 \<le> unat err div 2 div 2 ^ (k - 1)"
      using "1.IH" True h by (metis (full_types))
    have "unat e = unat err div 2 ^ Suc k"
      using k(2) by (simp add: div_mult2_eq)
    moreover have "255 \<le> unat err div 2 ^ k"
      using k(4) True by (cases k) (auto simp: div_mult2_eq)
    ultimately show ?thesis
      using k by (intro exI [of _ "Suc k"]) simp
  next
    case False
    then have "e = err" "sc' = sc"
      using "1.prems" by (simp_all add: shift_err.simps [of err sc])
    then show ?thesis using False by (intro exI [of _ 0]) simp
  qed
qed

lemma unshift_err_eq: "unshift_err n e = push_bit n e"
  by (induction n arbitrary: e) simp_all

lemma and_full64: "val AND 0xFFFFFFFFFFFFFFFF = (val :: u64)"
proof -
  have "(0xFFFFFFFFFFFFFFFF :: u64) = - 1" by simp
  then show ?thesis by (simp only: and.right_neutral)
qed

lemma set_error_spec:
  assumes "unat val < 255 * 2 ^ 56"
  shows "\<exists>k. k \<le> 56 \<and> scale (BWLSetTimeStampError ts val) = of_nat k \<and>
    unat (multiplier (BWLSetTimeStampError ts val)) = unat val div 2 ^ k + 1 \<and>
    unat val div 2 ^ k < 255 \<and> (0 < k \<longrightarrow> 127 \<le> unat val div 2 ^ k) \<and>
    tstamp (BWLSetTimeStampError ts val) = tstamp ts \<and> sync (BWLSetTimeStampError ts val) = sync ts"
proof -
  obtain e sc where es: "shift_err val 0 = (e, sc)" by fastforce
  obtain k where k: "sc = 0 + of_nat k" "unat e = unat val div 2 ^ k" "unat e < 255"
    "0 < k \<longrightarrow> 255 \<le> unat val div 2 ^ (k - 1)"
    using shift_err_spec [OF es] by blast
  have "k \<le> 56"
  proof (rule ccontr)
    assume "\<not> k \<le> 56"
    then have "(2 :: nat) ^ 56 \<le> 2 ^ (k - 1)" by (intro power_increasing) simp_all
    then have "unat val div 2 ^ (k - 1) \<le> unat val div 2 ^ 56"
      by (intro div_le_mono2) simp_all
    moreover have "unat val div 2 ^ 56 < 255"
      using assms by (simp add: less_mult_imp_div_less)
    ultimately show False using k(4) \<open>\<not> k \<le> 56\<close> by simp
  qed
  moreover have "127 \<le> unat val div 2 ^ k" if "0 < k"
  proof -
    have "unat val div 2 ^ k = unat val div 2 ^ (k - 1) div 2"
      using that by (cases k) (simp_all add: div_mult2_eq [symmetric] mult.commute)
    then show ?thesis using k(4) that by simp
  qed
  moreover have "unat (ucast (0xFF AND (e + 1)) :: u8) = unat e + 1"
  proof -
    have e1: "unat (e + 1) = unat e + 1" using k(3) by (simp add: unat_plus_noov)
    have "0xFF AND (e + 1) = take_bit 8 (e + 1)"
      by (simp add: take_bit_eq_mask mask_eq_exp_minus_1 and.commute)
    then show ?thesis
      using k(3) e1 by (simp add: unsigned_ucast_eq take_bit_eq_mod unat_mod)
  qed
  ultimately show ?thesis
    using k es by (intro exI [of _ k]) (simp add: BWLSetTimeStampError_def and_full64)
qed

lemma unat_push_bit_noov:
  assumes "unat (w :: u64) * 2 ^ k < 2 ^ 64"
  shows "unat (push_bit k w) = unat w * 2 ^ k"
proof -
  have "push_bit k w = of_nat (unat w * 2 ^ k)" by (simp add: push_bit_eq_mult)
  then show ?thesis using assms by (simp only: unat_of_nat) simp
qed

lemma get_error_spec:
  assumes "k \<le> 56" and "scale ts = of_nat k" and "unat (multiplier ts) = m" and "m < 256"
  shows "unat (BWLGetTimeStampError ts) = m * 2 ^ k"
proof -
  have k: "unat (scale ts) = k" using assms by (simp add: unat_of_nat)
  have s: "unat (scale ts AND 0x3F) = k" using k assms(1) by (simp add: low6)
  have "ucast (multiplier ts) AND 0xFF = (ucast (multiplier ts) :: u64)"
  proof -
    have "(0xFF :: u64) = mask 8" by (simp add: mask_eq_exp_minus_1)
    then show ?thesis
      using unat_u8_bound [of "multiplier ts"]
      by (simp only: take_bit_eq_mask [symmetric])
        (simp add: word_unat_eq_iff take_bit_eq_mod unat_mod unsigned_ucast_eq)
  qed
  moreover have "unat (ucast (multiplier ts) :: u64) = m"
    using assms by (simp add: unsigned_ucast_eq take_bit_nat_eq_self)
  moreover have "m * 2 ^ k < 2 ^ 64"
  proof -
    have "m * 2 ^ k \<le> m * 2 ^ 56" using assms(1) by (intro mult_le_mono power_increasing) simp_all
    moreover have "m * 2 ^ 56 < 256 * 2 ^ 56" using assms(4) by simp
    moreover have "(256 :: nat) * 2 ^ 56 = 2 ^ 64" by simp
    ultimately show ?thesis by linarith
  qed
  ultimately show ?thesis
    by (simp add: BWLGetTimeStampError_def s unshift_err_eq unat_push_bit_noov)
qed

text \<open>
  C13. \<open>BWLSetTimeStampError\<close> never understates an error: what \<open>BWLGetTimeStampError\<close> reads back
  is strictly above the value stored and exceeds it by at most one part in 127 plus one unit.
  The multiplier is non-zero (so the estimate can be sent) and the scale fits its six bits.
  The bound on the value excludes only errors above \<open>255 * 2 ^ 56\<close> units (over 500 years),
  where the shift back overflows 64 bits.
\<close>

theorem error_estimate_conservative:
  fixes ts :: BWLTimeStamp
  assumes "unat val < 255 * 2 ^ 56"
  defines "ts' \<equiv> BWLSetTimeStampError ts val"
  shows "multiplier ts' \<noteq> 0 \<and> unat (scale ts') < 64 \<and> tstamp ts' = tstamp ts \<and> sync ts' = sync ts \<and>
    unat val < unat (BWLGetTimeStampError ts') \<and>
    unat (BWLGetTimeStampError ts') \<le> unat val + unat val div 127 + 1"
proof -
  obtain k where k: "k \<le> 56" "scale ts' = of_nat k" "unat (multiplier ts') = unat val div 2 ^ k + 1"
    "unat val div 2 ^ k < 255" "0 < k \<Longrightarrow> 127 \<le> unat val div 2 ^ k"
    "tstamp ts' = tstamp ts" "sync ts' = sync ts"
    using set_error_spec [OF assms(1), of ts] unfolding ts'_def by blast
  let ?e = "unat val div 2 ^ k"
  have g: "unat (BWLGetTimeStampError ts') = (?e + 1) * 2 ^ k"
    using get_error_spec [OF k(1,2,3)] k(4) by simp
  have "unat val < ?e * 2 ^ k + 2 ^ k" by (rule less_div_times_plus) simp
  moreover have "?e * 2 ^ k \<le> unat val" by simp
  moreover have "2 ^ k \<le> unat val div 127 + 1"
  proof (cases "k = 0")
    case False
    then have "127 * 2 ^ k \<le> ?e * 2 ^ k" using k(5) by simp
    then have "127 * 2 ^ k \<le> unat val" using \<open>?e * 2 ^ k \<le> unat val\<close> by linarith
    then show ?thesis by (simp add: less_eq_div_iff_mult_less_eq mult.commute trans_le_add1)
  qed simp
  moreover have "multiplier ts' \<noteq> 0" using k(3) by force
  moreover have "unat (scale ts') < 64" using k(1,2) by (simp add: unat_of_nat)
  ultimately show ?thesis using g k(6,7) unfolding add_mult_distrib by linarith
qed

theorem error_estimate_conservative_witness:
  "unat (100000 :: BWLNum64) < unat (BWLGetTimeStampError (BWLSetTimeStampError
     \<lparr>tstamp = 0, sync = 1, multiplier = 0, scale = 0\<rparr> 100000))"
  using error_estimate_conservative [of 100000 "\<lparr>tstamp = 0, sync = 1, multiplier = 0, scale = 0\<rparr>"]
  by simp


section \<open>Epoch conversions\<close>

lemma unat_JAN: "unat (of_nat BWLJAN_1970 :: u32) = BWLJAN_1970"
  by (simp add: BWLJAN_1970_def)

lemma JAN_less: "BWLJAN_1970 < 2 ^ 32"
  by (simp add: BWLJAN_1970_def)

lemma BWLNum64ToTimestamp_eq:
  assumes "BWLJAN_1970 * 2 ^ 32 \<le> unat x"
  shows "BWLNum64ToTimestamp x = int (unat x div 2 ^ 32) - int BWLJAN_1970"
proof -
  have "unat (BWLNum64Sub x (BWLULongToNum64 (of_nat BWLJAN_1970))) = unat x - BWLJAN_1970 * 2 ^ 32"
    using assms by (simp add: BWLNum64Sub_def unat_minus_noov unat_BWLULongToNum64 unat_JAN)
  moreover have "(unat x - BWLJAN_1970 * 2 ^ 32) div 2 ^ 32 = unat x div 2 ^ 32 - BWLJAN_1970"
  proof -
    obtain r where "unat x = BWLJAN_1970 * 2 ^ 32 + r" using assms le_Suc_ex by blast
    then show ?thesis by simp
  qed
  moreover have "BWLJAN_1970 \<le> unat x div 2 ^ 32"
    using assms by (simp add: less_eq_div_iff_mult_less_eq)
  ultimately show ?thesis
    by (simp add: BWLNum64ToTimestamp_def BWLNum64ToTimespec_eq of_nat_diff)
qed

lemma unat_BWLTimestampToNum64:
  assumes "0 \<le> t" and "t + int BWLJAN_1970 < 2 ^ 32"
  shows "unat (BWLTimestampToNum64 t) = nat (t + int BWLJAN_1970) * 2 ^ 32"
  using assms by (simp only: BWLTimestampToNum64_def unat_BWLULongToNum64)
    (subst unat_word_of_int32, simp_all)

text \<open>
  The scheduler moves between second-granular Unix time and \<open>BWLNum64\<close>. Until the NTP era
  ends (a time plus the epoch difference below \<open>2 ^ 32\<close>), \<open>BWLNum64ToTimestamp\<close> inverts
  \<open>BWLTimestampToNum64\<close>, and it rounds any later instant of that second down to the second.
\<close>

lemma timestamp_second_roundtrip:
  assumes "0 \<le> t" and "t + int BWLJAN_1970 < 2 ^ 32" and "f < 2 ^ 32"
  shows "BWLNum64ToTimestamp (BWLTimestampToNum64 t + of_nat f) = t"
proof -
  let ?s = "nat (t + int BWLJAN_1970)"
  have s: "BWLJAN_1970 \<le> ?s" "?s < 2 ^ 32" using assms by auto
  have f: "unat (of_nat f :: u64) = f" using assms(3) by (simp add: unat_of_nat)
  have "?s * 2 ^ 32 + f < 2 ^ 64"
    using s(2) assms(3) by simp
  then have u: "unat (BWLTimestampToNum64 t + of_nat f) = ?s * 2 ^ 32 + f"
    using assms f by (simp add: unat_plus_noov unat_BWLTimestampToNum64)
  then have "BWLNum64ToTimestamp (BWLTimestampToNum64 t + of_nat f) = int ?s - int BWLJAN_1970"
    using s assms(3) by (subst BWLNum64ToTimestamp_eq) simp_all
  then show ?thesis using assms(1) by simp
qed

lemma timestamp_second_roundtrip_example:
  "BWLNum64ToTimestamp (BWLTimestampToNum64 1700000000 + of_nat 5) = 1700000000"
  using timestamp_second_roundtrip [of 1700000000 5] by (simp add: BWLJAN_1970_def)

section \<open>The clock always yields a usable timestamp\<close>

lemma borrow_long_eq:
  "0 < base \<Longrightarrow> off < int base \<Longrightarrow> \<exists>k. borrow_long base sec off = (sec - int k, off + int k * int base)
     \<and> 0 \<le> off + int k * int base \<and> off + int k * int base < int base"
proof (induction base sec off rule: borrow_long.induct)
  case (1 base sec off)
  show ?case
  proof (cases "off < 0")
    case True
    then obtain k where "borrow_long base (sec - 1) (off + int base) =
        (sec - 1 - int k, off + int base + int k * int base)"
      "0 \<le> off + int base + int k * int base" "off + int base + int k * int base < int base"
      using "1.IH" "1.prems" by auto
    then show ?thesis
      using True "1.prems"
      by (intro exI [of _ "Suc k"]) (simp add: borrow_long.simps [of base sec off] algebra_simps)
  next
    case False
    then show ?thesis
      using "1.prems" by (intro exI [of _ 0]) (simp add: borrow_long.simps [of base sec off])
  qed
qed


lemma apply_ntp_offset_normalised:
  assumes "0 \<le> ts_nsec ts" and "ts_nsec ts < 1000000000"
  shows "0 \<le> ts_nsec (apply_ntp_offset nc ts) \<and> ts_nsec (apply_ntp_offset nc ts) < 1000000000"
proof -
  define base where "base = (if sta_nano nc then BILLION else MILLION)"
  have b: "0 < base" "int base = (if sta_nano nc then 1000000000 else 1000000)"
    by (simp_all add: base_def BILLION_def MILLION_def)
  obtain s1 o1 where 1: "borrow_long base (ts_sec ts) (ntp_offset nc) = (s1, o1)" by fastforce
  have o1: "0 \<le> o1"
  proof (cases "ntp_offset nc < int base")
    case True
    then show ?thesis using borrow_long_eq [OF b(1) True, of "ts_sec ts"] 1 by auto
  next
    case False
    then show ?thesis using 1 b by (simp add: borrow_long.simps [of base "ts_sec ts" "ntp_offset nc"])
  qed
  obtain s2 o2 where 2: "carry_long base s1 o1 = (s2, o2)" by fastforce
  have "o2 = o1 mod int base" using 2 o1 b(1) by (simp add: carry_long_eq)
  then have "0 \<le> o2 \<and> o2 < int base" using b(1) by simp
  then show ?thesis
    using assms 1 2 b(2)
    by (auto simp: apply_ntp_offset_def Let_def base_def [symmetric] split: if_splits)
qed

lemma BWLUsecToNum64_bound: "unat (BWLUsecToNum64 e) < 2 ^ 45"
proof -
  have "unat e * 2 ^ 32 < 2 ^ 45 * 1000000" using u32_bound [of e] by simp
  then have "unat e * 2 ^ 32 div 1000000 < 2 ^ 45" by (rule less_mult_imp_div_less)
  then show ?thesis
    by (simp add: BWLUsecToNum64_def unat_div unat_shifted_seconds MILLION_def)
qed

lemma ntp_section_synced:
  "\<exists>st' t m. ntp_section st adj ts =
     (st', t, m, \<not> ntpsyscall_fails st \<and> (\<exists>nc. adj = Some nc \<and> \<not> sta_unsync nc))"
  by (cases adj) (auto simp: ntp_section_def)

lemma BWLGetTimespec_result:
  "\<exists>st' t e. BWLGetTimespec st (Some tod) adj fuzz =
     (st', Some (t, e, \<not> ntpsyscall_fails st \<and> (\<exists>nc. adj = Some nc \<and> \<not> sta_unsync nc))) \<and> e \<noteq> 0"
proof -
  let ?tv = "if sign_timeoffset st > 0 then tvaladd tod (timeoffset st)
             else if sign_timeoffset st < 0 then tvalsub tod (timeoffset st) else tod"
  obtain st1 t m where n: "ntp_section st adj \<lparr>ts_sec = tvl_sec ?tv, ts_nsec = tvl_usec ?tv * 1000\<rparr> =
      (st1, t, m, \<not> ntpsyscall_fails st \<and> (\<exists>nc. adj = Some nc \<and> \<not> sta_unsync nc))"
    using ntp_section_synced by blast
  show ?thesis by (simp only: BWLGetTimespec_def option.case Let_def n prod.case) simp
qed

text \<open>
  C15. Whatever \<open>ntp_adjtime\<close> answers, a successful \<open>gettimeofday\<close> makes \<open>BWLGetTimeStamp\<close>
  return a timestamp whose error estimate is valid for the wire: non-zero multiplier, six-bit
  scale, and the sync flag set only if the kernel reports a synchronised clock and the system
  call has not failed before. Without \<open>gettimeofday\<close> there is no timestamp.
\<close>

theorem BWLGetTimeStamp_usable:
  "snd (BWLGetTimeStamp st None adj fuzz) = None \<and>
   (\<exists>ts. snd (BWLGetTimeStamp st (Some tod) adj fuzz) = Some ts \<and>
      multiplier ts \<noteq> 0 \<and> unat (scale ts) < 64 \<and>
      sync ts = (if \<not> ntpsyscall_fails st \<and> (\<exists>nc. adj = Some nc \<and> \<not> sta_unsync nc) then 1 else 0))"
proof -
  obtain st' t e sy where g: "BWLGetTimespec st (Some tod) adj fuzz = (st', Some (t, e, sy))"
    and e: "e \<noteq> 0"
    and sy: "sy = (\<not> ntpsyscall_fails st \<and> (\<exists>nc. adj = Some nc \<and> \<not> sta_unsync nc))"
    using BWLGetTimespec_result by blast
  let ?v = "BWLUsecToNum64 e"
  have v: "unat ?v < 255 * 2 ^ 56" using BWLUsecToNum64_bound [of e] by simp
  let ?t = "\<lparr>tstamp = BWLNum64Add (BWLTimespecToNum64 t) (BWLULongToNum64 (of_nat BWLJAN_1970)),
    sync = if sy then 1 else 0, multiplier = 0, scale = 0\<rparr>"
  obtain k where k: "k \<le> 56" "scale (BWLSetTimeStampError ?t ?v) = of_nat k"
      "unat (multiplier (BWLSetTimeStampError ?t ?v)) = unat ?v div 2 ^ k + 1"
      "sync (BWLSetTimeStampError ?t ?v) = sync ?t"
    using set_error_spec [OF v, of ?t] by blast
  have m: "multiplier (BWLSetTimeStampError ?t ?v) \<noteq> 0" using k(3) by force
  have s: "unat (scale (BWLSetTimeStampError ?t ?v)) < 64"
    using k(1,2) by (simp add: unat_of_nat)
  have "snd (BWLGetTimeStamp st (Some tod) adj fuzz) = Some (BWLSetTimeStampError ?t ?v)"
    using e by (simp add: BWLGetTimeStamp_def g BWLTimespecToTimeStamp_def)
  moreover have "snd (BWLGetTimeStamp st None adj fuzz) = None"
    by (simp add: BWLGetTimeStamp_def BWLGetTimespec_def)
  ultimately show ?thesis
    using m s k(4) by (simp add: sy)
qed

end
