(* ===== verification/Tools.thy ===== *)
theory Tools
  imports Timestamp "HOL-Library.While_Combinator"
begin

text \<open>
  The measurement tools a daemon can run: the test specification record of \<open>bwlib/bwlib.h\<close>,
  the port ranges of \<open>bwlib/util.c\<close>, the tool definitions of \<open>bwlib/iperf.c\<close>, \<open>iperf3.c\<close>,
  \<open>nuttcp.c\<close>, \<open>thrulay.c\<close>, \<open>ping.c\<close>, \<open>owamp.c\<close>, \<open>traceroute.c\<close>, \<open>tracepath.c\<close>,
  \<open>paris-traceroute.c\<close>, and the dispatch over the tool list in \<open>bwlib/tools.c\<close>. A C function
  pointer of a tool definition is a constructor naming the function; running a tool
  (\<open>fork\<close>/\<open>exec\<close>) is not modelled.
\<close>

section \<open>Test specifications\<close>

datatype sockaddr = AF_INET "u8 list" | AF_INET6 "u8 list" | AF_OTHER

record BWLTestSpec =
  verbose :: u32
  client :: sockaddr
  server :: sockaddr
  req_time :: BWLTimeStamp
  latest_time :: BWLNum64
  server_sends :: u32
  no_server_endpoint :: u32
  duration :: u32
  tool_id :: u32
  udp :: u32
  tos :: u8
  bandwidth :: u64
  window_size :: u32
  len_buffer :: u32
  report_interval :: u16
  mss :: u16
  omit :: u8
  parallel_streams :: u8
  units :: u8
  outformat :: u8
  dynamic_window_size :: u32
  ping_packet_count :: u16
  ping_interpacket_time :: u16
  ping_packet_size :: u16
  ping_packet_ttl :: u8
  traceroute_udp :: u32
  traceroute_packet_size :: u16
  traceroute_first_ttl :: u8
  traceroute_last_ttl :: u8

section \<open>Port ranges\<close>

record BWLPortRange =
  port_i :: u16
  port_low :: u16
  port_high :: u16

definition BWLPortsRange :: "BWLPortRange \<Rightarrow> int" where
  "BWLPortsRange p = uint (port_high p) - uint (port_low p)"

text \<open>
  \<open>BWLPortsSetI\<close> draws a random start when \<open>i\<close> is not strictly inside the range; \<open>rnd\<close> is
  the drawn offset (the C expression \<open>(double)r / 0xffffffff * range\<close> truncated), or \<open>None\<close>
  when no random bytes are available.
\<close>

definition BWLPortsSetI :: "BWLPortRange \<Rightarrow> u16 \<Rightarrow> u16 option \<Rightarrow> BWLPortRange" where
  "BWLPortsSetI p i rnd =
     (if i \<noteq> 0 \<and> i > port_low p \<and> i < port_high p then p\<lparr>port_i := i\<rparr>
      else if (word_of_int (BWLPortsRange p) :: u16) \<noteq> 0
           then (case rnd of Some off \<Rightarrow> p\<lparr>port_i := port_low p + off\<rparr>
                 | None \<Rightarrow> p\<lparr>port_i := port_low p\<rparr>)
           else p\<lparr>port_i := port_low p\<rparr>)"

text \<open>C's remainder truncates towards zero.\<close>

definition c_mod :: "int \<Rightarrow> int \<Rightarrow> int" where
  "c_mod a b = sgn a * (\<bar>a\<bar> mod \<bar>b\<bar>)"

definition BWLPortsNext :: "BWLPortRange \<Rightarrow> u16 \<times> BWLPortRange" where
  "BWLPortsNext p =
     (if BWLPortsRange p = 0 then (port_i p, p)
      else let i0 = port_i p - port_low p;
               i1 = word_of_int (c_mod (uint i0 + 1) (BWLPortsRange p))
           in (port_i p, p\<lparr>port_i := i1 + port_low p\<rparr>))"

section \<open>Tool definitions\<close>

datatype request_params = ThroughputParams | TracerouteParams | PingParams
datatype validate_fun = IperfValidateTest | Iperf3ValidateTest | NuttcpValidateTest
  | TracepathValidateTest | GenericValidateTest
datatype init_fun = GenericInitTest | OwampInitTest | NoInitTest
datatype side_fun = ServerSideData | ClientSideData | SenderSideData

record BWLToolDefinition =
  tool_name :: string
  def_port :: u16
  parse_request :: "request_params option"
  validate_test :: validate_fun
  init_test :: init_fun
  test_types :: u32
  results_side :: "side_fun option"
  supports_server_sends :: bool
  supports_endpointless :: bool
  standard_tester_port :: u16
  parsable_format :: u8

definition BWL_TEST_UNDEFINED :: u32 where "BWL_TEST_UNDEFINED = 0"
definition BWL_TEST_THROUGHPUT :: u32 where "BWL_TEST_THROUGHPUT = 1"
definition BWL_TEST_LATENCY :: u32 where "BWL_TEST_LATENCY = 2"
definition BWL_TEST_TRACEROUTE :: u32 where "BWL_TEST_TRACEROUTE = 4"

definition BWL_TOOL_UNDEFINED :: u32 where "BWL_TOOL_UNDEFINED = 0"
definition BWL_TOOL_IPERF :: u32 where "BWL_TOOL_IPERF = 0x01"
definition BWL_TOOL_NUTTCP :: u32 where "BWL_TOOL_NUTTCP = 0x02"
definition BWL_TOOL_THRULAY :: u32 where "BWL_TOOL_THRULAY = 0x04"
definition BWL_TOOL_IPERF3 :: u32 where "BWL_TOOL_IPERF3 = 0x08"
definition BWL_TOOL_PING :: u32 where "BWL_TOOL_PING = 0x10"
definition BWL_TOOL_TRACEROUTE :: u32 where "BWL_TOOL_TRACEROUTE = 0x20"
definition BWL_TOOL_TRACEPATH :: u32 where "BWL_TOOL_TRACEPATH = 0x40"
definition BWL_TOOL_OWAMP :: u32 where "BWL_TOOL_OWAMP = 0x80"
definition BWL_TOOL_PARIS_TRACEROUTE :: u32 where "BWL_TOOL_PARIS_TRACEROUTE = 0x100"

lemmas test_type_defs =
  BWL_TEST_UNDEFINED_def BWL_TEST_THROUGHPUT_def BWL_TEST_LATENCY_def BWL_TEST_TRACEROUTE_def

lemmas tool_id_defs =
  BWL_TOOL_UNDEFINED_def BWL_TOOL_IPERF_def BWL_TOOL_NUTTCP_def BWL_TOOL_THRULAY_def
  BWL_TOOL_IPERF3_def BWL_TOOL_PING_def BWL_TOOL_TRACEROUTE_def BWL_TOOL_TRACEPATH_def
  BWL_TOOL_OWAMP_def BWL_TOOL_PARIS_TRACEROUTE_def

definition BWLToolIperf :: BWLToolDefinition where
  "BWLToolIperf = \<lparr>tool_name = ''iperf'', def_port = 5001, parse_request = Some ThroughputParams,
     validate_test = IperfValidateTest, init_test = GenericInitTest,
     test_types = BWL_TEST_THROUGHPUT, results_side = Some ServerSideData,
     supports_server_sends = False, supports_endpointless = True,
     standard_tester_port = 5001, parsable_format = 0\<rparr>"

definition BWLToolIperf3 :: BWLToolDefinition where
  "BWLToolIperf3 = \<lparr>tool_name = ''iperf3'', def_port = 5001, parse_request = Some ThroughputParams,
     validate_test = Iperf3ValidateTest, init_test = GenericInitTest,
     test_types = BWL_TEST_THROUGHPUT, results_side = Some ClientSideData,
     supports_server_sends = True, supports_endpointless = True,
     standard_tester_port = 5201, parsable_format = 0x4A\<rparr>"

definition BWLToolNuttcp :: BWLToolDefinition where
  "BWLToolNuttcp = \<lparr>tool_name = ''nuttcp'', def_port = 5001, parse_request = Some ThroughputParams,
     validate_test = NuttcpValidateTest, init_test = GenericInitTest,
     test_types = BWL_TEST_THROUGHPUT, results_side = Some ClientSideData,
     supports_server_sends = True, supports_endpointless = True,
     standard_tester_port = 5001, parsable_format = 0\<rparr>"

text \<open>
  The initialiser of \<open>BWLToolThrulay\<close> has no entry for \<open>kill\<close>, so \<open>BWL_TEST_THROUGHPUT\<close> lands in
  that field and \<open>test_types\<close> and everything after it are zero-initialised.
\<close>

definition BWLToolThrulay :: BWLToolDefinition where
  "BWLToolThrulay = \<lparr>tool_name = ''thrulay'', def_port = 5003, parse_request = Some ThroughputParams,
     validate_test = GenericValidateTest, init_test = GenericInitTest,
     test_types = 0, results_side = None,
     supports_server_sends = False, supports_endpointless = False,
     standard_tester_port = 0, parsable_format = 0\<rparr>"

definition BWLToolPing :: BWLToolDefinition where
  "BWLToolPing = \<lparr>tool_name = ''ping'', def_port = 0, parse_request = Some PingParams,
     validate_test = GenericValidateTest, init_test = NoInitTest,
     test_types = BWL_TEST_LATENCY, results_side = Some SenderSideData,
     supports_server_sends = True, supports_endpointless = True,
     standard_tester_port = 0, parsable_format = 0\<rparr>"

definition BWLToolOwamp :: BWLToolDefinition where
  "BWLToolOwamp = \<lparr>tool_name = ''owamp'', def_port = 4000, parse_request = Some PingParams,
     validate_test = GenericValidateTest, init_test = OwampInitTest,
     test_types = BWL_TEST_LATENCY, results_side = Some ClientSideData,
     supports_server_sends = True, supports_endpointless = True,
     standard_tester_port = 861, parsable_format = 0\<rparr>"

definition BWLToolTraceroute :: BWLToolDefinition where
  "BWLToolTraceroute = \<lparr>tool_name = ''traceroute'', def_port = 0, parse_request = Some TracerouteParams,
     validate_test = GenericValidateTest, init_test = NoInitTest,
     test_types = BWL_TEST_TRACEROUTE, results_side = Some SenderSideData,
     supports_server_sends = True, supports_endpointless = True,
     standard_tester_port = 0, parsable_format = 0\<rparr>"

definition BWLToolTracepath :: BWLToolDefinition where
  "BWLToolTracepath = \<lparr>tool_name = ''tracepath'', def_port = 0, parse_request = Some TracerouteParams,
     validate_test = TracepathValidateTest, init_test = NoInitTest,
     test_types = BWL_TEST_TRACEROUTE, results_side = Some SenderSideData,
     supports_server_sends = True, supports_endpointless = True,
     standard_tester_port = 0, parsable_format = 0\<rparr>"

definition BWLToolParisTraceroute :: BWLToolDefinition where
  "BWLToolParisTraceroute = \<lparr>tool_name = ''paris-traceroute'', def_port = 0,
     parse_request = Some TracerouteParams,
     validate_test = GenericValidateTest, init_test = NoInitTest,
     test_types = BWL_TEST_TRACEROUTE, results_side = Some SenderSideData,
     supports_server_sends = True, supports_endpointless = True,
     standard_tester_port = 0, parsable_format = 0\<rparr>"

definition BWLToolNone :: BWLToolDefinition where
  "BWLToolNone = \<lparr>tool_name = '''', def_port = 0, parse_request = None,
     validate_test = GenericValidateTest, init_test = NoInitTest,
     test_types = 0, results_side = None,
     supports_server_sends = False, supports_endpointless = False,
     standard_tester_port = 0, parsable_format = 0\<rparr>"

lemmas tool_defs = BWLToolIperf_def BWLToolIperf3_def BWLToolNuttcp_def BWLToolThrulay_def
  BWLToolPing_def BWLToolOwamp_def BWLToolTraceroute_def BWLToolTracepath_def
  BWLToolParisTraceroute_def BWLToolNone_def

text \<open>The build options of \<open>configure.ac\<close> decide which of three tools are compiled in.\<close>

record build_config =
  TOOL_IPERF :: bool
  TOOL_NUTTCP :: bool
  TOOL_THRULAY :: bool

definition tool_list_static :: "build_config \<Rightarrow> (u32 \<times> BWLToolDefinition) list" where
  "tool_list_static b =
     [(BWL_TOOL_OWAMP, BWLToolOwamp),
      (BWL_TOOL_TRACEPATH, BWLToolTracepath),
      (BWL_TOOL_TRACEROUTE, BWLToolTraceroute),
      (BWL_TOOL_PARIS_TRACEROUTE, BWLToolParisTraceroute),
      (BWL_TOOL_PING, BWLToolPing),
      (BWL_TOOL_IPERF, if TOOL_IPERF b then BWLToolIperf else BWLToolNone),
      (BWL_TOOL_IPERF3, BWLToolIperf3),
      (BWL_TOOL_NUTTCP, if TOOL_NUTTCP b then BWLToolNuttcp else BWLToolNone),
      (BWL_TOOL_THRULAY, if TOOL_THRULAY b then BWLToolThrulay else BWLToolNone),
      (BWL_TOOL_UNDEFINED, BWLToolNone)]"

section \<open>The context and the dispatch of tools.c\<close>

text \<open>
  The part of \<open>BWLContext\<close> the tools use: the compiled-in list, the availability mask, the
  configured port ranges (keys such as \<open>V.iperf_port\<close>) and the other configured values.
\<close>

record BWLContext =
  tool_list :: "(u32 \<times> BWLToolDefinition) list"
  tool_avail :: u32
  port_ranges :: "string \<rightharpoonup> BWLPortRange"
  config :: "string \<rightharpoonup> string"

definition BWLToolInitialize :: "build_config \<Rightarrow> BWLContext \<Rightarrow> BWLContext option" where
  "BWLToolInitialize b ctx =
     (let l = filter (\<lambda>(i, t). tool_name t \<noteq> []) (tool_list_static b)
      in if l = [] then None else Some (ctx\<lparr>tool_list := l\<rparr>))"

definition to_lower :: "char \<Rightarrow> char" where
  "to_lower c = (let n = of_char c :: nat in if 65 \<le> n \<and> n \<le> 90 then char_of (n + 32) else c)"

text \<open>\<open>strncasecmp(a, b, strlen(a) + 1) == 0\<close>: equality up to case, terminator included.\<close>

definition str_case_eq :: "string \<Rightarrow> string \<Rightarrow> bool" where
  "str_case_eq a b = (map to_lower a = map to_lower b)"

text \<open>\<open>strncasecmp(s, p, strlen(p)) == 0\<close>: \<open>p\<close> is a prefix of \<open>s\<close> up to case.\<close>

definition str_case_prefix :: "string \<Rightarrow> string \<Rightarrow> bool" where
  "str_case_prefix s p = (map to_lower (take (length p) s) = map to_lower p)"

fun find_tool :: "(u32 \<times> BWLToolDefinition) list \<Rightarrow> u32 \<Rightarrow> BWLToolDefinition option" where
  "find_tool [] i = None"
| "find_tool ((j, t) # ts) i = (if i = j then Some t else find_tool ts i)"

fun find_tool_name :: "(u32 \<times> BWLToolDefinition) list \<Rightarrow> string \<Rightarrow> u32" where
  "find_tool_name [] n = BWL_TOOL_UNDEFINED"
| "find_tool_name ((j, t) # ts) n = (if str_case_eq (tool_name t) n then j else find_tool_name ts n)"

definition BWLToolGetID :: "BWLContext \<Rightarrow> string \<Rightarrow> u32" where
  "BWLToolGetID ctx name = find_tool_name (tool_list ctx) name"

definition BWLToolGetNameByID :: "BWLContext \<Rightarrow> u32 \<Rightarrow> string option" where
  "BWLToolGetNameByID ctx i = map_option tool_name (find_tool (tool_list ctx) i)"

definition BWLToolGetTestTypesByID :: "BWLContext \<Rightarrow> u32 \<Rightarrow> u32" where
  "BWLToolGetTestTypesByID ctx i =
     (case find_tool (tool_list ctx) i of None \<Rightarrow> BWL_TEST_UNDEFINED | Some t \<Rightarrow> test_types t)"

definition BWLToolSupportsServerSendByID :: "BWLContext \<Rightarrow> u32 \<Rightarrow> bool" where
  "BWLToolSupportsServerSendByID ctx i =
     (case find_tool (tool_list ctx) i of None \<Rightarrow> False | Some t \<Rightarrow> supports_server_sends t)"

definition BWLToolSupportsEndpointlessTestsByID :: "BWLContext \<Rightarrow> u32 \<Rightarrow> bool" where
  "BWLToolSupportsEndpointlessTestsByID ctx i =
     (case find_tool (tool_list ctx) i of None \<Rightarrow> False | Some t \<Rightarrow> supports_endpointless t)"

definition BWLToolStandardTesterPortByID :: "BWLContext \<Rightarrow> u32 \<Rightarrow> u16" where
  "BWLToolStandardTesterPortByID ctx i =
     (case find_tool (tool_list ctx) i of None \<Rightarrow> 0 | Some t \<Rightarrow> standard_tester_port t)"

definition BWLToolGetParsableFormatByID :: "BWLContext \<Rightarrow> u32 \<Rightarrow> u8" where
  "BWLToolGetParsableFormatByID ctx i =
     (case find_tool (tool_list ctx) i of None \<Rightarrow> 0 | Some t \<Rightarrow> parsable_format t)"

definition BWLToolGetDefinition :: "BWLContext \<Rightarrow> u32 \<Rightarrow> BWLToolDefinition option" where
  "BWLToolGetDefinition ctx i = find_tool (tool_list ctx) i"


definition BWL_DATA_UNKNOWN :: u32 where "BWL_DATA_UNKNOWN = 0"
definition BWL_DATA_ON_CLIENT :: u32 where "BWL_DATA_ON_CLIENT = 1"
definition BWL_DATA_ON_SERVER :: u32 where "BWL_DATA_ON_SERVER = 2"

fun side_data :: "side_fun \<Rightarrow> BWLTestSpec \<Rightarrow> u32" where
  "side_data ServerSideData spec = BWL_DATA_ON_SERVER"
| "side_data ClientSideData spec = BWL_DATA_ON_CLIENT"
| "side_data SenderSideData spec =
     (if server_sends spec \<noteq> 0 then BWL_DATA_ON_SERVER else BWL_DATA_ON_CLIENT)"

text \<open>\<open>None\<close>: the call goes through a null function pointer.\<close>

definition BWLToolGetResultsSideByID :: "BWLContext \<Rightarrow> u32 \<Rightarrow> BWLTestSpec \<Rightarrow> u32 option" where
  "BWLToolGetResultsSideByID ctx i spec =
     (case find_tool (tool_list ctx) i of None \<Rightarrow> Some BWL_DATA_UNKNOWN
      | Some t \<Rightarrow> map_option (\<lambda>f. side_data f spec) (results_side t))"

definition BWLToolGetCommonTools :: "BWLContext \<Rightarrow> u32 \<Rightarrow> u32 \<Rightarrow> u32 \<Rightarrow> u32" where
  "BWLToolGetCommonTools ctx tools_1 tools_2 test_type =
     fold (\<lambda>k common. let tid = push_bit k 1 in
             if BWLToolGetTestTypesByID ctx tid = test_type then common else common AND NOT tid)
       [0..<32] (tools_1 AND tools_2)"

text \<open>
  \<open>_BWLToolLookForTesters\<close>: \<open>avail t\<close> is what the tool's own availability probe (it runs the
  command) answers. A tool disabled in the configuration is skipped; no tool at all is fatal.
\<close>

definition disabled_key :: "BWLToolDefinition \<Rightarrow> string" where
  "disabled_key t = ''V.disable_'' @ tool_name t"

definition BWLToolLookForTesters :: "(BWLToolDefinition \<Rightarrow> bool) \<Rightarrow> BWLContext \<Rightarrow> BWLContext \<times> bool" where
  "BWLToolLookForTesters avail ctx =
     (let mask = fold (\<lambda>(i, t) m. if config ctx (disabled_key t) \<noteq> None then m
                        else if avail t then m OR i else m) (tool_list ctx) (tool_avail ctx)
      in (ctx\<lparr>tool_avail := mask\<rparr>, mask \<noteq> 0))"

section \<open>Validation\<close>

definition BWLToolGenericValidateTest :: "BWLToolDefinition \<Rightarrow> BWLTestSpec \<Rightarrow> bool" where
  "BWLToolGenericValidateTest t spec =
     (if server_sends spec \<noteq> 0 \<and> \<not> supports_server_sends t then False
      else if no_server_endpoint spec \<noteq> 0 \<and> \<not> supports_endpointless t then False
      else True)"

text \<open>The unit letters \<open>b k m g a\<close> in either case.\<close>

definition valid_units :: "u8 \<Rightarrow> bool" where
  "valid_units u = (u \<in> {0x62, 0x42, 0x6B, 0x4B, 0x6D, 0x4D, 0x67, 0x47, 0x61, 0x41})"

fun run_validate :: "validate_fun \<Rightarrow> BWLToolDefinition \<Rightarrow> BWLTestSpec \<Rightarrow> bool" where
  "run_validate IperfValidateTest t spec =
     (if units spec \<noteq> 0 \<and> \<not> valid_units (units spec) then False
      else if outformat spec \<noteq> 0 \<and> outformat spec \<noteq> 0x63 then False
      else if udp spec = 0 \<and> bandwidth spec \<noteq> 0 then False
      else BWLToolGenericValidateTest t spec)"
| "run_validate Iperf3ValidateTest t spec =
     (if units spec \<noteq> 0 \<and> \<not> valid_units (units spec) then False
      else if outformat spec \<noteq> 0 \<and> outformat spec \<noteq> 0x63 \<and> outformat spec \<noteq> 0x4A then False
      else BWLToolGenericValidateTest t spec)"
| "run_validate NuttcpValidateTest t spec = BWLToolGenericValidateTest t spec"
| "run_validate TracepathValidateTest t spec =
     (if traceroute_first_ttl spec \<noteq> 0 then False
      else if traceroute_last_ttl spec \<noteq> 0 then False
      else if outformat spec \<noteq> 0 \<and> outformat spec \<noteq> 0x61 then False
      else BWLToolGenericValidateTest t spec)"
| "run_validate GenericValidateTest t spec = BWLToolGenericValidateTest t spec"

definition BWLToolValidateTest :: "BWLContext \<Rightarrow> u32 \<Rightarrow> BWLTestSpec \<Rightarrow> bool" where
  "BWLToolValidateTest ctx i spec =
     (case find_tool (tool_list ctx) i of None \<Rightarrow> False | Some t \<Rightarrow> run_validate (validate_test t) t spec)"

section \<open>Choosing the tool port\<close>

definition port_key :: "BWLToolDefinition \<Rightarrow> string" where
  "port_key t = ''V.'' @ tool_name t @ ''_port''"

definition default_range :: "u16 option \<Rightarrow> BWLPortRange" where
  "default_range rnd = BWLPortsSetI \<lparr>port_i = 0, port_low = 5001, port_high = 5900\<rparr> 5001 rnd"

text \<open>
  \<open>_BWLToolGenericInitTest\<close>: the tool's own range, else the shared \<open>test_port\<close> range, else a
  default range that is stored as the shared one. The chosen range's cursor advances.
\<close>

definition BWLToolGenericInitTest ::
  "u16 option \<Rightarrow> BWLContext \<Rightarrow> BWLToolDefinition \<Rightarrow> u16 \<times> BWLContext" where
  "BWLToolGenericInitTest rnd ctx t =
     (let (key, p) =
        (case port_ranges ctx (port_key t) of Some p \<Rightarrow> (port_key t, p)
         | None \<Rightarrow> (case port_ranges ctx ''V.test_port'' of Some p \<Rightarrow> (''V.test_port'', p)
                    | None \<Rightarrow> (''V.test_port'', default_range rnd)));
          (port, p') = BWLPortsNext p
      in (port, ctx\<lparr>port_ranges := (port_ranges ctx)(key \<mapsto> p')\<rparr>))"

text \<open>
  The loop of \<open>OwampInitTest\<close>, which draws ports until three in a row are consecutive. It has
  no bound in the code: not returning is \<open>None\<close>.
\<close>

partial_function (option) owamp_ports ::
  "u16 \<Rightarrow> u16 \<Rightarrow> u16 \<Rightarrow> BWLPortRange \<Rightarrow> (u16 \<times> BWLPortRange) option" where
  "owamp_ports port min_port max_port p =
     (if unat min_port \<noteq> unat port + 1 \<or> unat max_port \<noteq> unat min_port + 1
      then (case BWLPortsNext p of (q, p') \<Rightarrow> owamp_ports min_port max_port q p')
      else Some (port, p))"

definition owamp_range :: "BWLPortRange \<Rightarrow> (u16 \<times> BWLPortRange) option" where
  "owamp_range p =
     (let (a, p1) = BWLPortsNext p; (b, p2) = BWLPortsNext p1; (c, p3) = BWLPortsNext p2
      in owamp_ports a b c p3)"

definition OwampInit :: "u16 option \<Rightarrow> BWLContext \<Rightarrow> BWLToolDefinition \<Rightarrow> (u16 \<times> BWLContext) option" where
  "OwampInit rnd ctx t =
     (let (port0, ctx') = BWLToolGenericInitTest rnd ctx t;
          key = (if port_ranges ctx' ''V.owamp_port'' \<noteq> None then ''V.owamp_port'' else ''V.test_port'')
      in case port_ranges ctx' key of
           None \<Rightarrow> Some (port0, ctx')
         | Some p \<Rightarrow> (case owamp_range p of None \<Rightarrow> None
             | Some (port, p') \<Rightarrow> Some (port, ctx'\<lparr>port_ranges := (port_ranges ctx')(key \<mapsto> p')\<rparr>)))"

text \<open>
  \<open>BWLToolInitTest\<close>. The outer option is the C return code (\<open>BWLErrFATAL\<close> when the tool is
  unknown); the inner one is whether the call returns at all.
\<close>

definition BWLToolInitTest ::
  "u16 option \<Rightarrow> BWLContext \<Rightarrow> u32 \<Rightarrow> u16 \<Rightarrow> (u16 \<times> BWLContext) option option" where
  "BWLToolInitTest rnd ctx i toolport =
     (case find_tool (tool_list ctx) i of None \<Rightarrow> None
      | Some t \<Rightarrow> Some (case init_test t of
            GenericInitTest \<Rightarrow> Some (BWLToolGenericInitTest rnd ctx t)
          | OwampInitTest \<Rightarrow> OwampInit rnd ctx t
          | NoInitTest \<Rightarrow> Some (toolport, ctx)))"

section \<open>Facts about the tool list\<close>

lemma find_tool_map_of: "find_tool l i = map_of l i"
  by (induction l) auto

text \<open>Every tool identifier is one bit, and no two tools share one.\<close>

lemma tool_ids_distinct: "distinct (map fst (tool_list_static b))"
  by (simp add: tool_list_static_def tool_id_defs)

lemma lower_names:
  "map to_lower ''iperf'' = ''iperf''" "map to_lower ''iperf3'' = ''iperf3''"
  "map to_lower ''nuttcp'' = ''nuttcp''" "map to_lower ''thrulay'' = ''thrulay''"
  "map to_lower ''ping'' = ''ping''" "map to_lower ''owamp'' = ''owamp''"
  "map to_lower ''traceroute'' = ''traceroute''" "map to_lower ''tracepath'' = ''tracepath''"
  "map to_lower ''paris-traceroute'' = ''paris-traceroute''"
  by (code_simp, code_simp, code_simp, code_simp, code_simp, code_simp, code_simp, code_simp, code_simp)

section \<open>Port ranges rotate\<close>

definition ports_span :: "BWLPortRange \<Rightarrow> nat" where
  "ports_span p = unat (port_high p) - unat (port_low p)"

definition wf_ports :: "BWLPortRange \<Rightarrow> bool" where
  "wf_ports p = (port_low p \<le> port_i p \<and> (port_i p < port_high p \<or> port_low p = port_high p))"

definition ports_pos :: "BWLPortRange \<Rightarrow> nat" where
  "ports_pos p = unat (port_i p) - unat (port_low p)"

lemma u16_bound: "unat (w :: u16) < 65536"
  using unat_bound [of w] by simp

lemma wf_ports_span_pos:
  assumes "wf_ports p" and "0 < ports_span p"
  shows "ports_pos p < ports_span p" and "unat (port_i p) = unat (port_low p) + ports_pos p"
    and "unat (port_low p) + ports_span p = unat (port_high p)"
  using assms by (auto simp: wf_ports_def ports_span_def ports_pos_def word_le_nat_alt word_less_nat_alt)

lemma BWLPortsRange_span:
  "wf_ports p \<Longrightarrow> 0 < ports_span p \<Longrightarrow> BWLPortsRange p = int (ports_span p)"
  by (auto simp: wf_ports_def BWLPortsRange_def ports_span_def word_le_nat_alt word_less_nat_alt
      of_nat_diff simp flip: uint_nat)

lemma BWLPortsNext_single: "port_low p = port_high p \<Longrightarrow> BWLPortsNext p = (port_i p, p)"
  by (simp add: BWLPortsNext_def BWLPortsRange_def)

lemma BWLPortsNext_span:
  assumes "wf_ports p" and n: "0 < ports_span p"
  shows "BWLPortsNext p = (port_i p, p\<lparr>port_i := port_low p + of_nat ((ports_pos p + 1) mod ports_span p)\<rparr>)"
proof -
  have r: "BWLPortsRange p = int (ports_span p)" using assms by (rule BWLPortsRange_span)
  have "unat (port_i p - port_low p) = ports_pos p"
    using assms(1) by (simp add: ports_pos_def wf_ports_def word_le_nat_alt unat_minus_noov)
  then have u: "uint (port_i p - port_low p) = int (ports_pos p)"
    by (simp add: uint_eq_int_unat del: of_nat_unat)
  have "c_mod (int (ports_pos p) + 1) (int (ports_span p)) = int ((ports_pos p + 1) mod ports_span p)"
    by (simp add: c_mod_def zmod_int add.commute)
  then show ?thesis using n by (simp add: BWLPortsNext_def r u Let_def add.commute)
qed

lemma ports_step:
  assumes "wf_ports p" and "0 < ports_span p"
  defines "p' \<equiv> snd (BWLPortsNext p)"
  shows "wf_ports p'" and "ports_span p' = ports_span p" and "port_low p' = port_low p"
    and "port_high p' = port_high p" and "ports_pos p' = (ports_pos p + 1) mod ports_span p"
    and "unat (port_i p') = unat (port_low p) + (ports_pos p + 1) mod ports_span p"
proof -
  let ?m = "(ports_pos p + 1) mod ports_span p"
  have p': "p' = p\<lparr>port_i := port_low p + of_nat ?m\<rparr>"
    unfolding p'_def using BWLPortsNext_span [OF assms(1,2)] by simp
  have m: "?m < ports_span p" using assms(2) by simp
  have hi: "unat (port_low p) + ports_span p = unat (port_high p)"
    using wf_ports_span_pos [OF assms(1,2)] by simp
  then have "?m < 65536" using m u16_bound [of "port_high p"] by simp
  then have "unat (of_nat ?m :: u16) = ?m" by (simp add: unat_of_nat)
  then have u: "unat (port_low p + of_nat ?m) = unat (port_low p) + ?m"
    using hi m u16_bound [of "port_high p"] by (simp add: unat_plus_noov)
  show "port_low p' = port_low p" "port_high p' = port_high p" "ports_span p' = ports_span p"
    by (simp_all add: p' ports_span_def)
  show i: "unat (port_i p') = unat (port_low p) + ?m" using u by (simp add: p')
  show "ports_pos p' = ?m" unfolding ports_pos_def i by (simp add: p')
  show "wf_ports p'"
    using i hi m by (simp add: wf_ports_def word_le_nat_alt word_less_nat_alt p')
qed

text \<open>
  C17. Successive ports from \<open>BWLPortsNext\<close> rotate through the range: after \<open>k\<close> calls the cursor
  is \<open>k\<close> places further, modulo \<open>high - low\<close>. Every port handed out is at least \<open>low\<close> and below
  \<open>high\<close>, each of the \<open>high - low\<close> ports comes up once per round, and the configured upper port
  itself is never handed out.
\<close>

theorem BWLPortsNext_rotates:
  fixes k :: nat
  assumes "wf_ports p" and "port_low p < port_high p"
  defines "n \<equiv> unat (port_high p) - unat (port_low p)"
  defines "q \<equiv> ((\<lambda>r. snd (BWLPortsNext r)) ^^ k) p"
  shows "unat (fst (BWLPortsNext q)) =
      unat (port_low p) + (unat (port_i p) - unat (port_low p) + k) mod n \<and>
    port_low p \<le> fst (BWLPortsNext q) \<and> fst (BWLPortsNext q) < port_high p"
proof -
  have n: "0 < ports_span p" "n = ports_span p"
    using assms(2) by (simp_all add: ports_span_def n_def word_less_nat_alt)
  have inv: "wf_ports q \<and> ports_span q = ports_span p \<and> port_low q = port_low p \<and>
      port_high q = port_high p \<and> ports_pos q = (ports_pos p + k) mod ports_span p"
    unfolding q_def
  proof (induction k)
    case 0
    show ?case using assms(1) wf_ports_span_pos [OF assms(1) n(1)] by simp
  next
    case (Suc k)
    then show ?case
      using ports_step [of "((\<lambda>r. snd (BWLPortsNext r)) ^^ k) p"] n(1)
      by (simp add: mod_Suc_eq)
  qed
  then have q: "wf_ports q" "0 < ports_span q" using n(1) by auto
  have "fst (BWLPortsNext q) = port_i q" using BWLPortsNext_span [OF q] by simp
  moreover have "unat (port_low p) + (ports_pos p + k) mod ports_span p < unat (port_high p)"
    using wf_ports_span_pos(3) [OF assms(1) n(1)] n(1) by (metis add_strict_left_mono mod_less_divisor)
  ultimately show ?thesis
    using inv wf_ports_span_pos [OF q] n
    by (simp add: ports_pos_def [of p] word_le_nat_alt word_less_nat_alt)
qed

theorem BWLPortsNext_rotates_witness:
  "unat (fst (BWLPortsNext \<lparr>port_i = 5003, port_low = 5001, port_high = 5004\<rparr>)) = 5003"
  using BWLPortsNext_rotates [of "\<lparr>port_i = 5003, port_low = 5001, port_high = 5004\<rparr>" 0]
  by (simp add: wf_ports_def)


section \<open>Three consecutive ports for owamp\<close>

text \<open>The loop's state: \<open>a\<close>, \<open>b\<close>, \<open>c\<close> are three successive draws, \<open>p\<close> the range after them.\<close>

definition owamp_state :: "u16 \<Rightarrow> u16 \<Rightarrow> u16 \<Rightarrow> BWLPortRange \<Rightarrow> nat \<Rightarrow> bool" where
  "owamp_state a b c p y =
     (wf_ports p \<and> 0 < ports_span p \<and> y < ports_span p \<and>
      unat a = unat (port_low p) + y \<and>
      unat b = unat (port_low p) + (y + 1) mod ports_span p \<and>
      unat c = unat (port_low p) + (y + 2) mod ports_span p \<and>
      ports_pos p = (y + 3) mod ports_span p)"

lemma owamp_state_step:
  assumes "owamp_state a b c p y"
  shows "owamp_state b c (fst (BWLPortsNext p)) (snd (BWLPortsNext p)) ((y + 1) mod ports_span p)"
proof -
  have w: "wf_ports p" "0 < ports_span p" using assms by (simp_all add: owamp_state_def)
  have i: "unat (fst (BWLPortsNext p)) = unat (port_low p) + (y + 3) mod ports_span p"
    using BWLPortsNext_span [OF w] wf_ports_span_pos(2) [OF w] assms by (simp add: owamp_state_def)
  have "Suc (Suc (Suc (Suc y mod ports_span p))) mod ports_span p = Suc (Suc (Suc (Suc y))) mod ports_span p"
    by (metis mod_Suc_eq)
  then show ?thesis
    using assms i ports_step [OF w]
    by (simp add: owamp_state_def mod_simps add.commute numeral_3_eq_3 numeral_2_eq_2)
qed

lemma owamp_init_state:
  assumes "wf_ports p" and "0 < ports_span p"
  defines "p1 \<equiv> snd (BWLPortsNext p)"
  defines "p2 \<equiv> snd (BWLPortsNext p1)"
  shows "owamp_state (fst (BWLPortsNext p)) (fst (BWLPortsNext p1)) (fst (BWLPortsNext p2))
    (snd (BWLPortsNext p2)) (ports_pos p)"
proof -
  note s1 = ports_step [OF assms(1,2), folded p1_def]
  have w1: "wf_ports p1" "0 < ports_span p1" using s1 assms(2) by simp_all
  note s2 = ports_step [OF w1, folded p2_def]
  have w2: "wf_ports p2" "0 < ports_span p2" using s2 w1 by simp_all
  note s3 = ports_step [OF w2]
  show ?thesis
    using BWLPortsNext_span [OF assms(1,2)] BWLPortsNext_span [OF w1] BWLPortsNext_span [OF w2]
      wf_ports_span_pos [OF assms(1,2)] s1 s2 s3 assms(2)
    by (simp add: owamp_state_def mod_simps numeral_3_eq_3 numeral_2_eq_2)
qed

lemma owamp_ports_step:
  "unat b \<noteq> unat a + 1 \<or> unat c \<noteq> unat b + 1 \<Longrightarrow>
   owamp_ports a b c p = owamp_ports b c (fst (BWLPortsNext p)) (snd (BWLPortsNext p))"
  by (subst owamp_ports.simps) (simp add: case_prod_beta)

lemma owamp_ports_stop:
  "unat b = unat a + 1 \<Longrightarrow> unat c = unat b + 1 \<Longrightarrow> owamp_ports a b c p = Some (a, p)"
  by (subst owamp_ports.simps) simp

definition owamp_good :: "BWLPortRange \<Rightarrow> (u16 \<times> BWLPortRange) option \<Rightarrow> bool" where
  "owamp_good p r = (\<exists>port p'. r = Some (port, p') \<and> port_low p' = port_low p \<and>
     port_high p' = port_high p \<and> port_low p \<le> port \<and> unat port + 2 < unat (port_high p))"

lemma owamp_ports_here:
  assumes "owamp_state a b c p y" and "y + 2 < ports_span p"
  shows "owamp_good p (owamp_ports a b c p)"
proof -
  have "unat b = unat a + 1" "unat c = unat b + 1" using assms by (simp_all add: owamp_state_def)
  then have r: "owamp_ports a b c p = Some (a, p)" by (rule owamp_ports_stop)
  have "unat (port_low p) + ports_span p = unat (port_high p)"
    using assms(1) by (intro wf_ports_span_pos) (simp_all add: owamp_state_def)
  then show ?thesis
    using assms unfolding owamp_good_def r by (simp add: owamp_state_def word_le_nat_alt)
qed

lemma owamp_ports_found:
  assumes "owamp_state a b c p y" and "3 \<le> ports_span p"
  shows "owamp_good p (owamp_ports a b c p)"
  using assms
proof (induction "ports_span p - y" arbitrary: a b c p y rule: less_induct)
  case less
  show ?case
  proof (cases "y + 2 < ports_span p")
    case True
    with less.prems show ?thesis by (intro owamp_ports_here)
  next
    case False
    let ?q = "snd (BWLPortsNext p)" and ?d = "fst (BWLPortsNext p)"
    have w: "wf_ports p" "0 < ports_span p" "y < ports_span p"
      using less.prems by (simp_all add: owamp_state_def)
    note st = owamp_state_step [OF less.prems(1)]
    have ne: "unat b \<noteq> unat a + 1 \<or> unat c \<noteq> unat b + 1"
    proof (cases "y + 1 = ports_span p")
      case True
      then show ?thesis using less.prems by (simp add: owamp_state_def)
    next
      case c: False
      then have "y + 2 = ports_span p" using False w(3) by simp
      then show ?thesis using less.prems by (simp add: owamp_state_def)
    qed
    have good: "owamp_good ?q (owamp_ports b c ?d ?q)"
    proof (cases "y + 1 = ports_span p")
      case True
      then have "owamp_state b c ?d ?q 0" using st by simp
      moreover have "0 + 2 < ports_span ?q"
        using less.prems(2) ports_step(2) [OF w(1,2)] by linarith
      ultimately show ?thesis by (rule owamp_ports_here)
    next
      case c: False
      then have "(y + 1) mod ports_span p = y + 1" using w(3) by simp
      then show ?thesis
        using less.hyps [of ?q "y + 1" b c ?d] st less.prems(2) ports_step(2) [OF w(1,2)] w(3)
        by simp
    qed
    then show ?thesis
      using ports_step(3,4) [OF w(1,2)] unfolding owamp_ports_step [OF ne] owamp_good_def by simp
  qed
qed

text \<open>With at most two ports in rotation the loop condition never fails.\<close>

definition owamp_stuck :: "u16 \<Rightarrow> u16 \<Rightarrow> u16 \<Rightarrow> BWLPortRange \<Rightarrow> bool" where
  "owamp_stuck a b c p =
     ((port_low p = port_high p \<and> b = c \<and> c = port_i p) \<or>
      (\<exists>y. owamp_state a b c p y \<and> ports_span p < 3))"

lemma owamp_stuck_cond: "owamp_stuck a b c p \<Longrightarrow> unat b \<noteq> unat a + 1 \<or> unat c \<noteq> unat b + 1"
proof -
  assume "owamp_stuck a b c p"
  then consider "b = c" | y where "owamp_state a b c p y" "ports_span p < 3"
    by (auto simp: owamp_stuck_def)
  then show ?thesis
  proof cases
    case 2
    then have "y < ports_span p" "0 < ports_span p" by (simp_all add: owamp_state_def)
    with 2(2) consider "ports_span p = 1" "y = 0" | "ports_span p = 2" "y = 0" | "ports_span p = 2" "y = 1"
      by linarith
    then show ?thesis using 2(1) by cases (simp_all add: owamp_state_def)
  qed simp
qed

lemma owamp_stuck_step:
  assumes "owamp_stuck a b c p"
  shows "owamp_stuck b c (fst (BWLPortsNext p)) (snd (BWLPortsNext p))"
proof (cases "port_low p = port_high p \<and> b = c \<and> c = port_i p")
  case True
  then show ?thesis by (simp add: owamp_stuck_def BWLPortsNext_single)
next
  case False
  then obtain y where y: "owamp_state a b c p y" "ports_span p < 3"
    using assms by (auto simp: owamp_stuck_def)
  then have "ports_span (snd (BWLPortsNext p)) = ports_span p"
    by (intro ports_step) (simp_all add: owamp_state_def)
  then show ?thesis using owamp_state_step [OF y(1)] y(2) by (auto simp: owamp_stuck_def)
qed

lemma owamp_ports_diverges: "owamp_stuck a b c p \<Longrightarrow> owamp_ports a b c p = None"
proof (rule ccontr)
  assume s: "owamp_stuck a b c p" and "owamp_ports a b c p \<noteq> None"
  then obtain r where ret: "owamp_ports a b c p = Some r" by auto
  have "\<not> owamp_stuck a b c p"
  proof (rule owamp_ports.raw_induct [where P = "\<lambda>a b c p r. \<not> owamp_stuck a b c p", OF _ ret])
    fix f and a b c :: u16 and p r
    assume IH: "\<And>a b c p r. f a b c p = Some r \<Longrightarrow> \<not> owamp_stuck a b c p"
      and eq: "(if unat b \<noteq> unat a + 1 \<or> unat c \<noteq> unat b + 1
        then (case BWLPortsNext p of (q, p') \<Rightarrow> f b c q p') else Some (a, p)) = Some r"
    show "\<not> owamp_stuck a b c p"
    proof
      assume st: "owamp_stuck a b c p"
      then have "f b c (fst (BWLPortsNext p)) (snd (BWLPortsNext p)) = Some r"
        using eq owamp_stuck_cond [OF st] by (simp add: case_prod_beta)
      then show False using IH owamp_stuck_step [OF st] by blast
    qed
  qed
  with s show False by contradiction
qed

text \<open>
  C18. Initialising an owamp test (\<open>OwampInitTest\<close>) returns exactly when the highest port is at least the
  lowest plus three, that is when the range has four ports or more: the highest is never drawn, and three
  in rotation are needed. Then the chosen port and the two after it lie in the range, below its highest
  port. With a smaller range, such as the three ports \<open>5000-5002\<close> (of which two are in rotation),
  the loop never ends, and it runs in the parent daemon.
\<close>

theorem owamp_range_terminates_iff:
  assumes "wf_ports p"
  shows "(owamp_range p \<noteq> None) = (unat (port_low p) + 3 \<le> unat (port_high p)) \<and>
    (\<forall>port p'. owamp_range p = Some (port, p') \<longrightarrow>
       port_low p \<le> port \<and> unat port + 2 < unat (port_high p))"
proof -
  let ?p1 = "snd (BWLPortsNext p)"
  let ?p2 = "snd (BWLPortsNext ?p1)"
  let ?p3 = "snd (BWLPortsNext ?p2)"
  have run: "owamp_range p = owamp_ports (fst (BWLPortsNext p)) (fst (BWLPortsNext ?p1))
      (fst (BWLPortsNext ?p2)) ?p3"
    by (simp add: owamp_range_def case_prod_beta)
  show ?thesis
  proof (cases "port_low p = port_high p")
    case True
    then have "owamp_range p = None"
      unfolding run by (intro owamp_ports_diverges) (simp add: owamp_stuck_def BWLPortsNext_single)
    then show ?thesis using True by simp
  next
    case False
    then have n: "0 < ports_span p" and hi: "unat (port_low p) + ports_span p = unat (port_high p)"
      using assms by (auto simp: wf_ports_def ports_span_def word_le_nat_alt word_less_nat_alt)
    note st = owamp_init_state [OF assms n]
    have sp: "ports_span ?p3 = ports_span p" "port_low ?p3 = port_low p" "port_high ?p3 = port_high p"
      using ports_step [OF assms n] ports_step [of ?p1] ports_step [of ?p2] n by simp_all
    show ?thesis
    proof (cases "3 \<le> ports_span p")
      case True
      then have "owamp_good ?p3 (owamp_range p)"
        unfolding run using st sp by (intro owamp_ports_found) simp_all
      then show ?thesis using sp hi True by (auto simp: owamp_good_def)
    next
      case False
      then have "owamp_range p = None"
        unfolding run using st sp by (intro owamp_ports_diverges) (auto simp: owamp_stuck_def)
      then show ?thesis using False hi by simp
    qed
  qed
qed

theorem owamp_range_terminates_iff_witness:
  "owamp_range \<lparr>port_i = 5000, port_low = 5000, port_high = 5002\<rparr> = None \<and>
   owamp_range \<lparr>port_i = 5000, port_low = 5000, port_high = 5003\<rparr> \<noteq> None"
proof (rule conjI)
  show "owamp_range \<lparr>port_i = 5000, port_low = 5000, port_high = 5002\<rparr> = None"
    using owamp_range_terminates_iff [of "\<lparr>port_i = 5000, port_low = 5000, port_high = 5002\<rparr>"]
    by (simp add: wf_ports_def del: not_None_eq)
  show "owamp_range \<lparr>port_i = 5000, port_low = 5000, port_high = 5003\<rparr> \<noteq> None"
    using owamp_range_terminates_iff [of "\<lparr>port_i = 5000, port_low = 5000, port_high = 5003\<rparr>"]
    by (simp add: wf_ports_def del: not_None_eq)
qed

end
