(* ===== verification/Rounding.thy ===== *)
theory Rounding
  imports Arith64
begin

text \<open>
  IEEE conversions of unsigned integers, for the two places where the daemon lets an integer
  pass through a floating point type: the resource comparison of \<open>IntegerResourceDemand\<close>
  (policy.c; both sides become a 24-bit \<open>float\<close>) and \<open>BWLNum64ToDouble\<close> (arithm64.c; a 53-bit
  \<open>double\<close>). An integer is rounded to the nearest value with \<open>p\<close> significant bits, ties to
  even; no unsigned 64-bit integer overflows either format.
\<close>

section \<open>Round to nearest, ties to even\<close>

text \<open>The exponent of the last significant bit when \<open>n\<close> is written with \<open>p\<close> bits.\<close>

function ulp_exp :: "nat \<Rightarrow> nat \<Rightarrow> nat" where
  "ulp_exp p n = (if n < 2 ^ p then 0 else Suc (ulp_exp p (n div 2)))"
  by pat_completeness auto
termination
proof (relation "measure snd")
  show "((p, n div 2), p, n) \<in> measure snd" if "\<not> n < 2 ^ p" for p n :: nat
  proof -
    have "0 < n" using that by (cases n) simp_all
    then show ?thesis by simp
  qed
qed simp

declare ulp_exp.simps [simp del]

definition round_at :: "nat \<Rightarrow> nat \<Rightarrow> nat" where
  "round_at u n = (let q = n div u; r = n mod u
     in (if u < 2 * r \<or> (2 * r = u \<and> odd q) then q + 1 else q) * u)"

definition round_bits :: "nat \<Rightarrow> nat \<Rightarrow> nat" where
  "round_bits p n = round_at (2 ^ ulp_exp p n) n"

definition float_of :: "u64 \<Rightarrow> nat" where
  "float_of w = round_bits 24 (unat w)"

text \<open>
  The value of a \<open>double\<close> that came from a \<open>BWLNum64\<close>, in units of \<open>2 ^ -32\<close>: dividing by
  \<open>EXP2POW32\<close> only shifts the exponent, so the quotient is exact.
\<close>

definition BWLNum64ToDouble :: "u64 \<Rightarrow> nat" where
  "BWLNum64ToDouble w = round_bits 53 (unat w)"

definition ceil_double :: "nat \<Rightarrow> nat" where
  "ceil_double d = (d + 2 ^ 32 - 1) div 2 ^ 32"

section \<open>Facts\<close>

lemma ulp_exp_small [simp]: "n < 2 ^ p \<Longrightarrow> ulp_exp p n = 0"
  by (simp add: ulp_exp.simps)

lemma ulp_exp_bounds:
  "n < 2 ^ (p + ulp_exp p n) \<and> (2 ^ p \<le> n \<longrightarrow> 2 ^ (p + ulp_exp p n) \<le> 2 * n)"
proof (induction p n rule: ulp_exp.induct)
  case (1 p n)
  show ?case
  proof (cases "n < 2 ^ p")
    case False
    have e: "ulp_exp p n = Suc (ulp_exp p (n div 2))"
      using False by (subst ulp_exp.simps) simp
    note ih = 1 [OF False]
    have "n < 2 * 2 ^ (p + ulp_exp p (n div 2))" using ih by linarith
    moreover have "2 * 2 ^ (p + ulp_exp p (n div 2)) \<le> 2 * n"
    proof (cases "2 ^ p \<le> n div 2")
      case True
      then show ?thesis using ih by linarith
    next
      case small: False
      then show ?thesis using False by simp
    qed
    ultimately show ?thesis using False by (simp add: e)
  qed simp
qed

lemma ulp_exp_mono: "a \<le> b \<Longrightarrow> ulp_exp p a \<le> ulp_exp p b"
proof (induction p a arbitrary: b rule: ulp_exp.induct)
  case (1 p a)
  show ?case
  proof (cases "a < 2 ^ p")
    case False
    then have "\<not> b < 2 ^ p" using 1(2) by simp
    moreover have "ulp_exp p (a div 2) \<le> ulp_exp p (b div 2)"
      using 1(1) [OF False, of "b div 2"] 1(2) by (simp add: div_le_mono)
    ultimately show ?thesis using False
      by (subst (1 2) ulp_exp.simps) simp
  qed simp
qed

lemma round_at_bounds:
  assumes "0 < u"
  shows "n div u * u \<le> round_at u n" and "round_at u n \<le> (n div u + 1) * u"
  by (auto simp: round_at_def Let_def)

lemma round_at_mono:
  assumes "0 < u" and "a \<le> b"
  shows "round_at u a \<le> round_at u b"
proof (cases "a div u = b div u")
  case True
  then have "a mod u \<le> b mod u"
    using assms(2) by (metis add_le_cancel_left div_mult_mod_eq)
  then show ?thesis using True by (auto simp: round_at_def Let_def)
next
  case False
  then have "a div u + 1 \<le> b div u"
    using div_le_mono [OF assms(2), of u] by linarith
  then have "(a div u + 1) * u \<le> b div u * u" by (rule mult_right_mono) simp
  with round_at_bounds [OF assms(1), of a] round_at_bounds [OF assms(1), of b]
  show ?thesis by linarith
qed

lemma round_at_error:
  assumes "0 < u"
  shows "2 * round_at u n \<le> 2 * n + u \<and> 2 * n \<le> 2 * round_at u n + u"
proof -
  have n: "n = n div u * u + n mod u" by simp
  have r: "n mod u < u" using assms by simp
  have up: "(n div u + 1) * u = n div u * u + u" by (simp add: algebra_simps)
  show ?thesis
  proof (cases "u < 2 * (n mod u) \<or> (2 * (n mod u) = u \<and> odd (n div u))")
    case True
    then have "round_at u n = n div u * u + u" unfolding round_at_def Let_def using up by simp
    moreover have "u \<le> 2 * (n mod u)" using True by auto
    ultimately show ?thesis using n r by linarith
  next
    case False
    then have "round_at u n = n div u * u" unfolding round_at_def Let_def by auto
    moreover have "2 * (n mod u) \<le> u" using False by auto
    ultimately show ?thesis using n by linarith
  qed
qed

lemma round_at_one [simp]: "round_at (Suc 0) n = n"
  by (simp add: round_at_def)

lemma round_bits_exact [simp]: "n < 2 ^ p \<Longrightarrow> round_bits p n = n"
  by (simp add: round_bits_def)

lemma round_bits_top: "round_bits p n \<le> 2 ^ (p + ulp_exp p n)"
proof -
  let ?u = "2 ^ ulp_exp p n :: nat"
  have "n div ?u < 2 ^ p"
    using ulp_exp_bounds [of n p] by (intro less_mult_imp_div_less) (simp add: power_add)
  then have "(n div ?u + 1) * ?u \<le> 2 ^ p * ?u" by (intro mult_right_mono) simp_all
  then show ?thesis
    using round_at_bounds(2) [of ?u n] by (simp add: round_bits_def power_add)
qed

lemma round_bits_mono:
  assumes "0 < p" and "a \<le> b"
  shows "round_bits p a \<le> round_bits p b"
proof (cases "ulp_exp p a = ulp_exp p b")
  case True
  then show ?thesis using assms by (simp add: round_bits_def round_at_mono)
next
  case False
  let ?e = "ulp_exp p b"
  have lt: "ulp_exp p a < ?e" using False ulp_exp_mono [OF assms(2), of p] by simp
  then obtain k where k: "?e = Suc k" using less_imp_Suc_add by blast
  have "2 ^ p \<le> b" using lt by (metis not_less_zero leI ulp_exp_small)
  then have "2 ^ (p + k) \<le> b" using ulp_exp_bounds [of b p] by (simp add: k)
  have "(2 :: nat) ^ (p - 1) * 2 ^ ?e = 2 ^ (p + k)"
    unfolding k using assms(1) by (cases p) (simp_all add: power_add)
  then have "(2 :: nat) ^ (p - 1) \<le> b div 2 ^ ?e"
    using \<open>2 ^ (p + k) \<le> b\<close> by (simp add: less_eq_div_iff_mult_less_eq)
  then have "2 ^ (p + k) \<le> b div 2 ^ ?e * 2 ^ ?e"
    using \<open>2 ^ (p - 1) * 2 ^ ?e = 2 ^ (p + k)\<close> by (metis mult_le_mono1)
  also have "\<dots> \<le> round_bits p b"
    using round_at_bounds(1) [of "2 ^ ?e" b] by (simp add: round_bits_def)
  finally have hi: "2 ^ (p + k) \<le> round_bits p b" .
  have "round_bits p a \<le> 2 ^ (p + ulp_exp p a)" by (rule round_bits_top)
  also have "\<dots> \<le> 2 ^ (p + k)" using lt k by (intro power_increasing) simp_all
  finally show ?thesis using hi by (rule order_trans)
qed

lemma round_bits_error:
  "2 ^ p * round_bits p n \<le> (2 ^ p + 1) * n" "2 ^ p * n \<le> 2 ^ p * round_bits p n + n"
proof -
  let ?u = "2 ^ ulp_exp p n :: nat"
  have *: "2 * (2 ^ p * round_bits p n) \<le> 2 * ((2 ^ p + 1) * n) \<and>
      2 * (2 ^ p * n) \<le> 2 * (2 ^ p * round_bits p n + n)"
  proof (cases "n < 2 ^ p")
    case False
    then have "2 ^ p * ?u \<le> 2 * n" using ulp_exp_bounds [of n p] by (simp add: power_add)
    moreover have "2 ^ p * (2 * round_bits p n) \<le> 2 ^ p * (2 * n + ?u)"
      "2 ^ p * (2 * n) \<le> 2 ^ p * (2 * round_bits p n + ?u)"
      using round_at_error [of ?u n] by (simp_all add: round_bits_def del: mult_Suc mult_Suc_right)
    ultimately show ?thesis by (simp add: algebra_simps)
  qed simp
  show "2 ^ p * round_bits p n \<le> (2 ^ p + 1) * n" "2 ^ p * n \<le> 2 ^ p * round_bits p n + n"
    using * by simp_all
qed

lemma round_bits_power: "0 < p \<Longrightarrow> round_bits p (2 ^ p) = 2 ^ p"
proof -
  assume "0 < p"
  then obtain j where p: "p = Suc j" by (cases p) simp_all
  have "ulp_exp p (2 ^ p) = 1" by (subst ulp_exp.simps) (simp add: p)
  then show ?thesis by (simp add: round_bits_def round_at_def p)
qed

lemma float_of_mono: "a \<le> b \<Longrightarrow> float_of a \<le> float_of b"
  by (simp add: float_of_def round_bits_mono word_le_nat_alt)

lemma float_of_exact [simp]: "unat w < 2 ^ 24 \<Longrightarrow> float_of w = unat w"
  by (simp add: float_of_def)

lemma float_of_less_iff:
  assumes "unat b < 2 ^ 24"
  shows "(float_of b < float_of a) = (b < a)"
proof (cases "unat a < 2 ^ 24")
  case True
  then show ?thesis using assms by (simp add: word_less_nat_alt)
next
  case False
  have "round_bits 24 (2 ^ 24) \<le> float_of a"
    unfolding float_of_def using False by (intro round_bits_mono) simp_all
  moreover have "round_bits 24 (2 ^ 24) = 2 ^ 24" by (rule round_bits_power) simp
  ultimately show ?thesis using assms False by (simp add: word_less_nat_alt)
qed

end
