(* ===== verification/PolicyTree.thy ===== *)
theory PolicyTree
  imports Rounding
begin

text \<open>
  The tree of usage classes of \<open>bwctld/policy.c\<close> and the resource accounting over it
  (\<open>GetDefLimit\<close> to \<open>BWLDResourceDemand\<close>). A node is an entry of the list \<open>nodes\<close>, in the order
  in which the limits file created it; \<open>parent\<close> is the index of the parent, \<open>None\<close> the
  NULL of the root. The C arrays \<open>limits\<close> and \<open>used\<close> are lists of the same length.

  \<open>IntegerResourceDemand\<close> recurses along parent pointers. The model takes fuel and answers
  \<open>None\<close> when it runs out or when the \<open>assert\<close> of the code fails; for a well-formed tree one
  unit per node is enough and \<open>None\<close> never comes back. The comparison of a request with a limit
  is made in \<open>float\<close>, as in the code (theory \<open>Rounding\<close>).

  Besides the walk up the tree the theory has a ledger of the amounts granted and released, as integers,
  which the counters of the code are compared with.
\<close>

section \<open>Limits (policy.h, policy.c)\<close>

type_synonym BWLDMesgT = u32
type_synonym BWLDLimitT = I2numT

record BWLDLimRec =
  lim_limit :: BWLDMesgT
  lim_value :: BWLDLimitT

abbreviation (input) BWLDLimParent :: BWLDMesgT where "BWLDLimParent \<equiv> 0"
abbreviation (input) BWLDLimBandwidth :: BWLDMesgT where "BWLDLimBandwidth \<equiv> 1"
abbreviation (input) BWLDLimPending :: BWLDMesgT where "BWLDLimPending \<equiv> 2"
abbreviation (input) BWLDLimEventHorizon :: BWLDMesgT where "BWLDLimEventHorizon \<equiv> 3"
abbreviation (input) BWLDLimDuration :: BWLDMesgT where "BWLDLimDuration \<equiv> 4"
abbreviation (input) BWLDLimAllowOpenMode :: BWLDMesgT where "BWLDLimAllowOpenMode \<equiv> 5"
abbreviation (input) BWLDLimAllowTCP :: BWLDMesgT where "BWLDLimAllowTCP \<equiv> 6"
abbreviation (input) BWLDLimAllowUDP :: BWLDMesgT where "BWLDLimAllowUDP \<equiv> 7"
abbreviation (input) BWLDLimMaxTimeError :: BWLDMesgT where "BWLDLimMaxTimeError \<equiv> 8"
abbreviation (input) BWLDLimMinimumTTL :: BWLDMesgT where "BWLDLimMinimumTTL \<equiv> 9"
abbreviation (input) BWLDLimAllowNoEndpoint :: BWLDMesgT where "BWLDLimAllowNoEndpoint \<equiv> 10"

abbreviation (input) BWLDMESGREQUEST :: BWLDMesgT where "BWLDMESGREQUEST \<equiv> 0xfeed"
abbreviation (input) BWLDMESGRELEASE :: BWLDMesgT where "BWLDMESGRELEASE \<equiv> 0xdead"
abbreviation (input) BWLDMESGCLAIM :: BWLDMesgT where "BWLDMESGCLAIM \<equiv> 0x1feed1"

datatype limtype = LIMINT | LIMBOOL | LIMFIXEDINT | LIMNOT

record limdesc =
  ld_limit :: BWLDMesgT
  ld_lname :: string
  ld_ltype :: limtype
  ld_def_value :: BWLDLimitT

definition limdesc_of :: "BWLDMesgT \<Rightarrow> string \<Rightarrow> limtype \<Rightarrow> BWLDLimitT \<Rightarrow> limdesc" where
  "limdesc_of l n t d = \<lparr>ld_limit = l, ld_lname = n, ld_ltype = t, ld_def_value = d\<rparr>"

definition limkeys :: "limdesc list" where
  "limkeys =
    [limdesc_of BWLDLimParent ''parent'' LIMNOT 0,
     limdesc_of BWLDLimBandwidth ''bandwidth'' LIMFIXEDINT 0,
     limdesc_of BWLDLimPending ''pending'' LIMINT 0,
     limdesc_of BWLDLimEventHorizon ''event_horizon'' LIMFIXEDINT 0,
     limdesc_of BWLDLimDuration ''duration'' LIMFIXEDINT 0,
     limdesc_of BWLDLimAllowOpenMode ''allow_open_mode'' LIMBOOL 1,
     limdesc_of BWLDLimAllowTCP ''allow_tcp'' LIMBOOL 1,
     limdesc_of BWLDLimAllowUDP ''allow_udp'' LIMBOOL 0,
     limdesc_of BWLDLimMaxTimeError ''max_time_error'' LIMFIXEDINT 0,
     limdesc_of BWLDLimMinimumTTL ''minimum_ttl'' LIMFIXEDINT 0,
     limdesc_of BWLDLimAllowNoEndpoint ''allow_no_endpoint'' LIMBOOL 0]"

text \<open>The search loops over \<open>limkeys\<close>: the first entry with the name wins.\<close>

definition find_limkey :: "BWLDMesgT \<Rightarrow> limdesc option" where
  "find_limkey lim = find (\<lambda>k. ld_limit k = lim) limkeys"

definition GetDefLimit :: "BWLDMesgT \<Rightarrow> BWLDLimitT" where
  "GetDefLimit lim = (case find_limkey lim of Some k \<Rightarrow> ld_def_value k | None \<Rightarrow> 0)"

definition GetLimName :: "BWLDMesgT \<Rightarrow> string" where
  "GetLimName lim = (case find_limkey lim of Some k \<Rightarrow> ld_lname k | None \<Rightarrow> ''unknown'')"

definition limkind_of :: "BWLDMesgT \<Rightarrow> limtype" where
  "limkind_of lim = (case find_limkey lim of Some k \<Rightarrow> ld_ltype k | None \<Rightarrow> LIMNOT)"

section \<open>The nodes\<close>

record BWLDPolicyNode =
  nodename :: string
  parent :: "nat option"
  limits :: "BWLDLimRec list"
  used :: "BWLDLimRec list"

type_synonym nodes = "BWLDPolicyNode list"

fun lim_index :: "BWLDMesgT \<Rightarrow> BWLDLimRec list \<Rightarrow> nat option" where
  "lim_index lim [] = None"
| "lim_index lim (r # rs) =
    (if lim_limit r = lim then Some 0 else map_option Suc (lim_index lim rs))"

definition GetLimit :: "BWLDPolicyNode \<Rightarrow> BWLDMesgT \<Rightarrow> BWLDLimitT" where
  "GetLimit node lim = (case lim_index lim (limits node) of
       Some i \<Rightarrow> lim_value (limits node ! i) | None \<Rightarrow> GetDefLimit lim)"

definition GetUsed :: "BWLDPolicyNode \<Rightarrow> BWLDMesgT \<Rightarrow> BWLDLimitT" where
  "GetUsed node lim = (case lim_index lim (limits node) of
       Some i \<Rightarrow> lim_value (used node ! i) | None \<Rightarrow> 0)"

definition set_used :: "nodes \<Rightarrow> nat \<Rightarrow> nat \<Rightarrow> BWLDLimitT \<Rightarrow> nodes" where
  "set_used ns n i v = ns[n := (ns ! n)\<lparr>used := (used (ns ! n))
       [i := (used (ns ! n) ! i)\<lparr>lim_value := v\<rparr>]\<rparr>]"

section \<open>Resource demands\<close>

fun IntegerResourceDemand ::
  "nat \<Rightarrow> nodes \<Rightarrow> nat option \<Rightarrow> BWLDMesgT \<Rightarrow> BWLDLimRec \<Rightarrow> limtype \<Rightarrow> (bool \<times> nodes) option" where
  "IntegerResourceDemand fuel ns None query lim limkind = Some (True, ns)"
| "IntegerResourceDemand 0 ns (Some n) query lim limkind = None"
| "IntegerResourceDemand (Suc fuel) ns (Some n) query lim limkind =
    (case lim_index (lim_limit lim) (limits (ns ! n)) of
       None \<Rightarrow> if GetDefLimit (lim_limit lim) = 0 then Some (True, ns) else None
     | Some i \<Rightarrow>
        if lim_value (limits (ns ! n) ! i) = 0 then
          IntegerResourceDemand fuel ns (parent (ns ! n)) query lim limkind
        else if query = BWLDMESGRELEASE then
          if limkind = LIMFIXEDINT then Some (True, ns)
          else if lim_value lim > lim_value (used (ns ! n) ! i) then Some (False, ns)
          else (case IntegerResourceDemand fuel ns (parent (ns ! n)) query lim limkind of
             None \<Rightarrow> None
           | Some (False, ns') \<Rightarrow> Some (False, ns')
           | Some (True, ns') \<Rightarrow>
               Some (True, set_used ns' n i (lim_value (used (ns' ! n) ! i) - lim_value lim)))
        else if query = BWLDMESGCLAIM then Some (False, ns)
        else if query \<noteq> BWLDMESGREQUEST then Some (False, ns)
        else if float_of (lim_value lim + lim_value (used (ns ! n) ! i))
             > float_of (lim_value (limits (ns ! n) ! i)) then Some (False, ns)
        else (case IntegerResourceDemand fuel ns (parent (ns ! n)) query lim limkind of
             None \<Rightarrow> None
           | Some (False, ns') \<Rightarrow> Some (False, ns')
           | Some (True, ns') \<Rightarrow>
               Some (True, if limkind = LIMINT
                 then set_used ns' n i (lim_value (used (ns' ! n) ! i) + lim_value lim)
                 else ns')))"

definition BWLDGetFixedLimit :: "nodes \<Rightarrow> nat \<Rightarrow> BWLDMesgT \<Rightarrow> BWLDLimitT option" where
  "BWLDGetFixedLimit ns n limname =
    (if limkind_of limname = LIMBOOL \<or> limkind_of limname = LIMFIXEDINT
     then Some (GetLimit (ns ! n) limname) else None)"

definition BWLDResourceDemand ::
  "nodes \<Rightarrow> nat \<Rightarrow> BWLDMesgT \<Rightarrow> BWLDLimRec \<Rightarrow> (bool \<times> nodes) option" where
  "BWLDResourceDemand ns n query lim =
    (let limkind = limkind_of (lim_limit lim) in
     if limkind = LIMNOT then Some (False, ns)
     else if limkind = LIMBOOL then
       Some (GetLimit (ns ! n) (lim_limit lim) = lim_value lim, ns)
     else IntegerResourceDemand (Suc (length ns)) ns (Some n) query lim limkind)"

text \<open>
  A tree is well formed when every parent was created before its children and every node
  has one \<open>used\<close> entry per limit.
\<close>

definition tree_ok :: "nodes \<Rightarrow> bool" where
  "tree_ok ns = (\<forall>n < length ns.
     length (used (ns ! n)) = length (limits (ns ! n)) \<and>
     (case parent (ns ! n) of None \<Rightarrow> True | Some p \<Rightarrow> p < n))"

text \<open>
  The nodes a demand for \<open>lim\<close> has to satisfy: those on the way up, as far as every node has
  a record for it, whose limit is not zero (zero means unlimited).
\<close>

fun demand_path :: "nat \<Rightarrow> nodes \<Rightarrow> BWLDMesgT \<Rightarrow> nat option \<Rightarrow> nat list" where
  "demand_path fuel ns lim None = []"
| "demand_path 0 ns lim (Some n) = []"
| "demand_path (Suc fuel) ns lim (Some n) =
    (if lim_index lim (limits (ns ! n)) = None then []
     else if GetLimit (ns ! n) lim = 0 then demand_path fuel ns lim (parent (ns ! n))
     else n # demand_path fuel ns lim (parent (ns ! n)))"

abbreviation limiting_nodes :: "nodes \<Rightarrow> nat \<Rightarrow> BWLDMesgT \<Rightarrow> nat list" where
  "limiting_nodes ns n lim \<equiv> demand_path (Suc (length ns)) ns lim (Some n)"

definition with_used :: "BWLDMesgT \<Rightarrow> (BWLDLimitT \<Rightarrow> BWLDLimitT) \<Rightarrow> BWLDPolicyNode \<Rightarrow> BWLDPolicyNode" where
  "with_used lim f node = (case lim_index lim (limits node) of None \<Rightarrow> node
     | Some i \<Rightarrow> node\<lparr>used := (used node)[i := (used node ! i)\<lparr>lim_value := f (lim_value (used node ! i))\<rparr>]\<rparr>)"

definition update_nodes :: "nat set \<Rightarrow> (BWLDPolicyNode \<Rightarrow> BWLDPolicyNode) \<Rightarrow> nodes \<Rightarrow> nodes" where
  "update_nodes S f ns = map (\<lambda>n. if n \<in> S then f (ns ! n) else ns ! n) [0..<length ns]"

definition fits :: "BWLDMesgT \<Rightarrow> BWLDLimitT \<Rightarrow> BWLDPolicyNode \<Rightarrow> bool" where
  "fits lim v node = (float_of (v + GetUsed node lim) \<le> float_of (GetLimit node lim))"

section \<open>The walk up the tree\<close>

lemma length_update_nodes [simp]: "length (update_nodes S f ns) = length ns"
  by (simp add: update_nodes_def)

lemma nth_update_nodes [simp]:
  "n < length ns \<Longrightarrow> update_nodes S f ns ! n = (if n \<in> S then f (ns ! n) else ns ! n)"
  by (simp add: update_nodes_def)

lemma update_nodes_empty [simp]: "update_nodes {} f ns = ns"
  by (rule nth_equalityI) simp_all

lemma update_nodes_id [simp]: "update_nodes S (\<lambda>x. x) ns = ns"
  by (rule nth_equalityI) simp_all

lemma update_nodes_insert:
  assumes "n < length ns" and "n \<notin> S"
  shows "(update_nodes S f ns)[n := f (update_nodes S f ns ! n)] = update_nodes (insert n S) f ns"
  using assms by (intro nth_equalityI) (auto simp: nth_list_update)

lemma lim_index_bound: "lim_index lim rs = Some i \<Longrightarrow> i < length rs"
  by (induction rs arbitrary: i) (auto split: if_splits)

lemma set_used_with_used:
  assumes "lim_index lim (limits (ns ! n)) = Some i"
  shows "set_used ns n i (f (lim_value (used (ns ! n) ! i))) = ns[n := with_used lim f (ns ! n)]"
  using assms by (simp add: set_used_def with_used_def)

lemma limits_with_used [simp]:
  "limits (with_used lim f node) = limits node" "parent (with_used lim f node) = parent node"
  "length (used (with_used lim f node)) = length (used node)"
  by (simp_all add: with_used_def split: option.split)

lemma GetLimit_with_used [simp]: "GetLimit (with_used lim f node) l = GetLimit node l"
  by (simp add: GetLimit_def split: option.split)

lemma GetUsed_with_used:
  assumes "length (used node) = length (limits node)" and "lim_index lim (limits node) \<noteq> None"
  shows "GetUsed (with_used lim f node) lim = f (GetUsed node lim)"
  using assms lim_index_bound [of lim "limits node"] by (auto simp: GetUsed_def with_used_def)

lemma GetUsed_no_record [simp]: "lim_index lim (limits node) = None \<Longrightarrow> GetUsed node lim = 0"
  by (simp add: GetUsed_def)

lemma demand_path_bound: "tree_ok ns \<Longrightarrow> n < length ns \<Longrightarrow> m \<in> set (demand_path k ns lim (Some n)) \<Longrightarrow> m \<le> n"
proof (induction k arbitrary: n)
  case (Suc k)
  show ?case
  proof (cases "parent (ns ! n)")
    case None
    then show ?thesis using Suc.prems(3) by (auto split: if_splits)
  next
    case (Some p)
    then have "p < n" using Suc.prems by (auto simp: tree_ok_def split: option.splits)
    then show ?thesis using Suc.IH [of p] Suc.prems Some by (fastforce split: if_splits)
  qed
qed simp

lemma demand_path_record:
  "m \<in> set (demand_path k ns lim (Some n)) \<Longrightarrow>
   lim_index lim (limits (ns ! m)) \<noteq> None \<and> GetLimit (ns ! m) lim \<noteq> 0"
proof (induction k arbitrary: n)
  case (Suc k)
  then show ?case by (cases "parent (ns ! n)") (auto split: if_splits)
qed simp

text \<open>
  Requests and releases of a counted resource, and requests for a fixed one, walk up the
  tree in the same way: a node refuses, or passes the demand on to its parent and updates its
  own entry only when every ancestor agreed. The locale states that shape of the recursion
  and derives what the whole walk does.
\<close>

locale ledger_walk =
  fixes demand :: "nat \<Rightarrow> nodes \<Rightarrow> nat option \<Rightarrow> (bool \<times> nodes) option"
    and lim :: BWLDMesgT
    and ok :: "BWLDPolicyNode \<Rightarrow> bool"
    and upd :: "BWLDPolicyNode \<Rightarrow> BWLDPolicyNode"
  assumes at_root: "demand k ns None = Some (True, ns)"
    and no_record: "lim_index lim (limits (ns ! n)) = None \<Longrightarrow> GetDefLimit lim = 0 \<Longrightarrow>
      demand (Suc k) ns (Some n) = Some (True, ns)"
    and unlimited: "lim_index lim (limits (ns ! n)) \<noteq> None \<Longrightarrow> GetLimit (ns ! n) lim = 0 \<Longrightarrow>
      demand (Suc k) ns (Some n) = demand k ns (parent (ns ! n))"
    and refused: "lim_index lim (limits (ns ! n)) \<noteq> None \<Longrightarrow> GetLimit (ns ! n) lim \<noteq> 0 \<Longrightarrow>
      \<not> ok (ns ! n) \<Longrightarrow> demand (Suc k) ns (Some n) = Some (False, ns)"
    and refused_above: "lim_index lim (limits (ns ! n)) \<noteq> None \<Longrightarrow> GetLimit (ns ! n) lim \<noteq> 0 \<Longrightarrow>
      ok (ns ! n) \<Longrightarrow> demand k ns (parent (ns ! n)) = Some (False, ns') \<Longrightarrow>
      demand (Suc k) ns (Some n) = Some (False, ns')"
    and granted: "lim_index lim (limits (ns ! n)) \<noteq> None \<Longrightarrow> GetLimit (ns ! n) lim \<noteq> 0 \<Longrightarrow>
      ok (ns ! n) \<Longrightarrow> demand k ns (parent (ns ! n)) = Some (True, ns') \<Longrightarrow> ns' ! n = ns ! n \<Longrightarrow>
      demand (Suc k) ns (Some n) = Some (True, ns'[n := upd (ns' ! n)])"
begin

lemma demand_spec:
  assumes "tree_ok ns" and "GetDefLimit lim = 0"
  shows "n < length ns \<Longrightarrow> n < k \<Longrightarrow> demand k ns (Some n) = Some
      (if \<forall>m \<in> set (demand_path k ns lim (Some n)). ok (ns ! m)
       then (True, update_nodes (set (demand_path k ns lim (Some n))) upd ns) else (False, ns))"
proof (induction k arbitrary: n)
  case (Suc k)
  let ?path = "set (demand_path k ns lim (parent (ns ! n)))"
  have up: "demand k ns (parent (ns ! n)) = Some
      (if \<forall>m \<in> ?path. ok (ns ! m) then (True, update_nodes ?path upd ns) else (False, ns))
      \<and> n \<notin> ?path"
  proof (cases "parent (ns ! n)")
    case None
    then show ?thesis by (simp add: at_root)
  next
    case (Some p)
    then have "p < n" using assms(1) Suc.prems by (auto simp: tree_ok_def split: option.splits)
    then show ?thesis
      using Suc.IH [of p] demand_path_bound [OF assms(1), of p n k lim] Suc.prems Some by auto
  qed
  show ?case
  proof (cases "lim_index lim (limits (ns ! n)) = None \<or> GetLimit (ns ! n) lim = 0")
    case True
    then show ?thesis using no_record [of ns n k] unlimited [of ns n k] assms(2) up by auto
  next
    case False
    then have path: "set (demand_path (Suc k) ns lim (Some n)) = insert n ?path" by simp
    show ?thesis
    proof (cases "ok (ns ! n) \<and> (\<forall>m \<in> ?path. ok (ns ! m))")
      case True
      have "demand (Suc k) ns (Some n) =
          Some (True, (update_nodes ?path upd ns)[n := upd (update_nodes ?path upd ns ! n)])"
        using True False up Suc.prems(1) by (intro granted) auto
      then have "demand (Suc k) ns (Some n) = Some (True, update_nodes (insert n ?path) upd ns)"
        using up Suc.prems(1) update_nodes_insert [of n ns ?path upd] by simp
      then show ?thesis using True unfolding path by simp
    next
      case refuse: False
      then have "demand (Suc k) ns (Some n) = Some (False, ns)"
        using False up refused [of ns n k] refused_above [of ns n k] by (cases "ok (ns ! n)") auto
      then show ?thesis using refuse unfolding path by auto
    qed
  qed
qed simp

lemma demand_spec_full:
  assumes "tree_ok ns" and "GetDefLimit lim = 0" and "n < length ns"
  shows "demand (Suc (length ns)) ns (Some n) = Some
      (if \<forall>m \<in> set (limiting_nodes ns n lim). ok (ns ! m)
       then (True, update_nodes (set (limiting_nodes ns n lim)) upd ns) else (False, ns))"
  using assms by (intro demand_spec) simp_all

end

abbreviation LimRec :: "BWLDMesgT \<Rightarrow> BWLDLimitT \<Rightarrow> BWLDLimRec" where
  "LimRec l v \<equiv> \<lparr>lim_limit = l, lim_value = v\<rparr>"

interpretation request: ledger_walk
  "\<lambda>k ns n. IntegerResourceDemand k ns n BWLDMESGREQUEST (LimRec l v) LIMINT"
  l "fits l v" "with_used l (\<lambda>u. u + v)" for l v
  by unfold_locales
    (auto simp: GetLimit_def GetUsed_def fits_def not_less set_used_def with_used_def
      split: option.splits)

interpretation fixed: ledger_walk
  "\<lambda>k ns n. IntegerResourceDemand k ns n BWLDMESGREQUEST (LimRec l v) LIMFIXEDINT"
  l "fits l v" "\<lambda>x. x" for l v
  by unfold_locales
    (auto simp: GetLimit_def GetUsed_def fits_def not_less split: option.splits,
      metis list_update_id)

interpretation release: ledger_walk
  "\<lambda>k ns n. IntegerResourceDemand k ns n BWLDMESGRELEASE (LimRec l v) LIMINT"
  l "\<lambda>node. v \<le> GetUsed node l" "with_used l (\<lambda>u. u - v)" for l v
  by unfold_locales
    (auto simp: GetLimit_def GetUsed_def not_less set_used_def with_used_def
      split: option.splits)

section \<open>What a demand does\<close>

lemma limkind_def0: "limkind_of l = LIMINT \<or> limkind_of l = LIMFIXEDINT \<Longrightarrow> GetDefLimit l = 0"
  by (auto simp: limkind_of_def GetDefLimit_def find_limkey_def limkeys_def limdesc_of_def
      split: if_splits)

lemma limkind_pending [simp]: "limkind_of BWLDLimPending = LIMINT"
  by (simp add: limkind_of_def find_limkey_def limkeys_def limdesc_of_def)

lemma demand_other_query:
  "query \<noteq> BWLDMESGREQUEST \<Longrightarrow> query \<noteq> BWLDMESGRELEASE \<Longrightarrow>
   IntegerResourceDemand k ns p query lm kind = Some (r, ns') \<Longrightarrow> ns' = ns"
  by (induction k ns p query lm kind rule: IntegerResourceDemand.induct)
    (auto split: option.splits if_splits)

lemma demand_fixed_release:
  "IntegerResourceDemand k ns p BWLDMESGRELEASE lm LIMFIXEDINT = Some (r, ns') \<Longrightarrow> ns' = ns"
  by (induction k ns p "BWLDMESGRELEASE" lm LIMFIXEDINT rule: IntegerResourceDemand.induct)
    (auto split: option.splits if_splits)

declare IntegerResourceDemand.simps(3) [simp del] demand_path.simps(3) [simp del]

lemma demand_cases:
  assumes "tree_ok ns" and "n < length ns"
    and run: "BWLDResourceDemand ns n query (LimRec l v) = Some (r, ns')"
  obtains (same) "ns' = ns" "limkind_of l = LIMINT \<Longrightarrow> r \<Longrightarrow> query \<noteq> BWLDMESGREQUEST \<and> query \<noteq> BWLDMESGRELEASE"
  | (request) "limkind_of l = LIMINT" "ns' = update_nodes (set (limiting_nodes ns n l)) (with_used l (\<lambda>u. u + v)) ns"
      "\<forall>m \<in> set (limiting_nodes ns n l). fits l v (ns ! m)" "query = BWLDMESGREQUEST" "r"
  | (release) "limkind_of l = LIMINT" "ns' = update_nodes (set (limiting_nodes ns n l)) (with_used l (\<lambda>u. u - v)) ns"
      "\<forall>m \<in> set (limiting_nodes ns n l). v \<le> GetUsed (ns ! m) l" "query = BWLDMESGRELEASE" "r"
proof (cases "limkind_of l")
  case LIMINT
  note def0 = limkind_def0 [OF disjI1, OF LIMINT]
  consider "query = BWLDMESGREQUEST" | "query = BWLDMESGRELEASE"
    | "query \<noteq> BWLDMESGREQUEST" "query \<noteq> BWLDMESGRELEASE" by blast
  then show ?thesis
  proof cases
    case 1
    then show ?thesis
      using run LIMINT request.demand_spec_full [OF assms(1) def0 assms(2), of v] that(1,2)
      by (auto simp: BWLDResourceDemand_def split: if_splits)
  next
    case 2
    then show ?thesis
      using run LIMINT release.demand_spec_full [OF assms(1) def0 assms(2), of v] that(1,3)
      by (auto simp: BWLDResourceDemand_def split: if_splits)
  next
    case 3
    then show ?thesis using run LIMINT demand_other_query that(1)
      by (auto simp: BWLDResourceDemand_def)
  qed
next
  case LIMFIXEDINT
  note def0 = limkind_def0 [OF disjI2, OF LIMFIXEDINT]
  have "ns' = ns"
    using run LIMFIXEDINT fixed.demand_spec_full [OF assms(1) def0 assms(2), of v]
      demand_fixed_release demand_other_query
    by (cases "query = BWLDMESGREQUEST"; cases "query = BWLDMESGRELEASE")
      (auto simp: BWLDResourceDemand_def split: if_splits)
  then show ?thesis using LIMFIXEDINT by (intro that(1)) simp_all
qed (use run that(1) in \<open>auto simp: BWLDResourceDemand_def\<close>)

section \<open>The books stay within the limits\<close>

lemma lim_index_name: "lim_index l rs = Some i \<Longrightarrow> lim_limit (rs ! i) = l"
  by (induction rs arbitrary: i) (auto split: if_splits)

lemma GetUsed_with_used_other:
  assumes "l \<noteq> l'"
  shows "GetUsed (with_used l' f node) l = GetUsed node l"
proof (cases "lim_index l (limits node)"; cases "lim_index l' (limits node)")
  fix i i'
  assume i: "lim_index l (limits node) = Some i" and i': "lim_index l' (limits node) = Some i'"
  then have "i \<noteq> i'" using assms lim_index_name by metis
  then show ?thesis by (simp add: GetUsed_def with_used_def i i')
qed (simp_all add: GetUsed_def with_used_def)

lemma tree_ok_update: "tree_ok ns \<Longrightarrow> tree_ok (update_nodes S (with_used l f) ns)"
  by (auto simp: tree_ok_def)

lemma limiting_node:
  assumes "tree_ok ns" and "n < length ns" and "m \<in> set (limiting_nodes ns n l)"
  shows "m < length ns" and "length (used (ns ! m)) = length (limits (ns ! m))"
    and "lim_index l (limits (ns ! m)) \<noteq> None"
  using demand_path_bound [OF assms] demand_path_record [OF assms(3)] assms(1,2)
  by (auto simp: tree_ok_def)

lemma GetUsed_update_nodes:
  assumes "tree_ok ns" and "n < length ns" and "m < length ns"
  shows "GetUsed (update_nodes (set (limiting_nodes ns n l)) (with_used l f) ns ! m) l' =
    (if m \<in> set (limiting_nodes ns n l) \<and> l' = l then f (GetUsed (ns ! m) l) else GetUsed (ns ! m) l')"
  using limiting_node [OF assms(1,2)] assms(3)
  by (auto simp: GetUsed_with_used GetUsed_with_used_other)

text \<open>
  The bound that the \<open>float\<close> comparison can enforce, and the exact one it enforces for limits
  that a \<open>float\<close> represents.
\<close>

definition node_within :: "BWLDPolicyNode \<Rightarrow> BWLDMesgT \<Rightarrow> bool" where
  "node_within node l = (GetLimit node l = 0 \<or>
     (2 ^ 24 - 1) * unat (GetUsed node l) \<le> (2 ^ 24 + 1) * unat (GetLimit node l) \<and>
     (unat (GetLimit node l) < 2 ^ 24 \<longrightarrow> GetUsed node l \<le> GetLimit node l))"

definition within_limits :: "nodes \<Rightarrow> bool" where
  "within_limits ns = (\<forall>n < length ns. \<forall>l. limkind_of l = LIMINT \<longrightarrow> node_within (ns ! n) l)"

lemma float_le_bounds:
  assumes "float_of u \<le> float_of w"
  shows "(2 ^ 24 - 1) * unat u \<le> (2 ^ 24 + 1) * unat w \<and> (unat w < 2 ^ 24 \<longrightarrow> u \<le> w)"
proof (intro conjI impI)
  have "2 ^ 24 * unat u \<le> 2 ^ 24 * float_of u + unat u"
    "2 ^ 24 * float_of w \<le> (2 ^ 24 + 1) * unat w"
    using round_bits_error [of 24] by (simp_all add: float_of_def)
  then show "(2 ^ 24 - 1) * unat u \<le> (2 ^ 24 + 1) * unat w" using assms by simp
  show "u \<le> w" if "unat w < 2 ^ 24"
    using assms float_of_less_iff [OF that, of u] by (simp add: not_less [symmetric])
qed

lemma within_request:
  assumes "fits l v node" and "node_within node l"
  shows "GetLimit node l = 0 \<or> (2 ^ 24 - 1) * unat (GetUsed node l + v) \<le> (2 ^ 24 + 1) * unat (GetLimit node l) \<and>
     (unat (GetLimit node l) < 2 ^ 24 \<longrightarrow> GetUsed node l + v \<le> GetLimit node l)"
  using assms float_le_bounds [of "GetUsed node l + v" "GetLimit node l"]
  by (simp add: fits_def add.commute)

lemma within_release:
  assumes "v \<le> GetUsed node l" and "node_within node l"
  shows "GetLimit node l = 0 \<or> (2 ^ 24 - 1) * unat (GetUsed node l - v) \<le> (2 ^ 24 + 1) * unat (GetLimit node l) \<and>
     (unat (GetLimit node l) < 2 ^ 24 \<longrightarrow> GetUsed node l - v \<le> GetLimit node l)"
proof -
  have "unat (GetUsed node l - v) = unat (GetUsed node l) - unat v"
    using assms(1) by (simp add: unat_sub)
  then show ?thesis using assms(2) by (auto simp: node_within_def word_le_nat_alt)
qed

lemma demand_keeps:
  assumes "tree_ok ns" and "within_limits ns" and "n < length ns"
    and "BWLDResourceDemand ns n query (LimRec l v) = Some (r, ns')"
  shows "tree_ok ns' \<and> within_limits ns' \<and> length ns' = length ns"
  using assms(1,3,4)
proof (cases rule: demand_cases)
  case same
  then show ?thesis using assms by simp
next
  case request
  have "node_within (ns' ! m) l'" if m: "m < length ns" and l': "limkind_of l' = LIMINT" for m l'
  proof -
    have nw: "node_within (ns ! m) l'" using assms(2) m l' by (simp add: within_limits_def)
    have "GetLimit (ns' ! m) l' = GetLimit (ns ! m) l'" using m by (simp add: request(2))
    moreover note GetUsed_update_nodes [OF assms(1,3) m, of l "\<lambda>u. u + v" l', folded request(2)]
    ultimately show ?thesis
      using nw within_request [of l v "ns ! m"] request(3) by (auto simp: node_within_def)
  qed
  then show ?thesis using assms(1) request(2) by (simp add: tree_ok_update within_limits_def)
next
  case release
  have "node_within (ns' ! m) l'" if m: "m < length ns" and l': "limkind_of l' = LIMINT" for m l'
  proof -
    have nw: "node_within (ns ! m) l'" using assms(2) m l' by (simp add: within_limits_def)
    have "GetLimit (ns' ! m) l' = GetLimit (ns ! m) l'" using m by (simp add: release(2))
    moreover note GetUsed_update_nodes [OF assms(1,3) m, of l "\<lambda>u. u - v" l', folded release(2)]
    ultimately show ?thesis
      using nw within_release [of v "ns ! m" l] release(3) by (auto simp: node_within_def)
  qed
  then show ?thesis using assms(1) release(2) by (simp add: tree_ok_update within_limits_def)
qed

section \<open>Properties of the accounting\<close>

text \<open>
  C6. A request for a counted resource (\<open>BWLDMESGREQUEST\<close> on a \<open>LIMINT\<close> limit) always returns,
  and it is atomic over the tree: it is granted exactly when every limiting node on the way up
  has room for it, then all of them are charged and no other node changes; when one of them
  refuses, the whole tree is left as it was.
\<close>

theorem request_all_or_nothing:
  assumes "tree_ok ns" and "n < length ns" and "limkind_of l = LIMINT"
  shows "BWLDResourceDemand ns n BWLDMESGREQUEST (LimRec l v) = Some
    (if \<forall>m \<in> set (limiting_nodes ns n l).
          float_of (v + GetUsed (ns ! m) l) \<le> float_of (GetLimit (ns ! m) l)
     then (True, update_nodes (set (limiting_nodes ns n l)) (with_used l (\<lambda>u. u + v)) ns)
     else (False, ns))"
  using request.demand_spec_full [OF assms(1) limkind_def0 [OF disjI1, OF assms(3)] assms(2)]
    assms(3)
  by (simp add: BWLDResourceDemand_def fits_def)

definition sample_tree :: nodes where
  "sample_tree =
    [\<lparr>nodename = ''root'', parent = None, limits = [LimRec BWLDLimPending 2],
      used = [LimRec BWLDLimPending 0]\<rparr>,
     \<lparr>nodename = ''guest'', parent = Some 0, limits = [LimRec BWLDLimPending 1, LimRec BWLDLimDuration 30],
      used = [LimRec BWLDLimPending 0, LimRec BWLDLimDuration 0]\<rparr>]"

lemma sample_tree_ok: "tree_ok sample_tree" "length sample_tree = 2"
  by (auto simp: tree_ok_def sample_tree_def nth_Cons split: nat.splits)

lemma sample_values:
  "GetLimit (sample_tree ! 0) BWLDLimPending = 2" "GetLimit (sample_tree ! Suc 0) BWLDLimPending = 1"
  "GetUsed (sample_tree ! 0) BWLDLimPending = 0" "GetUsed (sample_tree ! Suc 0) BWLDLimPending = 0"
  by (simp_all add: sample_tree_def GetLimit_def GetUsed_def)

lemma sample_path: "set (demand_path 3 sample_tree BWLDLimPending (Some (Suc 0))) = {0, Suc 0}"
  by (auto simp: sample_tree_def numeral_3_eq_3 demand_path.simps GetLimit_def)

theorem request_all_or_nothing_witness:
  "fst (the (BWLDResourceDemand sample_tree 1 BWLDMESGREQUEST (LimRec BWLDLimPending 1))) = True \<and>
   BWLDResourceDemand sample_tree 1 BWLDMESGREQUEST (LimRec BWLDLimPending 2) = Some (False, sample_tree)"
  using request_all_or_nothing [of sample_tree 1 BWLDLimPending 1, OF sample_tree_ok(1)]
    request_all_or_nothing [of sample_tree 1 BWLDLimPending 2, OF sample_tree_ok(1)]
    sample_tree_ok(2)
  by (simp add: sample_path sample_values)

section \<open>The ledger\<close>

text \<open>
  The tree of classes under any sequence of demands. What the classes have given away is also kept in a
  ledger that is not part of the code: for every node and resource the amounts granted less the amounts
  released, as integers without a width. A step has a bound \<open>A\<close> on the amounts asked for, so that runs
  with arbitrary amounts (\<open>A = 2 ^ 64\<close>) and runs with small ones can both be described.
\<close>

inductive policy_step :: "nodes \<Rightarrow> nodes \<Rightarrow> bool" where
  demand: "n < length ns \<Longrightarrow> BWLDResourceDemand ns n query (LimRec l v) = Some (r, ns') \<Longrightarrow>
    policy_step ns ns'"

inductive_cases policy_stepE: "policy_step ns ns'"

type_synonym ledger = "nat \<Rightarrow> BWLDMesgT \<Rightarrow> int"

abbreviation empty_ledger :: ledger where
  "empty_ledger \<equiv> \<lambda>_ _. 0"

definition ledger_entry :: "nodes \<Rightarrow> nat \<Rightarrow> BWLDMesgT \<Rightarrow> BWLDLimRec \<Rightarrow> bool \<Rightarrow> ledger \<Rightarrow> ledger" where
  "ledger_entry ns n query lim granted L = (\<lambda>m l.
     if granted \<and> l = lim_limit lim \<and> limkind_of l = LIMINT \<and> m \<in> set (limiting_nodes ns n l)
     then if query = BWLDMESGREQUEST then L m l + uint (lim_value lim)
       else if query = BWLDMESGRELEASE then L m l - uint (lim_value lim) else L m l
     else L m l)"

inductive ledger_step :: "nat \<Rightarrow> nodes \<times> ledger \<Rightarrow> nodes \<times> ledger \<Rightarrow> bool" for A where
  demand: "n < length ns \<Longrightarrow> (query = BWLDMESGREQUEST \<Longrightarrow> unat (lim_value lim) < A) \<Longrightarrow>
    BWLDResourceDemand ns n query lim = Some (granted, ns') \<Longrightarrow>
    ledger_step A (ns, L) (ns', ledger_entry ns n query lim granted L)"

definition nothing_used :: "nodes \<Rightarrow> bool" where
  "nothing_used ns = (\<forall>n < length ns. \<forall>r \<in> set (used (ns ! n)). lim_value r = 0)"

lemma nothing_usedD:
  assumes "tree_ok ns" and "nothing_used ns" and "n < length ns"
  shows "GetUsed (ns ! n) l = 0"
proof (cases "lim_index l (limits (ns ! n))")
  case (Some i)
  then have "i < length (used (ns ! n))"
    using assms(1,3) lim_index_bound [OF Some] by (simp add: tree_ok_def)
  then show ?thesis using assms(2,3) Some by (simp add: nothing_used_def GetUsed_def)
qed simp

lemma nothing_used_within: "tree_ok ns \<Longrightarrow> nothing_used ns \<Longrightarrow> within_limits ns"
  by (simp add: within_limits_def node_within_def nothing_usedD)

text \<open>
  The counter of the code is the entry of the ledger modulo \<open>2 ^ 64\<close>, and the entry itself where
  the sum of an amount asked for and the counter cannot reach \<open>2 ^ 64\<close>.
\<close>

definition accounted :: "nat \<Rightarrow> nodes \<Rightarrow> ledger \<Rightarrow> bool" where
  "accounted A ns L = (\<forall>m < length ns. \<forall>l. limkind_of l = LIMINT \<longrightarrow>
     word_of_int (L m l) = GetUsed (ns ! m) l \<and>
     (A + 2 * unat (GetLimit (ns ! m) l) \<le> 2 ^ 64 \<longrightarrow> L m l = uint (GetUsed (ns ! m) l)))"

lemma accounted_start: "tree_ok ns \<Longrightarrow> nothing_used ns \<Longrightarrow> accounted A ns empty_ledger"
  by (simp add: accounted_def nothing_usedD)

lemma node_within_twice:
  "node_within node l \<Longrightarrow> GetLimit node l \<noteq> 0 \<Longrightarrow> unat (GetUsed node l) \<le> 2 * unat (GetLimit node l)"
  by (auto simp: node_within_def)

lemma uint_add_small:
  assumes "unat (u :: u64) + unat v < 2 ^ 64"
  shows "uint (u + v) = uint u + uint v"
proof -
  have "int (unat u + unat v) < int (2 ^ 64)" using assms by (simp only: of_nat_less_iff)
  then have "uint u + uint v < 2 ^ LENGTH(64)" by simp
  then show ?thesis by (simp only: uint_add_lem)
qed

lemma uint_sub_small: "v \<le> u \<Longrightarrow> uint (u - v) = uint u - uint (v :: u64)"
  by (simp add: uint_sub_lem word_le_def)

lemma demand_accounted:
  assumes "accounted A ns L" and t: "tree_ok ns" and w: "within_limits ns" and n: "n < length ns"
    and small: "query = BWLDMESGREQUEST \<Longrightarrow> unat (lim_value lim) < A"
    and run: "BWLDResourceDemand ns n query lim = Some (granted, ns')"
  shows "accounted A ns' (ledger_entry ns n query lim granted L)"
proof -
  obtain l v where lim: "lim = LimRec l v" by (cases lim) simp
  have acc: "word_of_int (L m k) = GetUsed (ns ! m) k"
      "A + 2 * unat (GetLimit (ns ! m) k) \<le> 2 ^ 64 \<Longrightarrow> L m k = uint (GetUsed (ns ! m) k)"
    if "m < length ns" "limkind_of k = LIMINT" for m k
    using assms(1) that by (simp_all add: accounted_def)
  note used = GetUsed_update_nodes [OF t n]
  from t n run [unfolded lim] show ?thesis
  proof (cases rule: demand_cases)
    case same
    then have "ledger_entry ns n query lim granted L = L" by (auto simp: ledger_entry_def lim fun_eq_iff)
    then show ?thesis using assms(1) same(1) by simp
  next
    case request
    have "unat (GetUsed (ns ! m) l) + unat v < 2 ^ 64"
      if m: "m \<in> set (limiting_nodes ns n l)" and A: "A + 2 * unat (GetLimit (ns ! m) l) \<le> 2 ^ 64" for m
    proof -
      have "node_within (ns ! m) l" using w limiting_node(1) [OF t n m] request(1) by (simp add: within_limits_def)
      then have "unat (GetUsed (ns ! m) l) \<le> 2 * unat (GetLimit (ns ! m) l)"
        using node_within_twice demand_path_record [OF m] by blast
      then show ?thesis using A small request(4) lim by simp
    qed
    then show ?thesis
      using acc used request(1,4,5)
      by (auto simp: accounted_def ledger_entry_def lim request(2) uint_add_small wi_hom_add [symmetric])
  next
    case release
    then show ?thesis
      using acc used
      by (auto simp: accounted_def ledger_entry_def lim uint_sub_small wi_hom_sub [symmetric])
  qed
qed

lemma ledger_reachable:
  assumes "(ledger_step A)\<^sup>*\<^sup>* (ns, L) (ns', L')" and "tree_ok ns" and "within_limits ns" and "accounted A ns L"
  shows "tree_ok ns' \<and> within_limits ns' \<and> accounted A ns' L'"
  using assms
proof (induction rule: rtranclp_induct2)
  case (step a La b Lb)
  then have ok: "tree_ok a" "within_limits a" "accounted A a La" by simp_all
  from step(2) show ?case
  proof (cases rule: ledger_step.cases)
    case (demand n query lim granted)
    have "lim = LimRec (lim_limit lim) (lim_value lim)" by simp
    then show ?thesis
      using demand_keeps [OF ok(1,2) demand(2)] demand_accounted [OF ok(3,1,2) demand(2)] demand by metis
  qed
qed simp

text \<open>
  What the two invariants say of one class and resource: the bound on the counter, the counter as the
  ledger modulo \<open>2 ^ 64\<close>, and the bound on the amounts given away where the counter cannot wrap.
\<close>

definition grants_bounded :: "nat \<Rightarrow> BWLDPolicyNode \<Rightarrow> BWLDMesgT \<Rightarrow> int \<Rightarrow> bool" where
  "grants_bounded A node l given =
     ((2 ^ 24 - 1) * unat (GetUsed node l) \<le> (2 ^ 24 + 1) * unat (GetLimit node l) \<and>
      (unat (GetLimit node l) < 2 ^ 24 \<longrightarrow> GetUsed node l \<le> GetLimit node l) \<and>
      GetUsed node l = word_of_int given \<and>
      (A + 2 * unat (GetLimit node l) \<le> 2 ^ 64 \<longrightarrow>
        0 \<le> given \<and> (2 ^ 24 - 1) * given \<le> (2 ^ 24 + 1) * uint (GetLimit node l) \<and>
        (unat (GetLimit node l) < 2 ^ 24 \<longrightarrow> given \<le> uint (GetLimit node l))))"

lemma accounted_bounded:
  assumes "within_limits ns" and "accounted A ns L" and "n < length ns" and "limkind_of l = LIMINT"
    and "GetLimit (ns ! n) l \<noteq> 0"
  shows "grants_bounded A (ns ! n) l (L n l)"
proof -
  let ?u = "GetUsed (ns ! n) l" and ?c = "GetLimit (ns ! n) l"
  have w: "(2 ^ 24 - 1) * unat ?u \<le> (2 ^ 24 + 1) * unat ?c" "unat ?c < 2 ^ 24 \<Longrightarrow> ?u \<le> ?c"
    using assms(1,3-5) by (auto simp: within_limits_def node_within_def)
  have "int ((2 ^ 24 - 1) * unat ?u) \<le> int ((2 ^ 24 + 1) * unat ?c)" using w(1) by (simp only: of_nat_le_iff)
  then have "(2 ^ 24 - 1) * uint ?u \<le> (2 ^ 24 + 1) * uint ?c" by simp
  then show ?thesis
    using assms(2-4) w by (auto simp: grants_bounded_def accounted_def word_le_def)
qed

text \<open>
  Without the bound on the amounts the ledger is not bounded: an amount that completes the counters to
  \<open>2 ^ 64\<close> is granted at every limit, and the counters start again at zero.
\<close>

lemma wrapping_request_granted:
  assumes "tree_ok ns" and "n < length ns" and "limkind_of l = LIMINT"
    and "\<forall>m \<in> set (limiting_nodes ns n l). GetUsed (ns ! m) l = u"
  shows "\<exists>ns'. BWLDResourceDemand ns n BWLDMESGREQUEST (LimRec l (- u)) = Some (True, ns') \<and>
    (\<forall>m \<in> set (limiting_nodes ns n l). GetUsed (ns' ! m) l = 0)"
proof -
  have "\<forall>m \<in> set (limiting_nodes ns n l). fits l (- u) (ns ! m)" using assms(4) by (simp add: fits_def)
  then have "BWLDResourceDemand ns n BWLDMESGREQUEST (LimRec l (- u)) =
      Some (True, update_nodes (set (limiting_nodes ns n l)) (with_used l (\<lambda>w. w + - u)) ns)"
    using request.demand_spec_full [OF assms(1) limkind_def0 [OF disjI1, OF assms(3)] assms(2), of "- u"] assms(3)
    by (simp add: BWLDResourceDemand_def)
  moreover have "GetUsed (update_nodes (set (limiting_nodes ns n l)) (with_used l (\<lambda>w. w + - u)) ns ! m) l = 0"
    if m: "m \<in> set (limiting_nodes ns n l)" for m
    unfolding GetUsed_update_nodes [OF assms(1,2) limiting_node(1) [OF assms(1,2) m]] using m assms(4) by simp
  ultimately show ?thesis by blast
qed

text \<open>
  C7. However a sequence of demands is interleaved over the tree, with any limit, amount and
  query, the counter of a class for a counted resource stays within its limit: exactly when that is below
  \<open>2 ^ 24\<close>, and above up to the relative error \<open>2 / (2 ^ 24 - 1)\<close> of the \<open>float\<close> comparison. The counter is
  what the class has given away modulo \<open>2 ^ 64\<close>; when the amounts asked for are below \<open>A\<close> and
  \<open>A + 2 * limit \<le> 2 ^ 64\<close> (a child of the daemon asks for one pending test at a time) it is what the class
  has given away, which then is within the limit too. For larger amounts it is not
  (\<open>wrapping_request_granted\<close>).
\<close>

theorem grants_within_limits:
  assumes "tree_ok ns" and "nothing_used ns" and "(ledger_step A)\<^sup>*\<^sup>* (ns, empty_ledger) (ns', L)"
    and "n < length ns'" and "limkind_of l = LIMINT" and "GetLimit (ns' ! n) l \<noteq> 0"
  shows "(2 ^ 24 - 1) * unat (GetUsed (ns' ! n) l) \<le> (2 ^ 24 + 1) * unat (GetLimit (ns' ! n) l) \<and>
    (unat (GetLimit (ns' ! n) l) < 2 ^ 24 \<longrightarrow> GetUsed (ns' ! n) l \<le> GetLimit (ns' ! n) l) \<and>
    GetUsed (ns' ! n) l = word_of_int (L n l) \<and>
    (A + 2 * unat (GetLimit (ns' ! n) l) \<le> 2 ^ 64 \<longrightarrow>
      0 \<le> L n l \<and> (2 ^ 24 - 1) * L n l \<le> (2 ^ 24 + 1) * uint (GetLimit (ns' ! n) l) \<and>
      (unat (GetLimit (ns' ! n) l) < 2 ^ 24 \<longrightarrow> L n l \<le> uint (GetLimit (ns' ! n) l)))"
  using accounted_bounded [OF _ _ assms(4-6), unfolded grants_bounded_def]
    ledger_reachable [OF assms(3,1) nothing_used_within [OF assms(1,2)] accounted_start [OF assms(1,2)]]
  by blast

lemma sample_nothing_used: "nothing_used sample_tree"
  by (auto simp: nothing_used_def sample_tree_def nth_Cons split: nat.splits)

text \<open>The sample tree after one pending test of the guest class.\<close>

lemma sample_grant:
  obtains ns' where "BWLDResourceDemand sample_tree 1 BWLDMESGREQUEST (LimRec BWLDLimPending 1) = Some (True, ns')"
    "length ns' = 2" "\<forall>m < 2. \<forall>l. GetLimit (ns' ! m) l = GetLimit (sample_tree ! m) l"
proof -
  have "(1 :: nat) < length sample_tree" using sample_tree_ok(2) by simp
  then have "BWLDResourceDemand sample_tree 1 BWLDMESGREQUEST (LimRec BWLDLimPending 1) =
      Some (True, update_nodes {0, Suc 0} (with_used BWLDLimPending (\<lambda>u. u + 1)) sample_tree)"
    using request.demand_spec_full [OF sample_tree_ok(1) limkind_def0 [OF disjI1], of BWLDLimPending 1 1] sample_tree_ok(2)
    by (simp add: BWLDResourceDemand_def sample_path sample_values fits_def)
  then show ?thesis by (rule that) (simp_all add: sample_tree_ok)
qed

theorem grants_within_limits_witness:
  "\<exists>ns' L. (ledger_step 2)\<^sup>*\<^sup>* (sample_tree, empty_ledger) (ns', L) \<and> L 1 BWLDLimPending = 1 \<and>
     L 1 BWLDLimPending \<le> uint (GetLimit (ns' ! 1) BWLDLimPending) \<and> GetUsed (ns' ! 1) BWLDLimPending = 1"
proof -
  obtain ns' where run: "BWLDResourceDemand sample_tree 1 BWLDMESGREQUEST (LimRec BWLDLimPending 1) = Some (True, ns')"
    "length ns' = 2" "\<forall>m < 2. \<forall>l. GetLimit (ns' ! m) l = GetLimit (sample_tree ! m) l"
    by (rule sample_grant)
  define L where "L = ledger_entry sample_tree 1 BWLDMESGREQUEST (LimRec BWLDLimPending 1) True empty_ledger"
  have r: "(ledger_step 2)\<^sup>*\<^sup>* (sample_tree, empty_ledger) (ns', L)"
    unfolding L_def by (intro r_into_rtranclp ledger_step.demand [OF _ _ run(1)]) (simp_all add: sample_tree_ok)
  have L: "L 1 BWLDLimPending = 1" by (simp add: L_def ledger_entry_def sample_tree_ok sample_path)
  have l: "GetLimit (ns' ! 1) BWLDLimPending = 1" using run(3) by (simp add: sample_values)
  show ?thesis
    using grants_within_limits [OF sample_tree_ok(1) sample_nothing_used r, of 1 BWLDLimPending] run(2) r L l
    by (intro exI [of _ ns'] exI [of _ L]) simp
qed

text \<open>
  Releasing what was granted gives back the books exactly: after a granted request the
  release of the same amount at the same node succeeds and restores every node of the tree
  (as long as the counters of the limiting nodes did not wrap around).
\<close>

lemma demand_path_update:
  "tree_ok ns \<Longrightarrow> n < length ns \<Longrightarrow>
   demand_path k (update_nodes S (with_used l f) ns) l' (Some n) = demand_path k ns l' (Some n)"
proof (induction k arbitrary: n)
  case (Suc k)
  have "demand_path k (update_nodes S (with_used l f) ns) l' (parent (ns ! n)) =
      demand_path k ns l' (parent (ns ! n))"
  proof (cases "parent (ns ! n)")
    case (Some p)
    then have "p < n" using Suc.prems by (auto simp: tree_ok_def split: option.splits)
    then show ?thesis using Suc Some by simp
  qed simp
  then show ?case using Suc.prems by (auto simp: demand_path.simps)
qed simp

lemma update_nodes_inverse:
  assumes "\<forall>m \<in> S. m < length ns \<longrightarrow> g (f (ns ! m)) = ns ! m"
  shows "update_nodes S g (update_nodes S f ns) = ns"
  using assms by (intro nth_equalityI) auto

lemma with_used_inverse:
  assumes "length (used node) = length (limits node)"
  shows "with_used l (\<lambda>u. u - v) (with_used l (\<lambda>u. u + v) node) = node"
proof (cases "lim_index l (limits node)")
  case (Some i)
  then have "i < length (used node)" using assms lim_index_bound by metis
  then show ?thesis using Some by (simp add: with_used_def)
qed (simp add: with_used_def)

lemma release_undoes_request:
  assumes "tree_ok ns" and "n < length ns" and "limkind_of l = LIMINT"
    and "BWLDResourceDemand ns n BWLDMESGREQUEST (LimRec l v) = Some (True, ns')"
    and nowrap: "\<forall>m \<in> set (limiting_nodes ns n l). unat (GetUsed (ns ! m) l) + unat v < 2 ^ 64"
  shows "BWLDResourceDemand ns' n BWLDMESGRELEASE (LimRec l v) = Some (True, ns)"
proof -
  let ?S = "set (limiting_nodes ns n l)"
  note def0 = limkind_def0 [OF disjI1, OF assms(3)]
  have ns': "ns' = update_nodes ?S (with_used l (\<lambda>u. u + v)) ns"
    using assms(3,4) request.demand_spec_full [OF assms(1) def0 assms(2), of v]
    by (auto simp: BWLDResourceDemand_def split: if_splits)
  have t': "tree_ok ns'" "n < length ns'" using assms(1,2) by (simp_all add: ns' tree_ok_update)
  have path: "limiting_nodes ns' n l = limiting_nodes ns n l"
    using demand_path_update [OF assms(1,2)] by (simp add: ns')
  have "v \<le> GetUsed (ns' ! m) l" if "m \<in> ?S" for m
  proof -
    have "GetUsed (ns' ! m) l = GetUsed (ns ! m) l + v"
      using that limiting_node [OF assms(1,2) that] by (simp add: ns' GetUsed_with_used)
    then show ?thesis using nowrap that by (simp add: word_le_nat_alt unat_plus_noov)
  qed
  moreover have "update_nodes ?S (with_used l (\<lambda>u. u - v)) ns' = ns"
    unfolding ns' using limiting_node(2) [OF assms(1,2)]
    by (intro update_nodes_inverse) (simp add: with_used_inverse)
  ultimately show ?thesis
    using release.demand_spec_full [OF t'(1) def0 t'(2), of v] assms(3)
    by (simp add: BWLDResourceDemand_def path)
qed

lemma release_undoes_request_example:
  "BWLDResourceDemand (snd (the (BWLDResourceDemand sample_tree 1 BWLDMESGREQUEST (LimRec BWLDLimPending 1))))
     1 BWLDMESGRELEASE (LimRec BWLDLimPending 1) = Some (True, sample_tree)"
proof -
  have "limkind_of BWLDLimPending = LIMINT" by simp
  then obtain ns' where "BWLDResourceDemand sample_tree 1 BWLDMESGREQUEST (LimRec BWLDLimPending 1) = Some (True, ns')"
    using request.demand_spec_full [OF sample_tree_ok(1) limkind_def0 [OF disjI1], of BWLDLimPending 1 1]
      sample_tree_ok(2)
    by (simp add: BWLDResourceDemand_def sample_path sample_values fits_def)
  then show ?thesis
    using release_undoes_request [of sample_tree 1 BWLDLimPending 1 ns'] sample_tree_ok
    by (simp add: sample_path sample_values)
qed

text \<open>A value within a limit: exactly below \<open>2 ^ 24\<close>, and up to the \<open>float\<close> error above.\<close>

definition at_most :: "BWLDLimitT \<Rightarrow> BWLDLimitT \<Rightarrow> bool" where
  "at_most v limit \<longleftrightarrow> (2 ^ 24 - 1) * unat v \<le> (2 ^ 24 + 1) * unat limit \<and> (unat limit < 2 ^ 24 \<longrightarrow> v \<le> limit)"

lemma fits_at_most: "fits l v node \<Longrightarrow> at_most (v + GetUsed node l) (GetLimit node l)"
  using float_le_bounds [of "v + GetUsed node l" "GetLimit node l"] by (simp add: fits_def at_most_def)

text \<open>Fixed limits are never charged.\<close>

definition fixed_unused :: "nodes \<Rightarrow> bool" where
  "fixed_unused ns \<longleftrightarrow> (\<forall>m < length ns. \<forall>l. limkind_of l = LIMFIXEDINT \<longrightarrow> GetUsed (ns ! m) l = 0)"

lemma demand_fixed_unused:
  assumes "tree_ok ns" and "fixed_unused ns" and "n < length ns"
    and "BWLDResourceDemand ns n query (LimRec l v) = Some (r, ns')"
  shows "tree_ok ns' \<and> fixed_unused ns'"
  using assms(1,3,4)
proof (cases rule: demand_cases)
  case request
  then show ?thesis using assms(1,2) GetUsed_update_nodes [OF assms(1,3)]
    by (auto simp: tree_ok_update fixed_unused_def simp del: nth_update_nodes)
next
  case release
  then show ?thesis using assms(1,2) GetUsed_update_nodes [OF assms(1,3)]
    by (auto simp: tree_ok_update fixed_unused_def simp del: nth_update_nodes)
qed (use assms(1,2) in simp)

lemma fixed_unused_reachable:
  assumes "policy_step\<^sup>*\<^sup>* ns ns'" and "tree_ok ns" and "fixed_unused ns"
  shows "tree_ok ns' \<and> fixed_unused ns'"
  using assms
proof (induction rule: rtranclp_induct)
  case (step y z)
  then show ?case using demand_fixed_unused by (blast elim: policy_stepE)
qed simp

text \<open>The limit of \<open>900m\<close> in the manual lets a request for some more pass.\<close>

lemma limit_900m_inexact: "float_of 900000032 \<le> float_of 900000000" "\<not> float_of 900000033 \<le> float_of 900000000"
  by (simp_all add: float_of_def round_bits_def round_at_def ulp_exp.simps)

text \<open>
  C9. A request for a fixed limit (bandwidth, duration, event horizon and so on), after any sequence of
  demands, changes nothing in the tree and is granted exactly when the value, rounded to a \<open>float\<close>, is at
  most the rounded limit of every limiting node on the way up. So it is granted whenever the value is at
  most every such limit, and only when it exceeds none that is below \<open>2 ^ 24\<close>, and no larger one by more
  than the relative error \<open>2 / (2 ^ 24 - 1)\<close> (\<open>limit_900m_inexact\<close>).
\<close>

theorem fixed_request_checks_every_level:
  assumes "tree_ok ns0" and "nothing_used ns0" and "policy_step\<^sup>*\<^sup>* ns0 ns" and "n < length ns"
    and "limkind_of l = LIMFIXEDINT"
  shows "\<exists>granted. BWLDResourceDemand ns n BWLDMESGREQUEST (LimRec l v) = Some (granted, ns) \<and>
    granted = (\<forall>m \<in> set (limiting_nodes ns n l). float_of v \<le> float_of (GetLimit (ns ! m) l)) \<and>
    ((\<forall>m \<in> set (limiting_nodes ns n l). v \<le> GetLimit (ns ! m) l) \<longrightarrow> granted) \<and>
    (granted \<longrightarrow> (\<forall>m \<in> set (limiting_nodes ns n l). at_most v (GetLimit (ns ! m) l)))"
proof -
  let ?up = "set (limiting_nodes ns n l)"
  have ok: "tree_ok ns" "fixed_unused ns"
    using fixed_unused_reachable [OF assms(3,1)] nothing_usedD [OF assms(1,2)] by (simp_all add: fixed_unused_def)
  have used: "GetUsed (ns ! m) l = 0" if "m \<in> ?up" for m
    using limiting_node(1) [OF ok(1) assms(4) that] assms(5) ok(2) by (simp add: fixed_unused_def)
  then have fits: "fits l v (ns ! m) = (float_of v \<le> float_of (GetLimit (ns ! m) l))" if "m \<in> ?up" for m
    using that by (simp add: fits_def)
  have "at_most v (GetLimit (ns ! m) l)" if "m \<in> ?up" "fits l v (ns ! m)" for m
    using fits_at_most [OF that(2)] used [OF that(1)] by simp
  moreover have "BWLDResourceDemand ns n BWLDMESGREQUEST (LimRec l v) =
      Some (\<forall>m \<in> ?up. float_of v \<le> float_of (GetLimit (ns ! m) l), ns)"
    using fixed.demand_spec_full [OF ok(1) limkind_def0 [OF disjI2, OF assms(5)] assms(4), of v] assms(5) fits
    by (simp add: BWLDResourceDemand_def)
  ultimately show ?thesis using fits float_of_mono by auto
qed

theorem fixed_request_checks_every_level_witness:
  "BWLDResourceDemand sample_tree 1 BWLDMESGREQUEST (LimRec BWLDLimDuration 30) = Some (True, sample_tree) \<and>
   BWLDResourceDemand sample_tree 1 BWLDMESGREQUEST (LimRec BWLDLimDuration 31) = Some (False, sample_tree)"
proof -
  have "limkind_of BWLDLimDuration = LIMFIXEDINT"
    by (simp add: limkind_of_def find_limkey_def limkeys_def limdesc_of_def)
  moreover have "set (demand_path 3 sample_tree BWLDLimDuration (Some (Suc 0))) = {1}"
    by (simp add: sample_tree_def numeral_3_eq_3 demand_path.simps GetLimit_def)
  moreover have "GetLimit (sample_tree ! 1) BWLDLimDuration = 30"
    by (simp add: sample_tree_def GetLimit_def)
  ultimately show ?thesis
    using fixed_request_checks_every_level [OF sample_tree_ok(1) sample_nothing_used rtranclp.rtrancl_refl, of 1 BWLDLimDuration 30]
      fixed_request_checks_every_level [OF sample_tree_ok(1) sample_nothing_used rtranclp.rtrancl_refl, of 1 BWLDLimDuration 31]
      sample_tree_ok(2)
    by (simp, elim exE conjE, simp)
qed

end
