(* ===== verification/Control.thy ===== *)
theory Control
  imports Blocks Tools PolicyTree
begin

unbundle bit_operations_syntax

text \<open>
  The control connection: the record \<open>BWLControlRec\<close> of \<open>bwlib/bwlibP.h\<close> with the bits of its
  state, and the block input and output of \<open>bwlib/io.c\<close>. The socket is part of the record: the
  bytes still to come from the peer, the bytes written so far, and what the next read or write
  meets (\<open>IoEintr\<close> is a call interrupted while \<open>*retn_on_intr\<close> is set, \<open>IoError\<close> any other
  failure); a stream that ends is a short read. Errors are logged by the code; logging is not
  modelled.

  The second half relates the two ends of a connection: \<open>linked\<close> ends agree on ciphering, keys
  and initialisation vector, \<open>in_flight\<close> says that the bytes waiting at one end are the
  (possibly enciphered) blocks the other end sent, and \<open>send_in_flight\<close> and \<open>receive_in_flight\<close>
  are the two facts every message of the protocol rests on.
\<close>

section \<open>Severities, answers, sessions\<close>

datatype BWLErrSeverity = BWLErrFATAL | BWLErrWARNING | BWLErrINFO | BWLErrDEBUG | BWLErrOK

fun severity :: "BWLErrSeverity \<Rightarrow> nat" where
  "severity BWLErrFATAL = 3"
| "severity BWLErrWARNING = 4"
| "severity BWLErrINFO = 6"
| "severity BWLErrDEBUG = 7"
| "severity BWLErrOK = 8"

instantiation BWLErrSeverity :: linorder
begin

definition less_eq_BWLErrSeverity :: "BWLErrSeverity \<Rightarrow> BWLErrSeverity \<Rightarrow> bool" where
  "a \<le> b \<longleftrightarrow> severity a \<le> severity b"

definition less_BWLErrSeverity :: "BWLErrSeverity \<Rightarrow> BWLErrSeverity \<Rightarrow> bool" where
  "a < b \<longleftrightarrow> severity a < severity b"

instance
proof
  fix a b c :: BWLErrSeverity
  show "(a < b) = (a \<le> b \<and> \<not> b \<le> a)"
    by (auto simp: less_eq_BWLErrSeverity_def less_BWLErrSeverity_def)
  show "a \<le> a" by (simp add: less_eq_BWLErrSeverity_def)
  show "a \<le> b \<Longrightarrow> b \<le> c \<Longrightarrow> a \<le> c" by (simp add: less_eq_BWLErrSeverity_def)
  show "a \<le> b \<Longrightarrow> b \<le> a \<Longrightarrow> a = b"
    by (cases a; cases b) (simp_all add: less_eq_BWLErrSeverity_def)
  show "a \<le> b \<or> b \<le> a" by (auto simp: less_eq_BWLErrSeverity_def)
qed

end

type_synonym BWLAcceptType = u32

definition BWL_CNTRL_INVALID :: BWLAcceptType where "BWL_CNTRL_INVALID = -1"
definition BWL_CNTRL_ACCEPT :: BWLAcceptType where "BWL_CNTRL_ACCEPT = 0"
definition BWL_CNTRL_REJECT :: BWLAcceptType where "BWL_CNTRL_REJECT = 1"
definition BWL_CNTRL_FAILURE :: BWLAcceptType where "BWL_CNTRL_FAILURE = 2"
definition BWL_CNTRL_UNSUPPORTED :: BWLAcceptType where "BWL_CNTRL_UNSUPPORTED = 4"

definition BWL_MODE_OPEN :: u32 where "BWL_MODE_OPEN = 1"
definition BWL_MODE_AUTHENTICATED :: u32 where "BWL_MODE_AUTHENTICATED = 2"
definition BWL_MODE_ENCRYPTED :: u32 where "BWL_MODE_ENCRYPTED = 4"
definition BWL_MODE_DOCIPHER :: u32 where "BWL_MODE_DOCIPHER = BWL_MODE_AUTHENTICATED OR BWL_MODE_ENCRYPTED"
definition BWL_MODE_ALLMODES :: u32 where "BWL_MODE_ALLMODES = BWL_MODE_DOCIPHER OR BWL_MODE_OPEN"

text \<open>
  What the daemon keeps with a test in the \<open>closure\<close> of the session (\<open>bwctld/policy.c\<close>): the class, the
  session identifier and the counted resource to release.
\<close>

record BWLDTestInfo =
  ti_node :: nat
  ti_sid :: "u8 list"
  ti_res :: BWLDLimRec

text \<open>
  The results file: whether \<open>fstat\<close> and \<open>fseeko\<close> succeed, the size \<open>fstat\<close> reports and the bytes
  that can be read.
\<close>

record data_file =
  file_ok :: bool
  st_size :: nat
  content :: "u8 list"

text \<open>
  The tool of a session is the one its specification names; the endpoint process is outside the record.
  \<open>remotefp\<close> is a file to write: whether writes to it succeed.
\<close>

record BWLTestSession =
  sid :: "u8 list"
  localtime :: BWLTimeStamp
  reserve_time :: BWLNum64
  fuzz :: BWLNum64
  tool_port :: u16
  local_tool_port :: u16
  conf_client :: bool
  conf_server :: bool
  test_spec :: BWLTestSpec
  localfp :: "data_file option"
  remotefp :: "bool option"
  closure :: "BWLDTestInfo option"

abbreviation no_time :: BWLTimeStamp where
  "no_time \<equiv> \<lparr>tstamp = 0, sync = 0, multiplier = 0, scale = 0\<rparr>"

section \<open>The control record\<close>

datatype io_status = IoOk | IoError | IoEintr

record BWLControl =
  is_server :: bool
  cstate :: u32
  mode :: u32
  protocol_version :: u32
  rtt_bound :: BWLNum64
  userid_set :: bool
  userid_buffer :: "u8 list"
  session_key :: "u8 list"
  encrypt_key :: keyInstance
  decrypt_key :: keyInstance
  readIV :: "u8 list"
  writeIV :: "u8 list"
  msg :: "u8 list"
  tests :: "BWLTestSession option"
  sock_in :: "u8 list"
  sock_out :: "u8 list"
  rd_status :: io_status
  wr_status :: io_status

text \<open>
  \<open>_BWLControlAlloc\<close>: the record is cleared; the socket is attached by the caller. A null
  \<open>userid\<close> is \<open>userid_set = False\<close>.
\<close>

definition BWLControlAlloc :: "u8 list \<Rightarrow> io_status \<Rightarrow> io_status \<Rightarrow> BWLControl" where
  "BWLControlAlloc input rd wr = \<lparr>is_server = False, cstate = 0, mode = 0, protocol_version = 0, rtt_bound = 0,
     userid_set = False, userid_buffer = replicate 16 0, session_key = replicate 16 0,
     encrypt_key = \<lparr>Nr = 0, rk = replicate 60 0\<rparr>, decrypt_key = \<lparr>Nr = 0, rk = replicate 60 0\<rparr>,
     readIV = replicate 16 0, writeIV = replicate 16 0, msg = replicate 128 0, tests = None,
     sock_in = input, sock_out = [], rd_status = rd, wr_status = wr\<rparr>"

definition BWLStateInitial :: u32 where "BWLStateInitial = 0x0000"
definition BWLStateInvalid :: u32 where "BWLStateInvalid = 0x0000"
definition BWLStateSetup :: u32 where "BWLStateSetup = 0x0001"
definition BWLStateUptime :: u32 where "BWLStateUptime = push_bit 1 BWLStateSetup"
definition BWLStateRequest :: u32 where "BWLStateRequest = push_bit 1 BWLStateUptime"
definition BWLStateTest :: u32 where "BWLStateTest = push_bit 1 BWLStateRequest"
definition BWLStateTestRequest :: u32 where "BWLStateTestRequest = push_bit 1 BWLStateTest"
definition BWLStateStartSession :: u32 where "BWLStateStartSession = push_bit 1 BWLStateTestRequest"
definition BWLStateStopSession :: u32 where "BWLStateStopSession = push_bit 1 BWLStateStartSession"
definition BWLStateTestAccept :: u32 where "BWLStateTestAccept = push_bit 1 BWLStateStopSession"
definition BWLStateStartAck :: u32 where "BWLStateStartAck = push_bit 1 BWLStateTestAccept"
definition BWLStateTimeRequest :: u32 where "BWLStateTimeRequest = push_bit 1 BWLStateStartAck"
definition BWLStateTimeResponse :: u32 where "BWLStateTimeResponse = push_bit 1 BWLStateTimeRequest"

definition BWLStateReading :: u32 where
  "BWLStateReading = BWLStateTestRequest OR BWLStateStartSession OR BWLStateStopSession OR BWLStateTimeRequest"

definition BWLStatePending :: u32 where
  "BWLStatePending = BWLStateTestAccept OR BWLStateStartAck OR BWLStateStopSession OR BWLStateTimeResponse"

definition BWLStateIsInitial :: "BWLControl \<Rightarrow> bool" where
  "BWLStateIsInitial c \<longleftrightarrow> cstate c = 0"

definition BWLStateIsSetup :: "BWLControl \<Rightarrow> bool" where
  "BWLStateIsSetup c \<longleftrightarrow> BWLStateSetup XOR cstate c = 0"

definition BWLStateIs :: "u32 \<Rightarrow> BWLControl \<Rightarrow> bool" where
  "BWLStateIs teststate c \<longleftrightarrow> teststate AND cstate c \<noteq> 0"

definition set_state :: "u32 \<Rightarrow> BWLControl \<Rightarrow> BWLControl" where
  "set_state s c = c\<lparr>cstate := s\<rparr>"

definition or_state :: "u32 \<Rightarrow> BWLControl \<Rightarrow> BWLControl" where
  "or_state s c = c\<lparr>cstate := cstate c OR s\<rparr>"

definition clear_state :: "u32 \<Rightarrow> BWLControl \<Rightarrow> BWLControl" where
  "clear_state s c = c\<lparr>cstate := cstate c AND NOT s\<rparr>"

definition BWLFailControlSession :: "BWLControl \<Rightarrow> BWLErrSeverity \<Rightarrow> BWLErrSeverity \<times> BWLControl" where
  "BWLFailControlSession c level = (level, set_state BWLStateInvalid c)"

section \<open>Input and output of blocks\<close>

text \<open>\<open>I2Writeni\<close> and \<open>I2Readni\<close>: the byte count or -1.\<close>

definition I2Writeni :: "BWLControl \<Rightarrow> u8 list \<Rightarrow> int \<times> BWLControl" where
  "I2Writeni c bs = (case wr_status c of
     IoOk \<Rightarrow> (int (length bs), c\<lparr>sock_out := sock_out c @ bs\<rparr>)
   | _ \<Rightarrow> (-1, c))"

definition I2Readni :: "BWLControl \<Rightarrow> nat \<Rightarrow> int \<times> u8 list \<times> BWLControl" where
  "I2Readni c n = (case rd_status c of
     IoOk \<Rightarrow> (int (min n (length (sock_in c))), take n (sock_in c), c\<lparr>sock_in := drop n (sock_in c)\<rparr>)
   | _ \<Rightarrow> (-1, [], c))"

definition do_cipher :: "BWLControl \<Rightarrow> bool" where
  "do_cipher c \<longleftrightarrow> mode c AND BWL_MODE_DOCIPHER \<noteq> 0"

definition BWLEncryptBlocks :: "BWLControl \<Rightarrow> u8 list \<Rightarrow> nat \<Rightarrow> int \<times> u8 list \<times> BWLControl" where
  "BWLEncryptBlocks c buf num_blocks =
     (let (r, out, iv) = blockEncrypt (writeIV c) (encrypt_key c) buf (int num_blocks * 16 * 8)
      in (if r \<noteq> int num_blocks * 16 * 8 then -1 else 0, out, c\<lparr>writeIV := iv\<rparr>))"

definition BWLDecryptBlocks :: "BWLControl \<Rightarrow> u8 list \<Rightarrow> nat \<Rightarrow> int \<times> u8 list \<times> BWLControl" where
  "BWLDecryptBlocks c buf num_blocks =
     (let (r, out, iv) = blockDecrypt (readIV c) (decrypt_key c) buf (int num_blocks * 16 * 8)
      in (if r \<noteq> int num_blocks * 16 * 8 then -1 else 0, out, c\<lparr>readIV := iv\<rparr>))"

text \<open>The messages are sent from the start of \<open>msg\<close> and enciphered in place.\<close>

definition BWLSendBlocksIntr :: "BWLControl \<Rightarrow> nat \<Rightarrow> int \<times> BWLControl" where
  "BWLSendBlocksIntr c num_blocks =
     (let c = (if do_cipher c
               then let (_, out, c) = BWLEncryptBlocks c (take (16 * num_blocks) (msg c)) num_blocks
                    in c\<lparr>msg := memcpy (msg c) 0 out\<rparr>
               else c);
          (n, c) = I2Writeni c (take (16 * num_blocks) (msg c))
      in if n < 0 then (-1, c) else (int num_blocks, c))"

definition BWLReceiveBlocksIntr :: "BWLControl \<Rightarrow> nat \<Rightarrow> nat \<Rightarrow> int \<times> BWLControl" where
  "BWLReceiveBlocksIntr c off num_blocks =
     (let (n, bs, c) = I2Readni c (16 * num_blocks);
          c = c\<lparr>msg := memcpy (msg c) off bs\<rparr>
      in if n < 0 then (-1, c)
         else if n \<noteq> int num_blocks * 16 then (0, c)
         else if do_cipher c
         then let (_, out, c) = BWLDecryptBlocks c (slice off (16 * num_blocks) (msg c)) num_blocks
              in (int num_blocks, c\<lparr>msg := memcpy (msg c) off out\<rparr>)
         else (int num_blocks, c))"

text \<open>The variants without an interrupt argument differ in where they find the flag.\<close>

definition BWLSendBlocks :: "BWLControl \<Rightarrow> nat \<Rightarrow> int \<times> BWLControl" where
  "BWLSendBlocks c num_blocks = BWLSendBlocksIntr c num_blocks"

definition BWLReceiveBlocks :: "BWLControl \<Rightarrow> nat \<Rightarrow> nat \<Rightarrow> int \<times> BWLControl" where
  "BWLReceiveBlocks c off num_blocks = BWLReceiveBlocksIntr c off num_blocks"

definition BWLMakeKey :: "BWLControl \<Rightarrow> u8 list \<Rightarrow> BWLControl" where
  "BWLMakeKey c binKey = c\<lparr>encrypt_key := setup_key DIR_ENCRYPT (encrypt_key c) binKey,
     decrypt_key := setup_key DIR_DECRYPT (decrypt_key c) binKey\<rparr>"

section \<open>Facts about memory copies\<close>

lemma memcpy_twice [buf_simps]:
  "length a = length b \<Longrightarrow> off + length a \<le> length buf \<Longrightarrow> memcpy (memcpy buf off a) off b = memcpy buf off b"
  by (simp add: memcpy_def)

section \<open>The two ends of a connection\<close>

definition linked :: "BWLControl \<Rightarrow> BWLControl \<Rightarrow> bool" where
  "linked a b \<longleftrightarrow> length (msg a) = 128 \<and> length (msg b) = 128 \<and>
     wr_status a = IoOk \<and> rd_status b = IoOk \<and> do_cipher a = do_cipher b \<and>
     (do_cipher a \<longrightarrow> key_pair (encrypt_key a) (decrypt_key b) \<and> writeIV a = readIV b \<and> length (writeIV a) = 16)"

definition in_flight :: "keyInstance \<Rightarrow> BWLControl \<Rightarrow> u8 list \<Rightarrow> u8 list \<Rightarrow> u8 list \<Rightarrow> bool" where
  "in_flight ke b data ivend rest \<longleftrightarrow> length (msg b) = 128 \<and> rd_status b = IoOk \<and>
     (if do_cipher b then key_pair ke (decrypt_key b) \<and> length (readIV b) = 16 \<and>
        (\<exists>n w. length data = 16 * n \<and> sock_in b = w @ rest \<and>
          cbc_encrypt (rijndaelEncrypt (rk ke) (Nr ke)) n (readIV b) data = (w, ivend))
      else sock_in b = data @ rest \<and> ivend = readIV b)"

text \<open>The receiving end once the bytes of the sending end have arrived.\<close>

definition arrive :: "BWLControl \<Rightarrow> u8 list \<Rightarrow> BWLControl \<Rightarrow> BWLControl" where
  "arrive a rest b = b\<lparr>sock_in := sock_out a @ rest\<rparr>"

lemma send_in_flight:
  assumes "linked a b" "n \<le> 8"
  obtains w iv m ivend where
    "BWLSendBlocksIntr a n = (int n, a\<lparr>writeIV := iv, msg := m, sock_out := sock_out a @ w\<rparr>)"
    "length m = 128" "do_cipher a \<longrightarrow> ivend = iv" "\<not> do_cipher a \<longrightarrow> iv = writeIV a \<and> ivend = readIV b"
    "\<forall>rest. in_flight (encrypt_key a) (b\<lparr>sock_in := w @ rest\<rparr>) (take (16 * n) (msg a)) ivend rest"
proof (cases "do_cipher a")
  case False
  with assms show ?thesis
    by (intro that [where iv = "writeIV a" and m = "msg a" and w = "take (16 * n) (msg a)" and ivend = "readIV b"])
      (auto simp: BWLSendBlocksIntr_def I2Writeni_def linked_def in_flight_def do_cipher_def)
next
  case True
  let ?data = "take (16 * n) (msg a)"
  obtain w iv where w: "cbc_encrypt (rijndaelEncrypt (rk (encrypt_key a)) (Nr (encrypt_key a))) n (writeIV a) ?data = (w, iv)"
    by fastforce
  have len: "length ?data = 16 * n" using assms by (simp add: linked_def)
  have pair: "key_pair (encrypt_key a) (decrypt_key b)" and IV: "length (writeIV a) = 16" "writeIV a = readIV b"
    using assms(1) True by (auto simp: linked_def)
  note fact = rij.cbc_decrypt_encrypt [OF pair IV(1) len w, of "[]"]
  have bits: "int n * 16 * 8 = int n * 128" by simp
  have m: "length (memcpy (msg a) 0 w) = 128" "take (16 * n) (memcpy (msg a) 0 w) = w"
    using fact assms by (auto simp: linked_def memcpy_def)
  have "BWLSendBlocksIntr a n = (int n, a\<lparr>writeIV := iv, msg := memcpy (msg a) 0 w, sock_out := sock_out a @ w\<rparr>)"
    using True assms(1) w m(2)
    by (simp add: BWLSendBlocksIntr_def BWLEncryptBlocks_def Let_def bits blockEncrypt_blocks I2Writeni_def linked_def
        del: of_nat_mult)
  then show ?thesis
    using True assms(1) m(1) w IV pair len
    by (intro that [where iv = iv and m = "memcpy (msg a) 0 w" and w = w and ivend = iv]) (auto simp: in_flight_def linked_def do_cipher_def)
qed

lemma receive_in_flight:
  assumes "in_flight ke b (d1 @ d2) ivend rest" "length d1 = 16 * m" "off + 16 * m \<le> 128"
  obtains s iv where
    "BWLReceiveBlocksIntr b off m = (int m, b\<lparr>msg := memcpy (msg b) off d1, sock_in := s, readIV := iv\<rparr>)"
    "in_flight ke (b\<lparr>msg := memcpy (msg b) off d1, sock_in := s, readIV := iv\<rparr>) d2 ivend rest"
proof (cases "do_cipher b")
  case False
  with assms show ?thesis
    by (intro that [where s = "d2 @ rest" and iv = "readIV b"])
      (auto simp: BWLReceiveBlocksIntr_def I2Readni_def in_flight_def do_cipher_def Let_def)
next
  case True
  let ?E = "rijndaelEncrypt (rk ke) (Nr ke)" and ?D = "rijndaelDecrypt (rk (decrypt_key b)) (Nr (decrypt_key b))"
  from assms(1) True obtain n w where pair: "key_pair ke (decrypt_key b)" and IV: "length (readIV b) = 16"
      and n: "length (d1 @ d2) = 16 * n" "sock_in b = w @ rest" "cbc_encrypt ?E n (readIV b) (d1 @ d2) = (w, ivend)"
      and b: "length (msg b) = 128" "rd_status b = IoOk"
    by (auto simp: in_flight_def)
  define k where "k = n - m"
  have k: "n = m + k" "length d2 = 16 * k" using n(1) assms(2) by (auto simp: k_def)
  obtain w1 iv1 where w1: "cbc_encrypt ?E m (readIV b) d1 = (w1, iv1)" by fastforce
  obtain w2 iv2 where w2: "cbc_encrypt ?E k iv1 d2 = (w2, iv2)" by fastforce
  have w: "w = w1 @ w2" "ivend = iv2"
    using rij.cbc_encrypt_append [OF assms(2) w1 w2] n(3) k(1) by simp_all
  note fact = rij.cbc_decrypt_encrypt [OF pair IV assms(2) w1, of "[]"]
  have bits: "int m * 16 * 8 = int m * 128" by simp
  have sl: "slice off (16 * m) (memcpy (msg b) off w1) = w1"
    "memcpy (memcpy (msg b) off w1) off d1 = memcpy (msg b) off d1"
    using fact assms b(1) by (simp_all add: buf_simps)
  have "BWLReceiveBlocksIntr b off m =
      (int m, b\<lparr>msg := memcpy (msg b) off d1, sock_in := w2 @ rest, readIV := iv1\<rparr>)"
    using True b n(2) w(1) fact sl
    by (simp add: BWLReceiveBlocksIntr_def I2Readni_def Let_def BWLDecryptBlocks_def do_cipher_def bits
        blockDecrypt_blocks del: of_nat_mult)
  moreover have "in_flight ke (b\<lparr>msg := memcpy (msg b) off d1, sock_in := w2 @ rest, readIV := iv1\<rparr>) d2 ivend rest"
    using True b pair fact w2 w(2) k(2) assms
    by (auto simp: in_flight_def do_cipher_def)
  ultimately show ?thesis by (rule that)
qed

lemma in_flight_done:
  assumes "in_flight ke b [] ivend rest"
  shows "sock_in b = rest" "readIV b = ivend"
  using assms by (auto simp: in_flight_def split: if_splits)

text \<open>Ciphering and the link do not depend on the rest of the record.\<close>

lemma do_cipher_frame [simp]:
  "do_cipher (c\<lparr>cstate := s\<rparr>) = do_cipher c" "do_cipher (c\<lparr>msg := m\<rparr>) = do_cipher c"
  "do_cipher (c\<lparr>sock_in := i\<rparr>) = do_cipher c" "do_cipher (c\<lparr>sock_out := out\<rparr>) = do_cipher c"
  "do_cipher (c\<lparr>readIV := r\<rparr>) = do_cipher c" "do_cipher (c\<lparr>writeIV := w\<rparr>) = do_cipher c"
  "do_cipher (c\<lparr>tests := t\<rparr>) = do_cipher c" "do_cipher (c\<lparr>protocol_version := v\<rparr>) = do_cipher c"
  "do_cipher (c\<lparr>userid_buffer := u\<rparr>) = do_cipher c"
  by (simp_all add: do_cipher_def)

lemma linked_frame [simp]:
  "linked (a\<lparr>cstate := s\<rparr>) b = linked a b" "linked a (b\<lparr>cstate := s\<rparr>) = linked a b"
  "linked (a\<lparr>sock_out := out\<rparr>) b = linked a b" "linked a (b\<lparr>sock_out := out\<rparr>) = linked a b"
  "linked (a\<lparr>sock_in := i\<rparr>) b = linked a b" "linked a (b\<lparr>sock_in := i\<rparr>) = linked a b"
  "linked (a\<lparr>readIV := r\<rparr>) b = linked a b" "linked a (b\<lparr>writeIV := w\<rparr>) = linked a b"
  "linked (a\<lparr>tests := t\<rparr>) b = linked a b" "linked a (b\<lparr>tests := t\<rparr>) = linked a b"
  by (simp_all add: linked_def)

lemma linked_msg: "linked a b \<Longrightarrow> length m = 128 \<Longrightarrow> linked (a\<lparr>msg := m\<rparr>) b"
  "linked a b \<Longrightarrow> length m = 128 \<Longrightarrow> linked a (b\<lparr>msg := m\<rparr>)"
  by (auto simp: linked_def)

lemma linked_length: "linked a b \<Longrightarrow> length (msg a) = 128" "linked a b \<Longrightarrow> length (msg b) = 128"
  by (simp_all add: linked_def)

lemma in_flight_state [simp]: "in_flight ke (b\<lparr>cstate := s\<rparr>) d ivend rest = in_flight ke b d ivend rest"
  by (simp add: in_flight_def)

lemma linked_cipher: "linked a b \<Longrightarrow> do_cipher b = do_cipher a"
  unfolding linked_def by blast

lemma linked_iv:
  "linked a b \<Longrightarrow> do_cipher a \<longrightarrow> iv = iv' \<and> length iv' = 16 \<Longrightarrow>
   linked (a\<lparr>writeIV := iv\<rparr>) (b\<lparr>readIV := iv'\<rparr>)"
  by (cases "do_cipher a") (auto simp: linked_def)

lemma in_flight_length: "in_flight ke b d ivend rest \<Longrightarrow> do_cipher b \<longrightarrow> length (readIV b) = 16"
  by (simp add: in_flight_def)

lemma memcpy_join:
  assumes "length m = 128" "length buf = 128" "n \<le> 7"
  shows "memcpy (memcpy m 0 (take 16 buf)) 16 (take (16 * n) (drop 16 buf)) = memcpy m 0 (take (16 * Suc n) buf)"
proof -
  have "take (16 * Suc n) buf = take 16 buf @ take (16 * n) (drop 16 buf)"
    by (simp add: take_add)
  then show ?thesis using assms by (simp add: memcpy_def add.commute)
qed

text \<open>A message of \<open>n\<close> blocks that is read in one go.\<close>

lemma deliver_blocks:
  assumes "linked a b" "n \<le> 8"
  obtains w iv m iv' where
    "BWLSendBlocksIntr a n = (int n, a\<lparr>writeIV := iv, msg := m, sock_out := sock_out a @ w\<rparr>)" "length m = 128"
    "\<forall>rest. BWLReceiveBlocksIntr (b\<lparr>sock_in := w @ rest\<rparr>) 0 n =
       (int n, b\<lparr>msg := memcpy (msg b) 0 (take (16 * n) (msg a)), sock_in := rest, readIV := iv'\<rparr>)"
    "linked (a\<lparr>writeIV := iv\<rparr>) (b\<lparr>readIV := iv'\<rparr>)"
proof -
  obtain w iv m ivend where
    send: "BWLSendBlocksIntr a n = (int n, a\<lparr>writeIV := iv, msg := m, sock_out := sock_out a @ w\<rparr>)"
    and m: "length m = 128" and c: "do_cipher a \<longrightarrow> ivend = iv"
    and nc: "\<not> do_cipher a \<longrightarrow> iv = writeIV a \<and> ivend = readIV b"
    and fly: "\<forall>rest. in_flight (encrypt_key a) (b\<lparr>sock_in := w @ rest\<rparr>) (take (16 * n) (msg a)) ivend rest"
    by (rule send_in_flight [OF assms]) (rule that; assumption)
  let ?d = "take (16 * n) (msg a)"
  have len: "length ?d = 16 * n" "0 + 16 * n \<le> 128" using assms linked_length [OF assms(1)] by simp_all
  have recv: "BWLReceiveBlocksIntr (b\<lparr>sock_in := w @ rest\<rparr>) 0 n =
      (int n, b\<lparr>msg := memcpy (msg b) 0 ?d, sock_in := rest, readIV := ivend\<rparr>) \<and>
      (do_cipher b \<longrightarrow> length ivend = 16)" for rest
  proof -
    let ?b = "b\<lparr>sock_in := w @ rest\<rparr>"
    have f: "in_flight (encrypt_key a) ?b (?d @ []) ivend rest" using fly [rule_format, of rest] by simp
    obtain s iv' where
      r: "BWLReceiveBlocksIntr ?b 0 n = (int n, ?b\<lparr>msg := memcpy (msg ?b) 0 ?d, sock_in := s, readIV := iv'\<rparr>)"
      and last: "in_flight (encrypt_key a) (?b\<lparr>msg := memcpy (msg ?b) 0 ?d, sock_in := s, readIV := iv'\<rparr>) [] ivend rest"
      by (rule receive_in_flight [OF f len])
    from in_flight_done [OF last] have "s = rest" "iv' = ivend" by simp_all
    with r in_flight_length [OF last] show ?thesis by simp
  qed
  have "linked (a\<lparr>writeIV := iv\<rparr>) (b\<lparr>readIV := ivend\<rparr>)"
    using recv c linked_cipher [OF assms(1)] by (intro linked_iv [OF assms(1)]) simp
  with send m recv show ?thesis
    by (intro that [where w = w and iv = iv and m = m and iv' = ivend]) simp_all
qed

text \<open>A message of \<open>n + 1\<close> blocks whose first block is read ahead.\<close>

lemma deliver_split:
  assumes "linked a b" "n \<le> 7"
  obtains w iv m iv' where
    "BWLSendBlocksIntr a (Suc n) = (int (Suc n), a\<lparr>writeIV := iv, msg := m, sock_out := sock_out a @ w\<rparr>)" "length m = 128"
    "\<forall>rest. \<exists>s iv1. BWLReceiveBlocksIntr (b\<lparr>sock_in := w @ rest\<rparr>) 0 1 =
         (1, b\<lparr>msg := memcpy (msg b) 0 (take 16 (msg a)), sock_in := s, readIV := iv1\<rparr>) \<and>
       (\<forall>st. BWLReceiveBlocksIntr (b\<lparr>msg := memcpy (msg b) 0 (take 16 (msg a)), sock_in := s, readIV := iv1, cstate := st\<rparr>) 16 n =
         (int n, b\<lparr>msg := memcpy (msg b) 0 (take (16 * Suc n) (msg a)), sock_in := rest, readIV := iv', cstate := st\<rparr>))"
    "linked (a\<lparr>writeIV := iv\<rparr>) (b\<lparr>readIV := iv'\<rparr>)"
proof -
  have n8: "Suc n \<le> 8" using assms(2) by simp
  obtain w iv m ivend where
    send: "BWLSendBlocksIntr a (Suc n) = (int (Suc n), a\<lparr>writeIV := iv, msg := m, sock_out := sock_out a @ w\<rparr>)"
    and m: "length m = 128" and c: "do_cipher a \<longrightarrow> ivend = iv"
    and nc: "\<not> do_cipher a \<longrightarrow> iv = writeIV a \<and> ivend = readIV b"
    and fly: "\<forall>rest. in_flight (encrypt_key a) (b\<lparr>sock_in := w @ rest\<rparr>) (take (16 * Suc n) (msg a)) ivend rest"
    by (rule send_in_flight [OF assms(1) n8]) (rule that; assumption)
  let ?d1 = "take 16 (msg a)" and ?d2 = "take (16 * n) (drop 16 (msg a))"
  have split: "take (16 * Suc n) (msg a) = ?d1 @ ?d2" by (simp add: take_add)
  have len: "length ?d1 = 16 * 1" "0 + 16 * 1 \<le> (128 :: nat)" "length ?d2 = 16 * n" "16 + 16 * n \<le> 128"
    using assms linked_length [OF assms(1)] by simp_all
  have recv: "\<exists>s iv1. BWLReceiveBlocksIntr (b\<lparr>sock_in := w @ rest\<rparr>) 0 1 =
         (1, b\<lparr>msg := memcpy (msg b) 0 ?d1, sock_in := s, readIV := iv1\<rparr>) \<and>
       (\<forall>st. BWLReceiveBlocksIntr (b\<lparr>msg := memcpy (msg b) 0 ?d1, sock_in := s, readIV := iv1, cstate := st\<rparr>) 16 n =
         (int n, b\<lparr>msg := memcpy (msg b) 0 (take (16 * Suc n) (msg a)), sock_in := rest, readIV := ivend, cstate := st\<rparr>)
         \<and> (do_cipher b \<longrightarrow> length ivend = 16))" for rest
  proof -
    let ?b = "b\<lparr>sock_in := w @ rest\<rparr>"
    from fly [rule_format, of rest] have f: "in_flight (encrypt_key a) ?b (?d1 @ ?d2) ivend rest" by (simp only: split)
    obtain s iv1 where
      r1: "BWLReceiveBlocksIntr ?b 0 1 = (int 1, ?b\<lparr>msg := memcpy (msg ?b) 0 ?d1, sock_in := s, readIV := iv1\<rparr>)"
      and f1: "in_flight (encrypt_key a) (?b\<lparr>msg := memcpy (msg ?b) 0 ?d1, sock_in := s, readIV := iv1\<rparr>) ?d2 ivend rest"
      by (rule receive_in_flight [OF f len(1,2)])
    let ?b1 = "b\<lparr>msg := memcpy (msg b) 0 ?d1, sock_in := s, readIV := iv1\<rparr>"
    have join: "memcpy (msg ?b1) 16 ?d2 = memcpy (msg b) 0 (take (16 * Suc n) (msg a))"
      using memcpy_join [of "msg b" "msg a" n] assms linked_length [OF assms(1)] by simp
    have "BWLReceiveBlocksIntr (?b1\<lparr>cstate := st\<rparr>) 16 n =
         (int n, b\<lparr>msg := memcpy (msg b) 0 (take (16 * Suc n) (msg a)), sock_in := rest, readIV := ivend, cstate := st\<rparr>)
         \<and> (do_cipher b \<longrightarrow> length ivend = 16)" for st
    proof -
      let ?c = "?b1\<lparr>cstate := st\<rparr>"
      have f2: "in_flight (encrypt_key a) ?c (?d2 @ []) ivend rest" using f1 by simp
      obtain s2 iv2 where
        r: "BWLReceiveBlocksIntr ?c 16 n = (int n, ?c\<lparr>msg := memcpy (msg ?c) 16 ?d2, sock_in := s2, readIV := iv2\<rparr>)"
        and f3: "in_flight (encrypt_key a) (?c\<lparr>msg := memcpy (msg ?c) 16 ?d2, sock_in := s2, readIV := iv2\<rparr>) [] ivend rest"
        by (rule receive_in_flight [OF f2 len(3,4)])
      from in_flight_done [OF f3] have "s2 = rest" "iv2 = ivend" by simp_all
      with r join in_flight_length [OF f3] show ?thesis by simp
    qed
    with r1 show ?thesis by (intro exI [of _ s] exI [of _ iv1]) simp
  qed
  then have "do_cipher b \<longrightarrow> length ivend = 16" by blast
  then have "linked (a\<lparr>writeIV := iv\<rparr>) (b\<lparr>readIV := ivend\<rparr>)"
    using c linked_cipher [OF assms(1)] by (intro linked_iv [OF assms(1)]) simp
  moreover have "\<forall>rest. \<exists>s iv1. BWLReceiveBlocksIntr (b\<lparr>sock_in := w @ rest\<rparr>) 0 1 =
         (1, b\<lparr>msg := memcpy (msg b) 0 ?d1, sock_in := s, readIV := iv1\<rparr>) \<and>
       (\<forall>st. BWLReceiveBlocksIntr (b\<lparr>msg := memcpy (msg b) 0 ?d1, sock_in := s, readIV := iv1, cstate := st\<rparr>) 16 n =
         (int n, b\<lparr>msg := memcpy (msg b) 0 (take (16 * Suc n) (msg a)), sock_in := rest, readIV := ivend, cstate := st\<rparr>))"
    using recv by blast
  ultimately show ?thesis by (intro that [OF send m]) assumption+
qed

end
