(* ===== verification/Protocol.thy ===== *)
theory Protocol
  imports Control
begin

unbundle bit_operations_syntax

text \<open>
  The messages of the control protocol, \<open>bwlib/protocol.c\<close>, except the test request (theory
  \<open>TestRequest\<close>): the greetings, the server's answer, the request types, and the time, accept,
  start and stop messages. Each function takes the control record and returns the severity, what
  it stores through its result pointers (\<open>None\<close> when it stores nothing) and the control record.

  That what one end writes the other reads, with or without ciphering, is shown in the theories
  \<open>Messages\<close>, \<open>TestRequest\<close> and \<open>Handshake\<close>.
\<close>

section \<open>Integers in network byte order\<close>

definition put_net16 :: "u8 list \<Rightarrow> nat \<Rightarrow> u16 \<Rightarrow> u8 list" where
  "put_net16 buf off w = memcpy buf off (be_bytes 2 (unat w))"

definition put_net32 :: "u8 list \<Rightarrow> nat \<Rightarrow> u32 \<Rightarrow> u8 list" where
  "put_net32 buf off w = memcpy buf off (be_bytes 4 (unat w))"

definition get_net16 :: "u8 list \<Rightarrow> nat \<Rightarrow> u16" where
  "get_net16 buf off = of_nat (be_nat (slice off 2 buf))"

definition get_net32 :: "u8 list \<Rightarrow> nat \<Rightarrow> u32" where
  "get_net32 buf off = of_nat (be_nat (slice off 4 buf))"

text \<open>\<open>_BWLEncodeTimeStamp\<close> looks at the time only.\<close>

definition encode_time :: "BWLNum64 \<Rightarrow> u8 list" where
  "encode_time t = BWLEncodeTimeStamp \<lparr>tstamp = t, sync = 0, multiplier = 0, scale = 0\<rparr>"

definition decode_time :: "u8 list \<Rightarrow> BWLNum64" where
  "decode_time buf = tstamp (BWLDecodeTimeStamp \<lparr>tstamp = 0, sync = 0, multiplier = 0, scale = 0\<rparr> buf)"

definition zero16 :: "u8 list" where "zero16 = replicate 16 0"

section \<open>Negotiation\<close>

definition BWL_MODE_PROTOCOL_TESTER_NEGOTIATION_VERSION :: u32 where
  "BWL_MODE_PROTOCOL_TESTER_NEGOTIATION_VERSION = 0x01000000"
definition BWL_MODE_PROTOCOL_OMIT_VERSION :: u32 where "BWL_MODE_PROTOCOL_OMIT_VERSION = 0x02000000"
definition BWL_MODE_PROTOCOL_1_5_VERSION :: u32 where "BWL_MODE_PROTOCOL_1_5_VERSION = 0x04000000"
definition BWL_MODE_PROTOCOL_1_5_2_VERSION :: u32 where "BWL_MODE_PROTOCOL_1_5_2_VERSION = 0x05000000"
definition BWL_MODE_PROTOCOL_MSS_VERSION :: u32 where "BWL_MODE_PROTOCOL_MSS_VERSION = 0x06000000"
definition BWL_MODE_PROTOCOL_CURRENT_VERSION :: u32 where
  "BWL_MODE_PROTOCOL_CURRENT_VERSION = BWL_MODE_PROTOCOL_MSS_VERSION"
definition BWL_MODE_PROTOCOL_VERSION_MASK :: u32 where "BWL_MODE_PROTOCOL_VERSION_MASK = 0xff000000"

definition BWLWriteServerGreeting :: "BWLControl \<Rightarrow> u32 \<Rightarrow> u8 list \<Rightarrow> BWLErrSeverity \<times> BWLControl" where
  "BWLWriteServerGreeting c avail_modes challenge =
     (if \<not> BWLStateIsInitial c then (BWLErrFATAL, c)
      else let buf = memset0 (msg c) 0 12;
               buf = put_net32 buf 12 (avail_modes OR BWL_MODE_PROTOCOL_CURRENT_VERSION);
               buf = memcpy buf 16 challenge;
               (n, c) = I2Writeni (c\<lparr>msg := buf\<rparr>) (take 32 buf)
           in if n \<noteq> 32 then (BWLErrFATAL, c) else (BWLErrOK, set_state BWLStateSetup c))"

definition BWLReadServerGreeting :: "BWLControl \<Rightarrow> BWLErrSeverity \<times> (u32 \<times> u8 list) option \<times> BWLControl" where
  "BWLReadServerGreeting c =
     (if \<not> BWLStateIsInitial c then (BWLErrFATAL, None, c)
      else let (n, bs, c) = I2Readni c 32;
               buf = memcpy (msg c) 0 bs;
               c = c\<lparr>msg := buf\<rparr>
           in if n \<noteq> 32 then (BWLErrFATAL, None, c)
              else let m = get_net32 buf 12;
                       c = c\<lparr>protocol_version := m AND BWL_MODE_PROTOCOL_VERSION_MASK\<rparr>
                   in (BWLErrOK, Some (m AND NOT BWL_MODE_PROTOCOL_VERSION_MASK, slice 16 16 buf),
                       set_state BWLStateSetup c))"

definition BWLWriteClientGreeting :: "BWLControl \<Rightarrow> u8 list \<Rightarrow> BWLErrSeverity \<times> BWLControl" where
  "BWLWriteClientGreeting c token =
     (if \<not> BWLStateIsSetup c then (BWLErrFATAL, c)
      else let buf = put_net32 (msg c) 0 (mode c OR protocol_version c);
               buf = (if do_cipher c
                      then memcpy (memcpy (memcpy buf 4 (userid_buffer c)) 20 token) 52 (writeIV c)
                      else memset0 buf 4 64);
               (n, c) = I2Writeni (c\<lparr>msg := buf\<rparr>) (take 68 buf)
           in if n \<noteq> 68 then (BWLErrFATAL, c) else (BWLErrOK, c))"

definition BWLReadClientGreeting ::
  "BWLControl \<Rightarrow> BWLErrSeverity \<times> (u32 \<times> u8 list \<times> u8 list) option \<times> BWLControl" where
  "BWLReadClientGreeting c =
     (if \<not> BWLStateIsSetup c then (BWLErrFATAL, None, c)
      else let (n, bs, c) = I2Readni c 68;
               buf = memcpy (msg c) 0 bs;
               c = c\<lparr>msg := buf\<rparr>
           in if n \<noteq> 68 then (BWLErrFATAL, None, c)
              else let m = get_net32 buf 0;
                       c = c\<lparr>protocol_version := m AND BWL_MODE_PROTOCOL_VERSION_MASK,
                             userid_buffer := slice 4 16 buf\<rparr>
                   in (BWLErrOK, Some (m AND NOT BWL_MODE_PROTOCOL_VERSION_MASK, slice 20 32 buf, slice 52 16 buf), c))"

definition BWLGetAcceptType :: "u8 \<Rightarrow> BWLAcceptType" where
  "BWLGetAcceptType val =
     (if ucast val = BWL_CNTRL_ACCEPT then BWL_CNTRL_ACCEPT
      else if ucast val = BWL_CNTRL_REJECT then BWL_CNTRL_REJECT
      else if ucast val = BWL_CNTRL_FAILURE then BWL_CNTRL_FAILURE
      else if ucast val = BWL_CNTRL_UNSUPPORTED then BWL_CNTRL_UNSUPPORTED
      else BWL_CNTRL_INVALID)"

definition BWLWriteServerOK ::
  "BWLControl \<Rightarrow> BWLAcceptType \<Rightarrow> BWLNum64 \<Rightarrow> u32 \<Rightarrow> BWLErrSeverity \<times> BWLControl" where
  "BWLWriteServerOK c code uptime avail_tools =
     (if \<not> BWLStateIsSetup c then (BWLErrFATAL, c)
      else let buf = put_net32 (msg c) 0 avail_tools;
               buf = memset0 buf 4 11;
               buf = buf[15 := ucast (code AND 0xff)];
               buf = memcpy buf 16 (writeIV c);
               (n, c) = I2Writeni (c\<lparr>msg := buf\<rparr>) (take 32 buf)
           in if n \<noteq> 32 then (BWLErrFATAL, c)
              else if code = BWL_CNTRL_ACCEPT
              then let buf = memcpy (msg c) 0 (encode_time uptime);
                       buf = memset0 buf 8 8;
                       (n, c) = BWLSendBlocksIntr (c\<lparr>msg := buf\<rparr>) 1
                   in if n \<noteq> 1 then (BWLErrFATAL, c) else (BWLErrOK, set_state BWLStateRequest c)
              else let c = set_state BWLStateInvalid c;
                       buf = memset0 (msg c) 0 16;
                       (n, c) = I2Writeni (c\<lparr>msg := buf\<rparr>) (take 16 buf)
                   in if n \<noteq> 16 then (BWLErrFATAL, c) else (BWLErrOK, c))"

definition BWLReadServerOK :: "BWLControl \<Rightarrow> BWLErrSeverity \<times> (BWLAcceptType \<times> u32) option \<times> BWLControl" where
  "BWLReadServerOK c =
     (if \<not> BWLStateIsSetup c then (BWLErrFATAL, None, c)
      else let (n, bs, c) = I2Readni c 32;
               buf = memcpy (msg c) 0 bs;
               c = c\<lparr>msg := buf\<rparr>
           in if n \<noteq> 32 then (BWLErrFATAL, None, set_state BWLStateInvalid c)
              else let acceptval = BWLGetAcceptType (buf ! 15)
                   in if acceptval = BWL_CNTRL_INVALID then (BWLErrFATAL, None, set_state BWLStateInvalid c)
                      else let avail_tools = (if protocol_version c = 0 then BWL_TOOL_IPERF else get_net32 buf 0);
                               c = c\<lparr>readIV := slice 16 16 buf\<rparr>
                           in (BWLErrOK, Some (acceptval, avail_tools), set_state BWLStateUptime c))"

definition BWLReadServerUptime :: "BWLControl \<Rightarrow> BWLErrSeverity \<times> BWLNum64 option \<times> BWLControl" where
  "BWLReadServerUptime c =
     (if \<not> BWLStateIs BWLStateUptime c then (BWLErrFATAL, None, c)
      else let (n, c) = BWLReceiveBlocks c 0 1
           in if n \<noteq> 1 then (BWLErrFATAL, None, set_state BWLStateInvalid c)
              else if slice 8 8 (msg c) \<noteq> replicate 8 0 then (BWLErrFATAL, None, c)
              else (BWLErrOK, Some (decode_time (msg c)), set_state BWLStateRequest c))"

section \<open>Requests\<close>

datatype BWLRequestType =
  BWLReqInvalid | BWLReqSockClose | BWLReqTest | BWLReqStartSession | BWLReqStopSession | BWLReqTime

definition BWLReadRequestType :: "BWLControl \<Rightarrow> BWLRequestType \<times> BWLControl" where
  "BWLReadRequestType c =
     (if \<not> BWLStateIs BWLStateRequest c \<or> BWLStateIs BWLStateReading c then (BWLReqInvalid, c)
      else let (n, c) = BWLReceiveBlocksIntr c 0 1
           in if n \<noteq> 1
              then (if n < 0 \<and> rd_status c = IoEintr then BWLReqInvalid else BWLReqSockClose,
                    set_state BWLStateInvalid c)
              else let msgtype = msg c ! 0
                   in if (BWLStateIs BWLStateTest c \<and> msgtype \<noteq> 3) \<or> (\<not> BWLStateIs BWLStateTest c \<and> msgtype = 3)
                      then (BWLReqInvalid, set_state BWLStateInvalid c)
                      else if msgtype = 1 then (BWLReqTest, or_state BWLStateTestRequest c)
                      else if msgtype = 2 then (BWLReqStartSession, or_state BWLStateStartSession c)
                      else if msgtype = 3 then (BWLReqStopSession, or_state BWLStateStopSession c)
                      else if msgtype = 4 then (BWLReqTime, or_state BWLStateTimeRequest c)
                      else (BWLReqInvalid, set_state BWLStateInvalid c))"

section \<open>Time request and response\<close>

definition BWLWriteTimeRequest :: "BWLControl \<Rightarrow> BWLErrSeverity \<times> BWLControl" where
  "BWLWriteTimeRequest c =
     (if \<not> BWLStateIs BWLStateRequest c \<or> BWLStateIs BWLStatePending c then (BWLErrFATAL, c)
      else let buf = memset0 ((msg c)[0 := 4]) 1 31;
               (n, c) = BWLSendBlocks (c\<lparr>msg := buf\<rparr>) 2
           in if n \<noteq> 2 then (BWLErrFATAL, set_state BWLStateInvalid c)
              else (BWLErrOK, or_state BWLStateTimeResponse c))"

definition BWLReadTimeRequest :: "BWLControl \<Rightarrow> BWLErrSeverity \<times> BWLControl" where
  "BWLReadTimeRequest c =
     (if \<not> BWLStateIs BWLStateTimeRequest c then (BWLErrFATAL, c)
      else let (n, c) = BWLReceiveBlocksIntr c 16 1
           in if n \<noteq> 1 then (BWLErrFATAL, set_state BWLStateInvalid c)
              else if slice 16 16 (msg c) \<noteq> zero16 then (BWLErrFATAL, set_state BWLStateInvalid c)
              else (BWLErrOK, or_state BWLStateTimeResponse (clear_state BWLStateTimeRequest c)))"

definition BWLWriteTimeResponse :: "BWLControl \<Rightarrow> BWLTimeStamp \<Rightarrow> BWLErrSeverity \<times> BWLControl" where
  "BWLWriteTimeResponse c ts =
     (if \<not> BWLStateIs BWLStateTimeResponse c then (BWLErrFATAL, c)
      else let buf = memset0 (msg c) 0 32;
               buf = memcpy buf 0 (BWLEncodeTimeStamp ts)
           in case BWLEncodeTimeStampErrEstimate ts of
                None \<Rightarrow> (BWLErrFATAL, c\<lparr>msg := buf\<rparr>)
              | Some e \<Rightarrow>
                  (let buf = memcpy buf 8 e;
                       (n, c) = BWLSendBlocksIntr (c\<lparr>msg := buf\<rparr>) 2
                   in if n \<noteq> 2 then (BWLErrFATAL, set_state BWLStateInvalid c)
                      else (BWLErrOK, clear_state BWLStateTimeResponse c)))"

definition BWLReadTimeResponse ::
  "BWLControl \<Rightarrow> BWLTimeStamp \<Rightarrow> BWLErrSeverity \<times> BWLTimeStamp option \<times> BWLControl" where
  "BWLReadTimeResponse c ts =
     (if \<not> BWLStateIs BWLStateTimeResponse c then (BWLErrFATAL, None, c)
      else let (n, c) = BWLReceiveBlocks c 0 2
           in if n \<noteq> 2 then (BWLErrFATAL, None, set_state BWLStateInvalid c)
              else if slice 16 16 (msg c) \<noteq> zero16 then (BWLErrFATAL, None, set_state BWLStateInvalid c)
              else let ts = BWLDecodeTimeStamp ts (msg c);
                       (ts, ok) = BWLDecodeTimeStampErrEstimate ts (slice 8 2 (msg c))
                   in if \<not> ok then (BWLErrFATAL, Some ts, set_state BWLStateInvalid c)
                      else (BWLErrOK, Some ts, clear_state BWLStateTimeResponse c))"

section \<open>Accept, start and acknowledge\<close>

definition BWLWriteTestAccept ::
  "BWLControl \<Rightarrow> BWLAcceptType \<Rightarrow> BWLTestSession \<Rightarrow> BWLErrSeverity \<times> BWLControl" where
  "BWLWriteTestAccept c acceptval tsession =
     (if \<not> BWLStateIs BWLStateTestAccept c then (BWLErrFATAL, c)
      else let buf = memset0 (msg c) 0 32;
               buf = buf[0 := ucast (acceptval AND 0xff)];
               buf = (if conf_server tsession then put_net16 buf 2 (tool_port tsession) else buf);
               buf = memcpy buf 4 (sid tsession);
               buf = memcpy buf 20 (encode_time (reserve_time tsession));
               (n, c) = BWLSendBlocksIntr (c\<lparr>msg := buf\<rparr>) 2
           in if n \<noteq> 2 then (BWLErrFATAL, set_state BWLStateInvalid c)
              else (BWLErrOK, clear_state BWLStateTestAccept c))"

definition BWLReadTestAccept ::
  "BWLControl \<Rightarrow> BWLTestSession \<Rightarrow> BWLErrSeverity \<times> (BWLAcceptType \<times> BWLTestSession) option \<times> BWLControl" where
  "BWLReadTestAccept c tsession =
     (if \<not> BWLStateIs BWLStateTestAccept c then (BWLErrFATAL, None, c)
      else let (n, c) = BWLReceiveBlocks c 0 2
           in if n \<noteq> 2 then (BWLErrFATAL, None, set_state BWLStateInvalid c)
              else if slice 28 4 (msg c) \<noteq> replicate 4 0 then (BWLErrFATAL, None, set_state BWLStateInvalid c)
              else let acceptval = BWLGetAcceptType (msg c ! 0)
                   in if acceptval = BWL_CNTRL_INVALID then (BWLErrFATAL, None, set_state BWLStateInvalid c)
                      else let t = (if conf_server tsession
                                    then tsession\<lparr>tool_port := get_net16 (msg c) 2, sid := slice 4 16 (msg c)\<rparr>
                                    else tsession);
                               t = t\<lparr>reserve_time := decode_time (slice 20 8 (msg c))\<rparr>
                           in (BWLErrOK, Some (acceptval, t), clear_state BWLStateTestAccept c))"

definition BWLWriteStartSession :: "BWLControl \<Rightarrow> u16 \<Rightarrow> BWLErrSeverity \<times> BWLControl" where
  "BWLWriteStartSession c peerport = (case tests c of
     None \<Rightarrow> (BWLErrFATAL, c)
   | Some t \<Rightarrow>
       (if \<not> BWLStateIs BWLStateRequest c \<or> BWLStateIs BWLStatePending c then (BWLErrFATAL, c)
        else let buf = memset0 (msg c) 0 32;
                 buf = buf[0 := 2];
                 buf = (if conf_client t then put_net16 buf 2 peerport else buf);
                 (n, c) = BWLSendBlocks (c\<lparr>msg := buf\<rparr>) 2
             in if n \<noteq> 2 then (BWLErrFATAL, set_state BWLStateInvalid c)
                else (BWLErrOK, or_state BWLStateTest (or_state BWLStateStartAck c))))"

definition BWLReadStartSession :: "BWLControl \<Rightarrow> BWLErrSeverity \<times> u16 option \<times> BWLControl" where
  "BWLReadStartSession c = (case tests c of
     None \<Rightarrow> (BWLErrFATAL, None, c)
   | Some t \<Rightarrow>
       (if \<not> BWLStateIs BWLStateStartSession c then (BWLErrFATAL, None, c)
        else let (n, c) = BWLReceiveBlocksIntr c 16 1
             in if n < 0 \<and> rd_status c = IoEintr then (BWLErrFATAL, None, c)
                else if n \<noteq> 1 then (BWLErrFATAL, None, set_state BWLStateInvalid c)
                else if slice 16 16 (msg c) \<noteq> zero16 then (BWLErrFATAL, None, set_state BWLStateInvalid c)
                else if msg c ! 0 \<noteq> 2 then (BWLErrFATAL, None, set_state BWLStateInvalid c)
                else (BWLErrOK, if conf_client t then Some (get_net16 (msg c) 2) else None,
                      or_state BWLStateTest (or_state BWLStateStartAck (clear_state BWLStateStartSession c)))))"

text \<open>The answer to a start request; the session must exist (the code reads through \<open>tests\<close>).\<close>

definition BWLWriteStartAck :: "BWLControl \<Rightarrow> u16 \<Rightarrow> BWLAcceptType \<Rightarrow> BWLErrSeverity \<times> BWLControl" where
  "BWLWriteStartAck c peerport acceptval =
     (if \<not> BWLStateIs BWLStateStartAck c then (BWLErrFATAL, c)
      else let buf = memset0 (msg c) 0 32;
               buf = buf[0 := ucast (acceptval AND 0xff)];
               buf = (if conf_server (the (tests c)) then put_net16 buf 2 peerport else buf);
               (n, c) = BWLSendBlocksIntr (c\<lparr>msg := buf\<rparr>) 2
           in if n < 0 \<and> wr_status c = IoEintr then (BWLErrFATAL, c)
              else if n \<noteq> 2 then (BWLErrFATAL, set_state BWLStateInvalid c)
              else let c = clear_state BWLStateStartAck c
                   in (BWLErrOK, if BWLStateIs BWLStateTest c \<and> acceptval \<noteq> BWL_CNTRL_ACCEPT
                                 then clear_state BWLStateTest c else c))"

definition BWLReadStartAck :: "BWLControl \<Rightarrow> BWLErrSeverity \<times> (u16 option \<times> BWLAcceptType) option \<times> BWLControl" where
  "BWLReadStartAck c =
     (if \<not> BWLStateIs BWLStateStartAck c then (BWLErrFATAL, None, c)
      else let (n, c) = BWLReceiveBlocks c 0 2
           in if n \<noteq> 2 then (BWLErrFATAL, None, set_state BWLStateInvalid c)
              else if slice 16 16 (msg c) \<noteq> zero16 then (BWLErrFATAL, None, set_state BWLStateInvalid c)
              else let acceptval = BWLGetAcceptType (msg c ! 0)
                   in if acceptval = BWL_CNTRL_INVALID then (BWLErrFATAL, None, set_state BWLStateInvalid c)
                      else let port = (if conf_server (the (tests c)) then Some (get_net16 (msg c) 2) else None);
                               c = clear_state BWLStateStartAck c
                           in (BWLErrOK, Some (port, acceptval),
                               if BWLStateIs BWLStateTest c \<and> acceptval \<noteq> BWL_CNTRL_ACCEPT
                               then or_state BWLStateRequest (clear_state BWLStateTest c) else c))"

section \<open>Stop\<close>

text \<open>One block read from the file and sent: \<open>k\<close> of its sixteen bytes.\<close>

definition send_file_block :: "nat \<Rightarrow> u8 list \<Rightarrow> BWLControl \<Rightarrow> bool \<times> BWLControl" where
  "send_file_block k data c =
     (let c = c\<lparr>msg := memcpy (msg c) 0 (take k data)\<rparr>
      in if length data < k then (False, c)
         else let (n, c) = BWLSendBlocksIntr c 1 in (n = 1, c))"

function send_file :: "nat \<Rightarrow> u8 list \<Rightarrow> BWLControl \<Rightarrow> BWLErrSeverity \<times> BWLControl" where
  "send_file fsize data c =
     (if 16 \<le> fsize
      then let (ok, c) = send_file_block 16 data c
           in if ok then send_file (fsize - 16) (drop 16 data) c else BWLFailControlSession c BWLErrFATAL
      else let (ok, c) = (if 0 < fsize then send_file_block fsize data (c\<lparr>msg := memset0 (msg c) 0 16\<rparr>) else (True, c))
           in if \<not> ok then BWLFailControlSession c BWLErrFATAL
              else let (n, c) = BWLSendBlocksIntr (c\<lparr>msg := memset0 (msg c) 0 16\<rparr>) 1
                   in if n \<noteq> 1 then BWLFailControlSession c BWLErrFATAL else (BWLErrOK, c))"
  by pat_completeness auto
termination by (relation "measure (\<lambda>(fsize, data, c). fsize)") auto

definition BWLWriteStopSession ::
  "BWLControl \<Rightarrow> BWLAcceptType \<Rightarrow> data_file option \<Rightarrow> BWLErrSeverity \<times> BWLControl" where
  "BWLWriteStopSession c acceptval fp =
     (if \<not> (BWLStateIs BWLStateRequest c \<and> BWLStateIs BWLStateTest c) then (BWLErrFATAL, c)
      else let buf = memset0 (msg c) 0 32;
               buf = buf[0 := 3];
               (acceptval, fsize, buf) = (case fp of
                   None \<Rightarrow> (acceptval, 0, buf)
                 | Some f \<Rightarrow>
                     if \<not> file_ok f then (BWL_CNTRL_FAILURE, 0, buf)
                     else let fsize = of_nat (st_size f) :: u32
                          in if unat fsize \<noteq> st_size f then (BWL_CNTRL_FAILURE, 0, buf)
                             else (acceptval, fsize, put_net32 buf 8 fsize));
               buf = buf[1 := ucast (acceptval AND 0xff)];
               (n, c) = BWLSendBlocksIntr (c\<lparr>msg := buf\<rparr>) 2
           in if n \<noteq> 2 then (BWLErrFATAL, c)
              else if fsize = 0 then (BWLErrOK, c)
              else send_file (unat fsize) (content (the fp)) c)"

text \<open>
  Reading the data: \<open>fp\<close> is \<open>None\<close> for a null pointer, otherwise whether writes to the file
  succeed; \<open>acc\<close> is what has been written to it.
\<close>

definition recv_file_block :: "nat \<Rightarrow> bool option \<Rightarrow> u8 list \<Rightarrow> BWLControl \<Rightarrow> bool \<times> u8 list \<times> BWLControl" where
  "recv_file_block k fp acc c =
     (let (n, c) = BWLReceiveBlocksIntr c 0 1
      in if n \<noteq> 1 then (False, acc, c)
         else (case fp of None \<Rightarrow> (True, acc, c)
               | Some ok \<Rightarrow> (ok, if ok then acc @ take k (msg c) else acc, c)))"

function recv_file :: "nat \<Rightarrow> bool option \<Rightarrow> u8 list \<Rightarrow> BWLControl \<Rightarrow> BWLErrSeverity \<times> u8 list \<times> BWLControl" where
  "recv_file fsize fp acc c =
     (if 16 \<le> fsize
      then let (ok, acc, c) = recv_file_block 16 fp acc c
           in if ok then recv_file (fsize - 16) fp acc c
              else (BWLErrFATAL, acc, set_state BWLStateInvalid c)
      else let (ok, acc, c) = (if 0 < fsize then recv_file_block fsize fp acc c else (True, acc, c))
           in if \<not> ok then (BWLErrFATAL, acc, set_state BWLStateInvalid c)
              else let (n, c) = BWLReceiveBlocksIntr c 0 1
                   in if n \<noteq> 1 then (BWLErrFATAL, acc, set_state BWLStateInvalid c)
                      else if take 16 (msg c) \<noteq> zero16 then (BWLErrFATAL, acc, set_state BWLStateInvalid c)
                      else (BWLErrOK, acc, c))"
  by pat_completeness auto
termination by (relation "measure (\<lambda>(fsize, fp, acc, c). fsize)") auto

definition BWLReadStopSession ::
  "BWLControl \<Rightarrow> bool option \<Rightarrow> BWLErrSeverity \<times> (BWLAcceptType option \<times> u8 list) \<times> BWLControl" where
  "BWLReadStopSession c fp =
     (if \<not> (BWLStateIs BWLStateRequest c \<and> BWLStateIs BWLStateTest c) then (BWLErrFATAL, (None, []), c)
      else let (n, c) = BWLReceiveBlocksIntr c 16 1
           in if n \<noteq> 1
              then (if n < 0 \<and> rd_status c = IoEintr then (BWLErrFATAL, (None, []), c)
                    else (BWLErrFATAL, (None, []), set_state BWLStateInvalid c))
              else if slice 16 16 (msg c) \<noteq> zero16 then (BWLErrFATAL, (None, []), set_state BWLStateInvalid c)
              else let aval = BWLGetAcceptType (msg c ! 1)
                   in if aval = BWL_CNTRL_INVALID then (BWLErrFATAL, (Some aval, []), set_state BWLStateInvalid c)
                      else let fsize = get_net32 (msg c) 8;
                               (r, data, c) = (if fsize = 0 then (BWLErrOK, [], c)
                                               else recv_file (unat fsize) fp [] c)
                           in if r \<noteq> BWLErrOK then (r, (Some aval, data), c)
                              else (BWLErrOK, (Some aval, data),
                                    or_state BWLStateRequest (clear_state BWLStateStopSession c)))"

end
