(* ===== verification/Messages.thy ===== *)
theory Messages
  imports Protocol
begin

unbundle bit_operations_syntax

text \<open>
  What the two ends of a control connection make of each other's messages: the theorems about
  the functions of \<open>Protocol\<close>. Every theorem has the shape \<^emph>\<open>if the ends are linked and in the
  states the code asks for, what one writes is what the other reads\<close>; ciphering, the read-ahead of
  the first block and the initialisation vectors are dealt with once, in \<open>Control\<close>.
\<close>

section \<open>State bits\<close>

named_theorems state_bits

lemma state_exp:
  "BWLStateSetup = 2 ^ 0" "BWLStateUptime = 2 ^ 1" "BWLStateRequest = 2 ^ 2" "BWLStateTest = 2 ^ 3"
  "BWLStateTestRequest = 2 ^ 4" "BWLStateStartSession = 2 ^ 5" "BWLStateStopSession = 2 ^ 6"
  "BWLStateTestAccept = 2 ^ 7" "BWLStateStartAck = 2 ^ 8" "BWLStateTimeRequest = 2 ^ 9"
  "BWLStateTimeResponse = 2 ^ 10"
  by (simp_all add: BWLStateSetup_def BWLStateUptime_def BWLStateRequest_def BWLStateTest_def
      BWLStateTestRequest_def BWLStateStartSession_def BWLStateStopSession_def BWLStateTestAccept_def
      BWLStateStartAck_def BWLStateTimeRequest_def BWLStateTimeResponse_def)

lemma exp_and_bit: "(2 ^ n AND s \<noteq> 0) = bit (s :: u32) n"
  using and_exp_eq_0_iff_not_bit [of s n] by (simp add: and.commute)

lemma state_is [state_bits]:
  "BWLStateIs BWLStateUptime c = bit (cstate c) 1" "BWLStateIs BWLStateRequest c = bit (cstate c) 2"
  "BWLStateIs BWLStateTest c = bit (cstate c) 3" "BWLStateIs BWLStateTestRequest c = bit (cstate c) 4"
  "BWLStateIs BWLStateStartSession c = bit (cstate c) 5" "BWLStateIs BWLStateStopSession c = bit (cstate c) 6"
  "BWLStateIs BWLStateTestAccept c = bit (cstate c) 7" "BWLStateIs BWLStateStartAck c = bit (cstate c) 8"
  "BWLStateIs BWLStateTimeRequest c = bit (cstate c) 9" "BWLStateIs BWLStateTimeResponse c = bit (cstate c) 10"
  by (simp_all only: BWLStateIs_def state_exp exp_and_bit)

lemma or_and_ne: "((a OR b) AND s \<noteq> 0) = (a AND s \<noteq> 0 \<or> b AND s \<noteq> (0 :: u32))"
proof -
  have "(a OR b) AND s = (a AND s) OR (b AND s)" by (simp add: and.commute bit.conj_disj_distrib)
  then show ?thesis by (simp add: or_eq_0_iff)
qed

lemma state_is_reading [state_bits]:
  "BWLStateIs BWLStateReading c = (bit (cstate c) 4 \<or> bit (cstate c) 5 \<or> bit (cstate c) 6 \<or> bit (cstate c) 9)"
  by (simp only: BWLStateIs_def BWLStateReading_def or_and_ne state_exp exp_and_bit disj_assoc)

lemma state_is_pending [state_bits]:
  "BWLStateIs BWLStatePending c = (bit (cstate c) 7 \<or> bit (cstate c) 8 \<or> bit (cstate c) 6 \<or> bit (cstate c) 10)"
  by (simp only: BWLStateIs_def BWLStatePending_def or_and_ne state_exp exp_and_bit disj_assoc)

lemma state_setup [state_bits]: "BWLStateIsSetup c \<longleftrightarrow> cstate c = BWLStateSetup"
  by (metis BWLStateIsSetup_def xor_cancel xor_self_eq xor.right_neutral)

lemma state_initial [state_bits]: "BWLStateIsInitial c \<longleftrightarrow> cstate c = 0"
  by (simp add: BWLStateIsInitial_def)

lemma bit_const [state_bits]:
  "bit BWLStateSetup n \<longleftrightarrow> n = 0" "bit BWLStateUptime n \<longleftrightarrow> n = 1" "bit BWLStateRequest n \<longleftrightarrow> n = 2"
  "bit BWLStateTest n \<longleftrightarrow> n = 3" "bit BWLStateTestRequest n \<longleftrightarrow> n = 4" "bit BWLStateStartSession n \<longleftrightarrow> n = 5"
  "bit BWLStateStopSession n \<longleftrightarrow> n = 6" "bit BWLStateTestAccept n \<longleftrightarrow> n = 7" "bit BWLStateStartAck n \<longleftrightarrow> n = 8"
  "bit BWLStateTimeRequest n \<longleftrightarrow> n = 9" "bit BWLStateTimeResponse n \<longleftrightarrow> n = 10" "\<not> bit BWLStateInvalid n"
  by (auto simp only: state_exp bit_exp_iff possible_bit_def BWLStateInvalid_def) simp_all

lemma cstate_ops [simp]:
  "cstate (set_state s c) = s" "cstate (or_state s c) = cstate c OR s"
  "cstate (clear_state s c) = cstate c AND NOT s"
  by (simp_all add: set_state_def or_state_def clear_state_def)

lemmas state_upd = set_state_def or_state_def clear_state_def

lemma bit_and_not: "bit (s AND NOT t) n = (bit s n \<and> \<not> bit (t :: u32) n)"
  using bit_imp_le_length [of s n] by (auto simp: bit_simps)

lemma bit_or_u32: "bit (s OR t) n = (bit s n \<or> bit (t :: u32) n)"
  by (simp add: bit_simps)

lemmas bits = state_bits bit_and_not bit_or_u32

text \<open>Setting a bit that is clear and clearing it again.\<close>

lemma or_and_not_cancel: "s AND t = (0 :: u32) \<Longrightarrow> (s OR t) AND NOT t = s"
proof -
  assume st: "s AND t = 0"
  show ?thesis
  proof (rule bit_word_eqI)
    fix n assume "n < LENGTH(32)"
    have "\<not> (bit s n \<and> bit t n)" using arg_cong [OF st, of "\<lambda>w. bit w n"] by (simp add: bit_simps)
    then show "bit ((s OR t) AND NOT t) n = bit s n" by (auto simp: bit_and_not bit_or_u32)
  qed
qed

section \<open>Fields of a delivered message\<close>

text \<open>The receiver's buffer after a message of \<open>k\<close> bytes agrees with the sender's on them.\<close>

lemma slice_take_copy [buf_simps]:
  assumes "length buf = 128" "length m = 128" "k \<le> 128" "i + n \<le> k"
  shows "slice i n (memcpy m 0 (take k buf)) = slice i n buf"
proof -
  have "memcpy m 0 (take k buf) = take k buf @ drop k m" using assms by (simp add: memcpy_def)
  then show ?thesis using assms by (auto simp: slice_def min_def drop_take)
qed

lemma nth_take_copy [buf_simps]:
  "length buf = 128 \<Longrightarrow> k \<le> 128 \<Longrightarrow> i < k \<Longrightarrow> memcpy m 0 (take k buf) ! i = buf ! i"
  by (simp add: memcpy_def nth_append)

lemma take_take_copy [buf_simps]:
  "length buf = 128 \<Longrightarrow> k \<le> 128 \<Longrightarrow> j \<le> k \<Longrightarrow> take j (memcpy m 0 (take k buf)) = take j buf"
  by (simp add: memcpy_def min_def)

lemma length_puts [simp]:
  "off + 2 \<le> length buf \<Longrightarrow> length (put_net16 buf off p) = length buf"
  "off + 4 \<le> length buf \<Longrightarrow> length (put_net32 buf off w) = length buf"
  by (simp_all add: put_net16_def put_net32_def)

lemma slice_put_same [buf_simps]:
  "off + 2 \<le> length buf \<Longrightarrow> slice off 2 (put_net16 buf off p) = be_bytes 2 (unat p)"
  "off + 4 \<le> length buf \<Longrightarrow> slice off 4 (put_net32 buf off w) = be_bytes 4 (unat w)"
  by (simp_all add: put_net16_def put_net32_def buf_simps)

lemma slice_put_other [buf_simps]:
  "off + 2 \<le> length buf \<Longrightarrow> i + n \<le> off \<or> off + 2 \<le> i \<Longrightarrow> slice i n (put_net16 buf off p) = slice i n buf"
  "off + 4 \<le> length buf \<Longrightarrow> i + n \<le> off \<or> off + 4 \<le> i \<Longrightarrow> slice i n (put_net32 buf off w) = slice i n buf"
  by (auto simp: put_net16_def put_net32_def buf_simps)

lemma nth_put_other [buf_simps]:
  "off + 2 \<le> length buf \<Longrightarrow> i < off \<or> off + 2 \<le> i \<Longrightarrow> put_net16 buf off p ! i = buf ! i"
  "off + 4 \<le> length buf \<Longrightarrow> i < off \<or> off + 4 \<le> i \<Longrightarrow> put_net32 buf off w ! i = buf ! i"
  by (auto simp: put_net16_def put_net32_def buf_simps)

lemma slice_memset0_same [buf_simps]:
  "off \<le> i \<Longrightarrow> i + n \<le> off + k \<Longrightarrow> off + k \<le> length buf \<Longrightarrow> slice i n (memset0 buf off k) = replicate n 0"
  by (auto simp: memset0_def memcpy_def slice_def min_def)

lemma slice_memset0_other [buf_simps]:
  "off + k \<le> length buf \<Longrightarrow> i + n \<le> off \<or> off + k \<le> i \<Longrightarrow> slice i n (memset0 buf off k) = slice i n buf"
  by (auto simp: memset0_def buf_simps)

lemma nth_memset0 [buf_simps]:
  "off + k \<le> length buf \<Longrightarrow> i < length buf \<Longrightarrow>
   memset0 buf off k ! i = (if off \<le> i \<and> i < off + k then 0 else buf ! i)"
  by (auto simp: memset0_def buf_simps)

lemma get_of_slice:
  "slice off 2 buf = be_bytes 2 (unat p) \<Longrightarrow> get_net16 buf off = p"
  "slice off 4 buf = be_bytes 4 (unat w) \<Longrightarrow> get_net32 buf off = w"
  by (simp_all add: get_net16_def get_net32_def be_nat_be_bytes)

lemma decode_encode_time [simp]: "decode_time (encode_time t) = t"
  by (simp add: decode_time_def encode_time_def)

lemma length_encode_time [simp]: "length (encode_time t) = 8"
  by (simp add: encode_time_def)

text \<open>Decoding a time looks at eight bytes only.\<close>

lemma decode_slice: "BWLDecodeTimeStamp ts (slice 0 8 buf) = BWLDecodeTimeStamp ts buf"
  by (simp add: BWLDecodeTimeStamp_def slice_def min_def drop_take)

lemma decode_time_slice: "decode_time (slice 0 8 buf) = decode_time buf"
  by (simp add: decode_time_def decode_slice)

lemma zero16_eq: "zero16 = replicate 16 0"
  by (simp add: zero16_def)

section \<open>Answers\<close>

definition valid_accept :: "BWLAcceptType \<Rightarrow> bool" where
  "valid_accept a \<longleftrightarrow> a \<in> {BWL_CNTRL_ACCEPT, BWL_CNTRL_REJECT, BWL_CNTRL_FAILURE, BWL_CNTRL_UNSUPPORTED}"

lemma accept_roundtrip [simp]: "valid_accept a \<Longrightarrow> BWLGetAcceptType (ucast (a AND 0xff)) = a"
  by (auto simp: valid_accept_def BWLGetAcceptType_def BWL_CNTRL_ACCEPT_def BWL_CNTRL_REJECT_def
      BWL_CNTRL_FAILURE_def BWL_CNTRL_UNSUPPORTED_def)

lemma valid_accept_not_invalid [simp]: "valid_accept a \<Longrightarrow> a \<noteq> BWL_CNTRL_INVALID"
  by (auto simp: valid_accept_def BWL_CNTRL_ACCEPT_def BWL_CNTRL_REJECT_def
      BWL_CNTRL_FAILURE_def BWL_CNTRL_UNSUPPORTED_def BWL_CNTRL_INVALID_def)

section \<open>Requests\<close>

text \<open>The request a first byte announces, with the state bit it sets.\<close>

fun request_kind :: "u8 \<Rightarrow> BWLRequestType \<Rightarrow> u32 \<Rightarrow> bool" where
  "request_kind t BWLReqTest st \<longleftrightarrow> t = 1 \<and> st = BWLStateTestRequest"
| "request_kind t BWLReqStartSession st \<longleftrightarrow> t = 2 \<and> st = BWLStateStartSession"
| "request_kind t BWLReqStopSession st \<longleftrightarrow> t = 3 \<and> st = BWLStateStopSession"
| "request_kind t BWLReqTime st \<longleftrightarrow> t = 4 \<and> st = BWLStateTimeRequest"
| "request_kind t r st \<longleftrightarrow> False"

definition awaits_request :: "BWLControl \<Rightarrow> bool" where
  "awaits_request s \<longleftrightarrow> BWLStateIs BWLStateRequest s \<and> \<not> BWLStateIs BWLStateReading s"

lemma request_delivered:
  assumes "linked a b" "n \<le> 7" "awaits_request b"
    and kind: "request_kind (msg a ! 0) r st" "BWLStateIs BWLStateTest b \<longleftrightarrow> r = BWLReqStopSession"
  obtains w iv m iv' where
    "BWLSendBlocksIntr a (Suc n) = (int (Suc n), a\<lparr>writeIV := iv, msg := m, sock_out := sock_out a @ w\<rparr>)" "length m = 128"
    "\<forall>rest. \<exists>b1. BWLReadRequestType (b\<lparr>sock_in := w @ rest\<rparr>) = (r, b1) \<and>
       cstate b1 = cstate b OR st \<and> tests b1 = tests b \<and> protocol_version b1 = protocol_version b \<and>
       BWLReceiveBlocksIntr b1 16 n =
         (int n, b\<lparr>msg := memcpy (msg b) 0 (take (16 * Suc n) (msg a)), sock_in := rest, readIV := iv',
                   cstate := cstate b OR st\<rparr>)"
    "linked (a\<lparr>writeIV := iv\<rparr>) (b\<lparr>readIV := iv'\<rparr>)"
proof -
  let ?m1 = "memcpy (msg b) 0 (take 16 (msg a))"
  obtain w iv m iv' where
    send: "BWLSendBlocksIntr a (Suc n) = (int (Suc n), a\<lparr>writeIV := iv, msg := m, sock_out := sock_out a @ w\<rparr>)" "length m = 128"
    and recv: "\<forall>rest. \<exists>s iv1. BWLReceiveBlocksIntr (b\<lparr>sock_in := w @ rest\<rparr>) 0 1 =
         (1, b\<lparr>msg := ?m1, sock_in := s, readIV := iv1\<rparr>) \<and>
       (\<forall>st. BWLReceiveBlocksIntr (b\<lparr>msg := ?m1, sock_in := s, readIV := iv1, cstate := st\<rparr>) 16 n =
         (int n, b\<lparr>msg := memcpy (msg b) 0 (take (16 * Suc n) (msg a)), sock_in := rest, readIV := iv', cstate := st\<rparr>))"
    and l: "linked (a\<lparr>writeIV := iv\<rparr>) (b\<lparr>readIV := iv'\<rparr>)"
    by (rule deliver_split [OF assms(1,2)]) (rule that; assumption)
  have byte: "?m1 ! 0 = msg a ! 0"
    using linked_length [OF assms(1)] by (simp add: buf_simps)
  have "\<exists>b1. BWLReadRequestType (b\<lparr>sock_in := w @ rest\<rparr>) = (r, b1) \<and>
       cstate b1 = cstate b OR st \<and> tests b1 = tests b \<and> protocol_version b1 = protocol_version b \<and>
       BWLReceiveBlocksIntr b1 16 n =
         (int n, b\<lparr>msg := memcpy (msg b) 0 (take (16 * Suc n) (msg a)), sock_in := rest, readIV := iv',
                   cstate := cstate b OR st\<rparr>)" for rest
  proof -
    obtain s iv1 where r1: "BWLReceiveBlocksIntr (b\<lparr>sock_in := w @ rest\<rparr>) 0 1 =
         (1, b\<lparr>msg := ?m1, sock_in := s, readIV := iv1\<rparr>)"
      and r2: "\<And>st. BWLReceiveBlocksIntr (b\<lparr>msg := ?m1, sock_in := s, readIV := iv1, cstate := st\<rparr>) 16 n =
         (int n, b\<lparr>msg := memcpy (msg b) 0 (take (16 * Suc n) (msg a)), sock_in := rest, readIV := iv', cstate := st\<rparr>)"
      using recv by blast
    have "BWLReadRequestType (b\<lparr>sock_in := w @ rest\<rparr>) =
        (r, b\<lparr>msg := ?m1, sock_in := s, readIV := iv1, cstate := cstate b OR st\<rparr>)"
      using assms(3) kind
      by (cases r) (simp_all add: BWLReadRequestType_def BWLStateIs_def awaits_request_def r1 byte or_state_def
          del: One_nat_def)
    then show ?thesis by (simp add: r2)
  qed
  then show ?thesis by (intro that [OF send _ l]) blast
qed

section \<open>Time\<close>

definition peers :: "BWLControl \<Rightarrow> BWLControl \<Rightarrow> bool" where
  "peers a b \<longleftrightarrow> linked a b \<and> linked b a"

definition may_request :: "BWLControl \<Rightarrow> bool" where
  "may_request c \<longleftrightarrow> BWLStateIs BWLStateRequest c \<and> \<not> BWLStateIs BWLStatePending c"

text \<open>Two ends of an encrypted connection under one key, for the witnesses.\<close>

definition sample_end :: "u32 \<Rightarrow> BWLTestSession option \<Rightarrow> BWLControl" where
  "sample_end st t = BWLMakeKey ((BWLControlAlloc [] IoOk IoOk)\<lparr>mode := BWL_MODE_ENCRYPTED, cstate := st,
     readIV := replicate 16 1, writeIV := replicate 16 1, tests := t\<rparr>) (replicate 16 7)"

definition sample_session :: BWLTestSession where
  "sample_session = \<lparr>sid = replicate 16 3, localtime = no_time, reserve_time = 5, fuzz = 0, tool_port = 5001,
     local_tool_port = 0, conf_client = True, conf_server = True,
     test_spec = \<lparr>verbose = 0, client = AF_OTHER, server = AF_OTHER,
       req_time = \<lparr>tstamp = 0, sync = 0, multiplier = 1, scale = 0\<rparr>, latest_time = 0, server_sends = 0,
       no_server_endpoint = 0, duration = 10, tool_id = 1, udp = 0, tos = 0, bandwidth = 0, window_size = 0,
       len_buffer = 0, report_interval = 0, mss = 0, omit = 0, parallel_streams = 0, units = 0, outformat = 0,
       dynamic_window_size = 0, ping_packet_count = 0, ping_interpacket_time = 0, ping_packet_size = 0,
       ping_packet_ttl = 0, traceroute_udp = 0, traceroute_packet_size = 0, traceroute_first_ttl = 0,
       traceroute_last_ttl = 0\<rparr>, localfp = None, remotefp = None, closure = None\<rparr>"

lemma sample_linked: "linked (sample_end st t) (sample_end st' t')"
  by (simp add: sample_end_def linked_def BWLMakeKey_def BWLControlAlloc_def do_cipher_def BWL_MODE_ENCRYPTED_def
      BWL_MODE_DOCIPHER_def BWL_MODE_AUTHENTICATED_def key_pairI)

lemma sample_peers: "peers (sample_end st t) (sample_end st' t')"
  by (simp add: peers_def sample_linked)

lemma sample_fields [simp]:
  "cstate (sample_end st t) = st" "tests (sample_end st t) = t" "sock_out (sample_end st t) = []"
  by (simp_all add: sample_end_def BWLMakeKey_def BWLControlAlloc_def)

lemma time_request_delivered:
  assumes "linked c s" "sock_out c = []" "may_request c" "awaits_request s" "\<not> BWLStateIs BWLStateTest s"
  obtains c1 s1 s2 where
    "BWLWriteTimeRequest c = (BWLErrOK, c1)" "cstate c1 = cstate c OR BWLStateTimeResponse"
    "BWLReadRequestType (arrive c1 rest s) = (BWLReqTime, s1)"
    "BWLReadTimeRequest s1 = (BWLErrOK, s2)" "sock_in s2 = rest" "sock_out s2 = sock_out s"
    "cstate s2 = (cstate s OR BWLStateTimeRequest) AND NOT BWLStateTimeRequest OR BWLStateTimeResponse"
    "linked c1 s2" "linked s c \<Longrightarrow> linked s2 c1"
proof -
  let ?buf = "memset0 ((msg c)[0 := 4]) 1 31"
  let ?a = "c\<lparr>msg := ?buf\<rparr>"
  have len: "length (msg c) = 128" "length (msg s) = 128" using linked_length [OF assms(1)] by simp_all
  have l: "linked ?a s" by (rule linked_msg(1) [OF assms(1)]) (simp add: len)
  have one: "(1 :: nat) \<le> 7" by simp
  have kind: "request_kind (msg ?a ! 0) BWLReqTime BWLStateTimeRequest"
    using len by (simp add: buf_simps)
  have test: "BWLStateIs BWLStateTest s \<longleftrightarrow> BWLReqTime = BWLReqStopSession" using assms(5) by simp
  obtain w iv m iv' where
    send: "BWLSendBlocksIntr ?a (Suc 1) = (int (Suc 1), ?a\<lparr>writeIV := iv, msg := m, sock_out := sock_out ?a @ w\<rparr>)" "length m = 128"
    and recv: "\<forall>rest. \<exists>b1. BWLReadRequestType (s\<lparr>sock_in := w @ rest\<rparr>) = (BWLReqTime, b1) \<and>
       cstate b1 = cstate s OR BWLStateTimeRequest \<and> tests b1 = tests s \<and> protocol_version b1 = protocol_version s \<and>
       BWLReceiveBlocksIntr b1 16 1 =
         (int 1, s\<lparr>msg := memcpy (msg s) 0 (take (16 * Suc 1) (msg ?a)), sock_in := rest, readIV := iv',
                   cstate := cstate s OR BWLStateTimeRequest\<rparr>)"
    and l': "linked (?a\<lparr>writeIV := iv\<rparr>) (s\<lparr>readIV := iv'\<rparr>)"
    by (rule request_delivered [OF l one assms(4) kind test]) (rule that; assumption)
  obtain s1 where rd: "BWLReadRequestType (s\<lparr>sock_in := w @ rest\<rparr>) = (BWLReqTime, s1)"
      "cstate s1 = cstate s OR BWLStateTimeRequest" "tests s1 = tests s"
    and rest: "BWLReceiveBlocksIntr s1 16 1 =
       (int 1, s\<lparr>msg := memcpy (msg s) 0 (take (16 * Suc 1) (msg ?a)), sock_in := rest, readIV := iv',
                 cstate := cstate s OR BWLStateTimeRequest\<rparr>)"
    using recv by blast
  let ?m = "memcpy (msg s) 0 (take 32 ?buf)"
  have pad: "slice 16 16 ?m = zero16" using len by (simp add: buf_simps zero16_eq)
  let ?c1 = "c\<lparr>writeIV := iv, msg := m, sock_out := w, cstate := cstate c OR BWLStateTimeResponse\<rparr>"
  let ?st = "(cstate s OR BWLStateTimeRequest) AND NOT BWLStateTimeRequest OR BWLStateTimeResponse"
  let ?s2 = "s\<lparr>msg := ?m, sock_in := rest, readIV := iv', cstate := ?st\<rparr>"
  show ?thesis
  proof (rule that [of ?c1 s1 ?s2])
    show "BWLWriteTimeRequest c = (BWLErrOK, ?c1)"
      using assms(2,3) send by (simp add: BWLWriteTimeRequest_def may_request_def BWLSendBlocks_def
          numeral_2_eq_2 or_state_def)
    show "BWLReadRequestType (arrive ?c1 rest s) = (BWLReqTime, s1)"
      using rd(1) by (simp add: arrive_def)
    show "BWLReadTimeRequest s1 = (BWLErrOK, ?s2)"
      using rd(2) rest pad by (simp add: BWLReadTimeRequest_def state_bits bit_or_u32 state_upd)
    show "linked ?c1 ?s2" "linked s c \<Longrightarrow> linked ?s2 ?c1"
      using l' len send(2) by (auto simp: linked_def)
  qed simp_all
qed

definition valid_timestamp :: "BWLTimeStamp \<Rightarrow> bool" where
  "valid_timestamp ts \<longleftrightarrow> multiplier ts \<noteq> 0 \<and> unat (scale ts) < 64 \<and> sync ts \<in> {0, 1}"

lemma valid_timestamp_wire:
  "valid_timestamp ts \<Longrightarrow> \<exists>e. BWLEncodeTimeStampErrEstimate ts = Some e \<and> length e = 2 \<and>
     BWLDecodeTimeStampErrEstimate (BWLDecodeTimeStamp t0 (BWLEncodeTimeStamp ts)) e = (ts, True)"
  unfolding valid_timestamp_def by (intro timestamp_wire) simp_all

lemma time_response_delivered:
  assumes "linked s c" "sock_out s = []" "BWLStateIs BWLStateTimeResponse s" "BWLStateIs BWLStateTimeResponse c"
    "valid_timestamp ts"
  obtains s1 c1 where
    "BWLWriteTimeResponse s ts = (BWLErrOK, s1)" "cstate s1 = cstate s AND NOT BWLStateTimeResponse"
    "BWLReadTimeResponse (arrive s1 rest c) t0 = (BWLErrOK, Some ts, c1)"
    "cstate c1 = cstate c AND NOT BWLStateTimeResponse" "sock_in c1 = rest"
    "linked s1 c1" "linked c s \<Longrightarrow> linked c1 s1"
proof -
  obtain e where e: "BWLEncodeTimeStampErrEstimate ts = Some e" "length e = 2"
      "BWLDecodeTimeStampErrEstimate (BWLDecodeTimeStamp t0 (BWLEncodeTimeStamp ts)) e = (ts, True)"
    using valid_timestamp_wire [OF assms(5)] by blast
  let ?buf = "memcpy (memcpy (memset0 (msg s) 0 32) 0 (BWLEncodeTimeStamp ts)) 8 e"
  let ?a = "s\<lparr>msg := ?buf\<rparr>"
  have len: "length (msg s) = 128" "length (msg c) = 128" using linked_length [OF assms(1)] by simp_all
  have l: "linked ?a c" by (rule linked_msg(1) [OF assms(1)]) (simp add: len e)
  have two: "(2 :: nat) \<le> 8" by simp
  obtain w iv m iv' where
    send: "BWLSendBlocksIntr ?a 2 = (int 2, ?a\<lparr>writeIV := iv, msg := m, sock_out := sock_out ?a @ w\<rparr>)" "length m = 128"
    and recv: "\<forall>rest. BWLReceiveBlocksIntr (c\<lparr>sock_in := w @ rest\<rparr>) 0 2 =
       (int 2, c\<lparr>msg := memcpy (msg c) 0 (take (16 * 2) (msg ?a)), sock_in := rest, readIV := iv'\<rparr>)"
    and l': "linked (?a\<lparr>writeIV := iv\<rparr>) (c\<lparr>readIV := iv'\<rparr>)"
    by (rule deliver_blocks [OF l two]) (rule that; assumption)
  let ?m = "memcpy (msg c) 0 (take 32 ?buf)"
  have fields: "slice 16 16 ?m = zero16" "slice 8 2 ?m = e"
    "BWLDecodeTimeStamp t0 ?m = BWLDecodeTimeStamp t0 (BWLEncodeTimeStamp ts)"
    using len e(2) decode_slice [of t0 ?m] by (simp_all add: buf_simps zero16_eq)
  let ?s1 = "s\<lparr>writeIV := iv, msg := m, sock_out := w, cstate := cstate s AND NOT BWLStateTimeResponse\<rparr>"
  let ?c1 = "c\<lparr>msg := ?m, sock_in := rest, readIV := iv', cstate := cstate c AND NOT BWLStateTimeResponse\<rparr>"
  show ?thesis
  proof (rule that [of ?s1 ?c1])
    show "BWLWriteTimeResponse s ts = (BWLErrOK, ?s1)"
      using assms(2,3) send(1) e(1) by (simp add: BWLWriteTimeResponse_def state_upd Let_def)
    show "BWLReadTimeResponse (arrive ?s1 rest c) t0 = (BWLErrOK, Some ts, ?c1)"
      using assms(4) recv fields e(3)
      by (simp add: BWLReadTimeResponse_def BWLReceiveBlocks_def arrive_def BWLStateIs_def state_upd Let_def)
    show "linked ?s1 ?c1" "linked c s \<Longrightarrow> linked ?c1 ?s1"
      using l' len send(2) by (auto simp: linked_def)
  qed simp_all
qed

lemmas sample_simps = may_request_def awaits_request_def valid_accept_def valid_timestamp_def
  BWLStateReading_def BWLStatePending_def BWLStateIs_def BWLStateSetup_def BWLStateUptime_def BWLStateRequest_def
  BWLStateTest_def BWLStateTestRequest_def BWLStateStartSession_def BWLStateStopSession_def BWLStateTestAccept_def
  BWLStateStartAck_def BWLStateTimeRequest_def BWLStateTimeResponse_def

text \<open>
  C26. A time exchange: a client in request state asks, the server recognises the request, answers
  with its timestamp, and the client reads exactly that timestamp. Both ends are back in the state
  they started from, nothing of the streams is consumed beyond the two messages, and the ends
  remain in step for the next message, ciphered or not.
\<close>

theorem time_exchange:
  assumes "peers c s" "sock_out c = []" "sock_out s = []"
    and "may_request c" "awaits_request s" "\<not> BWLStateIs BWLStateTest s" "\<not> BWLStateIs BWLStateTimeResponse s"
    and "valid_timestamp ts"
  shows "\<exists>c1 s1 s2 s3 c2. BWLWriteTimeRequest c = (BWLErrOK, c1) \<and>
    BWLReadRequestType (arrive c1 rest s) = (BWLReqTime, s1) \<and> BWLReadTimeRequest s1 = (BWLErrOK, s2) \<and>
    BWLWriteTimeResponse s2 ts = (BWLErrOK, s3) \<and>
    BWLReadTimeResponse (arrive s3 rest' c1) t0 = (BWLErrOK, Some ts, c2) \<and>
    cstate c2 = cstate c \<and> cstate s3 = cstate s \<and> sock_in c2 = rest' \<and> peers c2 s3"
proof -
  have links: "linked c s" "linked s c" using assms(1) by (simp_all add: peers_def)
  obtain c1 s1 s2 where req: "BWLWriteTimeRequest c = (BWLErrOK, c1)" "cstate c1 = cstate c OR BWLStateTimeResponse"
      "BWLReadRequestType (arrive c1 rest s) = (BWLReqTime, s1)"
      "BWLReadTimeRequest s1 = (BWLErrOK, s2)" "sock_out s2 = sock_out s"
      "cstate s2 = (cstate s OR BWLStateTimeRequest) AND NOT BWLStateTimeRequest OR BWLStateTimeResponse"
      "linked c1 s2" "linked s2 c1"
    using time_request_delivered [OF links(1) assms(2,4,5,6), of rest] links(2) by metis
  have st: "BWLStateIs BWLStateTimeResponse s2" "BWLStateIs BWLStateTimeResponse c1" "sock_out s2 = []"
    using req(2,5,6) assms(3) by (simp_all add: bits)
  obtain s3 c2 where resp: "BWLWriteTimeResponse s2 ts = (BWLErrOK, s3)"
      "cstate s3 = cstate s2 AND NOT BWLStateTimeResponse"
      "BWLReadTimeResponse (arrive s3 rest' c1) t0 = (BWLErrOK, Some ts, c2)"
      "cstate c2 = cstate c1 AND NOT BWLStateTimeResponse" "sock_in c2 = rest'" "linked s3 c2" "linked c2 s3"
    using time_response_delivered [OF req(8) st(3,1,2) assms(8), of rest' t0] req(7) by metis
  have "cstate s3 = cstate s" "cstate c2 = cstate c"
    using assms(4-7) unfolding resp(2,4) req(2,6)
    by (auto intro!: bit_word_eqI simp: awaits_request_def may_request_def bits)
  with req resp show ?thesis by (auto simp: peers_def)
qed

theorem time_exchange_witness:
  "\<exists>c1 s1 s2 s3 c2. BWLWriteTimeRequest (sample_end 4 None) = (BWLErrOK, c1) \<and>
    BWLReadRequestType (arrive c1 [] (sample_end 4 None)) = (BWLReqTime, s1) \<and> BWLReadTimeRequest s1 = (BWLErrOK, s2) \<and>
    BWLWriteTimeResponse s2 \<lparr>tstamp = 7, sync = 1, multiplier = 3, scale = 5\<rparr> = (BWLErrOK, s3) \<and>
    BWLReadTimeResponse (arrive s3 [9] c1) \<lparr>tstamp = 0, sync = 0, multiplier = 0, scale = 0\<rparr> =
      (BWLErrOK, Some \<lparr>tstamp = 7, sync = 1, multiplier = 3, scale = 5\<rparr>, c2) \<and>
    cstate c2 = cstate (sample_end 4 None) \<and> cstate s3 = cstate (sample_end 4 None) \<and> sock_in c2 = [9] \<and> peers c2 s3"
  by (rule time_exchange [OF sample_peers]) (simp_all add: sample_simps)

section \<open>Accept\<close>

text \<open>A two-block answer composed in the buffer of one end and read by the other.\<close>

lemma answer_delivered:
  assumes "linked a b" "length buf = 128"
  obtains w iv m iv' where
    "BWLSendBlocksIntr (a\<lparr>msg := buf\<rparr>) 2 = (2, a\<lparr>writeIV := iv, msg := m, sock_out := sock_out a @ w\<rparr>)"
    "length m = 128"
    "BWLReceiveBlocksIntr (b\<lparr>sock_in := w @ rest\<rparr>) 0 2 =
       (2, b\<lparr>msg := memcpy (msg b) 0 (take 32 buf), sock_in := rest, readIV := iv'\<rparr>)"
    "linked (a\<lparr>writeIV := iv\<rparr>) (b\<lparr>readIV := iv'\<rparr>)"
proof -
  let ?a = "a\<lparr>msg := buf\<rparr>"
  have l: "linked ?a b" by (rule linked_msg(1) [OF assms])
  have two: "(2 :: nat) \<le> 8" by simp
  obtain w iv m iv' where
    send: "BWLSendBlocksIntr ?a 2 = (int 2, ?a\<lparr>writeIV := iv, msg := m, sock_out := sock_out ?a @ w\<rparr>)" "length m = 128"
    and recv: "\<forall>rest. BWLReceiveBlocksIntr (b\<lparr>sock_in := w @ rest\<rparr>) 0 2 =
       (int 2, b\<lparr>msg := memcpy (msg b) 0 (take (16 * 2) (msg ?a)), sock_in := rest, readIV := iv'\<rparr>)"
    and l': "linked (?a\<lparr>writeIV := iv\<rparr>) (b\<lparr>readIV := iv'\<rparr>)"
    by (rule deliver_blocks [OF l two]) (rule that; assumption)
  have "linked (a\<lparr>writeIV := iv\<rparr>) (b\<lparr>readIV := iv'\<rparr>)"
    using l' linked_length [OF assms(1)] by (auto simp: linked_def)
  with send recv show ?thesis by (intro that [where w = w and iv = iv and m = m and iv' = iv']) simp_all
qed

lemma get_copy:
  assumes "length buf = 128" "length m = 128" "k \<le> 128"
  shows "i + 2 \<le> k \<Longrightarrow> get_net16 (memcpy m 0 (take k buf)) i = get_net16 buf i"
    and "i + 4 \<le> k \<Longrightarrow> get_net32 (memcpy m 0 (take k buf)) i = get_net32 buf i"
  using assms by (simp_all add: get_net16_def get_net32_def buf_simps)

lemma be_bytes_zero [simp]: "be_bytes k 0 = replicate k 0"
proof -
  have "le_bytes k 0 = replicate k 0" by (induction k) simp_all
  then show ?thesis by (simp add: be_bytes_def)
qed

lemma decode_time_at: "slice i 8 buf = encode_time t \<Longrightarrow> decode_time (slice i 8 buf) = t"
  by simp

text \<open>The session of the client after it has read the server's answer.\<close>

definition accepted_session :: "BWLTestSession \<Rightarrow> BWLTestSession \<Rightarrow> BWLTestSession" where
  "accepted_session t u =
     (let u = (if conf_server u then u\<lparr>tool_port := if conf_server t then tool_port t else 0, sid := sid t\<rparr> else u)
      in u\<lparr>reserve_time := reserve_time t\<rparr>)"

lemma test_accept_delivered:
  assumes "linked s c" "sock_out s = []" "BWLStateIs BWLStateTestAccept s" "BWLStateIs BWLStateTestAccept c"
    and "valid_accept a" "length (sid t) = 16"
  shows "\<exists>s1 c1. BWLWriteTestAccept s a t = (BWLErrOK, s1) \<and>
    BWLReadTestAccept (arrive s1 rest c) u = (BWLErrOK, Some (a, accepted_session t u), c1) \<and>
    cstate s1 = cstate s AND NOT BWLStateTestAccept \<and> cstate c1 = cstate c AND NOT BWLStateTestAccept \<and>
    sock_in c1 = rest \<and> linked s1 c1 \<and> (linked c s \<longrightarrow> linked c1 s1) \<and>
    tests s1 = tests s \<and> tests c1 = tests c \<and> sock_out c1 = sock_out c"
proof -
  define b1 where "b1 = (memset0 (msg s) 0 32)[0 := ucast (a AND 0xff)]"
  define b2 where "b2 = (if conf_server t then put_net16 b1 2 (tool_port t) else b1)"
  define buf where "buf = memcpy (memcpy b2 4 (sid t)) 20 (encode_time (reserve_time t))"
  have len: "length (msg s) = 128" "length (msg c) = 128" using linked_length [OF assms(1)] by simp_all
  then have l: "length b1 = 128" "length b2 = 128" "length buf = 128"
    using assms(6) by (simp_all add: b1_def b2_def buf_def)
  obtain w iv m iv' where
    send: "BWLSendBlocksIntr (s\<lparr>msg := buf\<rparr>) 2 = (2, s\<lparr>writeIV := iv, msg := m, sock_out := sock_out s @ w\<rparr>)"
      "length m = 128"
    and recv: "BWLReceiveBlocksIntr (c\<lparr>sock_in := w @ rest\<rparr>) 0 2 =
       (2, c\<lparr>msg := memcpy (msg c) 0 (take 32 buf), sock_in := rest, readIV := iv'\<rparr>)"
    and l': "linked (s\<lparr>writeIV := iv\<rparr>) (c\<lparr>readIV := iv'\<rparr>)"
    by (rule answer_delivered [OF assms(1) l(3), of rest]) (rule that; assumption)
  let ?m = "memcpy (msg c) 0 (take 32 buf)"
  have b1: "slice i n b1 = replicate n 0" if "1 \<le> i" "i + n \<le> 32" for i n
    using that len by (simp add: b1_def buf_simps)
  have b2: "slice 28 4 b2 = replicate 4 0" "slice 2 2 b2 = be_bytes 2 (unat (if conf_server t then tool_port t else 0))"
    "b2 ! 0 = ucast (a AND 0xff)"
    using l b1 [of 28 4] b1 [of 2 2] len by (simp_all add: b2_def buf_simps) (simp_all add: b1_def)
  have fields: "slice 28 4 ?m = replicate 4 0" "?m ! 0 = ucast (a AND 0xff)"
    "get_net16 ?m 2 = (if conf_server t then tool_port t else 0)" "slice 4 16 ?m = sid t"
    "slice 20 8 ?m = encode_time (reserve_time t)"
    using len l assms(6) b2 by (simp_all add: get_copy get_of_slice buf_simps) (simp_all add: buf_def buf_simps get_of_slice)
  let ?s1 = "s\<lparr>writeIV := iv, msg := m, sock_out := w, cstate := cstate s AND NOT BWLStateTestAccept\<rparr>"
  let ?c1 = "c\<lparr>msg := ?m, sock_in := rest, readIV := iv', cstate := cstate c AND NOT BWLStateTestAccept\<rparr>"
  have "BWLWriteTestAccept s a t = (BWLErrOK, ?s1)"
    unfolding BWLWriteTestAccept_def Let_def b1_def [symmetric] b2_def [symmetric] buf_def [symmetric]
    using assms(2,3) send(1) by (simp add: state_upd)
  moreover have "BWLReadTestAccept (arrive ?s1 rest c) u = (BWLErrOK, Some (a, accepted_session t u), ?c1)"
    using assms(4,5) recv fields
    by (simp add: BWLReadTestAccept_def BWLReceiveBlocks_def arrive_def BWLStateIs_def state_upd Let_def
        accepted_session_def)
  moreover have "linked ?s1 ?c1" "linked c s \<longrightarrow> linked ?c1 ?s1"
    using l' len send(2) l by (auto simp: linked_def)
  ultimately show ?thesis by (intro exI [of _ ?s1] exI [of _ ?c1]) simp
qed

text \<open>
  C27. The answer to a test request: the client reads the server's verdict and the reserved time,
  and, when the server runs the receiving side, the port and the session identifier the server
  chose. Both ends leave the accept state and stay in step.
\<close>

theorem test_accept_roundtrip:
  assumes "linked s c" "sock_out s = []" "BWLStateIs BWLStateTestAccept s" "BWLStateIs BWLStateTestAccept c"
    and "valid_accept a" "length (sid t) = 16"
  shows "\<exists>s1 c1. BWLWriteTestAccept s a t = (BWLErrOK, s1) \<and>
    BWLReadTestAccept (arrive s1 rest c) u = (BWLErrOK, Some (a, accepted_session t u), c1) \<and>
    cstate s1 = cstate s AND NOT BWLStateTestAccept \<and> cstate c1 = cstate c AND NOT BWLStateTestAccept \<and>
    sock_in c1 = rest \<and> linked s1 c1"
  using test_accept_delivered [OF assms, of rest u] by blast

theorem test_accept_roundtrip_witness:
  "\<exists>s1 c1. BWLWriteTestAccept (sample_end 0x84 None) BWL_CNTRL_ACCEPT sample_session = (BWLErrOK, s1) \<and>
    BWLReadTestAccept (arrive s1 [] (sample_end 0x84 None)) sample_session =
      (BWLErrOK, Some (BWL_CNTRL_ACCEPT, accepted_session sample_session sample_session), c1) \<and>
    cstate s1 = cstate (sample_end 0x84 None) AND NOT BWLStateTestAccept \<and>
    cstate c1 = cstate (sample_end 0x84 None) AND NOT BWLStateTestAccept \<and> sock_in c1 = [] \<and> linked s1 c1"
  by (rule test_accept_roundtrip [OF sample_linked]) (simp_all add: sample_simps sample_session_def)

section \<open>Start and acknowledge\<close>

lemma start_request_delivered:
  assumes "linked c s" "sock_out c = []" "may_request c" "awaits_request s" "\<not> BWLStateIs BWLStateTest s"
    and "tests c = Some t" "tests s = Some u" "conf_client u = conf_client t"
  obtains c1 s1 s2 where
    "BWLWriteStartSession c p = (BWLErrOK, c1)" "cstate c1 = cstate c OR BWLStateStartAck OR BWLStateTest"
    "tests c1 = Some t" "BWLReadRequestType (arrive c1 rest s) = (BWLReqStartSession, s1)"
    "BWLReadStartSession s1 = (BWLErrOK, if conf_client t then Some p else None, s2)"
    "sock_in s2 = rest" "sock_out s2 = sock_out s" "tests s2 = Some u"
    "cstate s2 = (cstate s OR BWLStateStartSession) AND NOT BWLStateStartSession OR BWLStateStartAck OR BWLStateTest"
    "linked c1 s2" "linked s c \<Longrightarrow> linked s2 c1"
proof -
  define b1 where "b1 = (memset0 (msg c) 0 32)[0 := 2]"
  define buf where "buf = (if conf_client t then put_net16 b1 2 p else b1)"
  let ?a = "c\<lparr>msg := buf\<rparr>"
  have len: "length (msg c) = 128" "length (msg s) = 128" using linked_length [OF assms(1)] by simp_all
  then have lb: "length b1 = 128" "length buf = 128" by (simp_all add: b1_def buf_def)
  have l: "linked ?a s" by (rule linked_msg(1) [OF assms(1) lb(2)])
  have one: "(1 :: nat) \<le> 7" by simp
  have type: "buf ! 0 = 2" "b1 ! 0 = 2" using len lb by (simp_all add: buf_def b1_def buf_simps)
  have kind: "request_kind (msg ?a ! 0) BWLReqStartSession BWLStateStartSession" using type by simp
  have test: "BWLStateIs BWLStateTest s \<longleftrightarrow> BWLReqStartSession = BWLReqStopSession" using assms(5) by simp
  obtain w iv m iv' where
    send: "BWLSendBlocksIntr ?a (Suc 1) = (int (Suc 1), ?a\<lparr>writeIV := iv, msg := m, sock_out := sock_out ?a @ w\<rparr>)" "length m = 128"
    and recv: "\<forall>rest. \<exists>b1. BWLReadRequestType (s\<lparr>sock_in := w @ rest\<rparr>) = (BWLReqStartSession, b1) \<and>
       cstate b1 = cstate s OR BWLStateStartSession \<and> tests b1 = tests s \<and> protocol_version b1 = protocol_version s \<and>
       BWLReceiveBlocksIntr b1 16 1 =
         (int 1, s\<lparr>msg := memcpy (msg s) 0 (take (16 * Suc 1) (msg ?a)), sock_in := rest, readIV := iv',
                   cstate := cstate s OR BWLStateStartSession\<rparr>)"
    and l': "linked (?a\<lparr>writeIV := iv\<rparr>) (s\<lparr>readIV := iv'\<rparr>)"
    by (rule request_delivered [OF l one assms(4) kind test]) (rule that; assumption)
  obtain s1 where rd: "BWLReadRequestType (s\<lparr>sock_in := w @ rest\<rparr>) = (BWLReqStartSession, s1)"
      "cstate s1 = cstate s OR BWLStateStartSession" "tests s1 = tests s"
    and rest: "BWLReceiveBlocksIntr s1 16 1 =
       (int 1, s\<lparr>msg := memcpy (msg s) 0 (take (16 * Suc 1) (msg ?a)), sock_in := rest, readIV := iv',
                 cstate := cstate s OR BWLStateStartSession\<rparr>)"
    using recv by blast
  let ?m = "memcpy (msg s) 0 (take 32 buf)"
  have fields: "slice 16 16 ?m = zero16" "?m ! 0 = 2" "conf_client t \<Longrightarrow> get_net16 ?m 2 = p"
    using len lb type by (simp_all add: get_copy get_of_slice buf_simps)
      (simp_all add: buf_def b1_def buf_simps zero16_eq get_of_slice)
  let ?c1 = "c\<lparr>writeIV := iv, msg := m, sock_out := w, cstate := cstate c OR BWLStateStartAck OR BWLStateTest\<rparr>"
  let ?st = "(cstate s OR BWLStateStartSession) AND NOT BWLStateStartSession OR BWLStateStartAck OR BWLStateTest"
  let ?s2 = "s\<lparr>msg := ?m, sock_in := rest, readIV := iv', cstate := ?st\<rparr>"
  show ?thesis
  proof (rule that [of ?c1 s1 ?s2])
    show "BWLWriteStartSession c p = (BWLErrOK, ?c1)"
      unfolding BWLWriteStartSession_def assms(6) Let_def option.case b1_def [symmetric] buf_def [symmetric]
      using assms(2,3) send by (simp add: may_request_def BWLSendBlocks_def numeral_2_eq_2 or_state_def or.assoc)
    show "BWLReadRequestType (arrive ?c1 rest s) = (BWLReqStartSession, s1)"
      using rd(1) by (simp add: arrive_def)
    show "BWLReadStartSession s1 = (BWLErrOK, if conf_client t then Some p else None, ?s2)"
      using rd(2,3) rest fields assms(7,8)
      by (simp add: BWLReadStartSession_def state_bits bit_or_u32 state_upd or.assoc)
    show "linked ?c1 ?s2" "linked s c \<Longrightarrow> linked ?s2 ?c1"
      using l' len send(2) lb by (auto simp: linked_def)
  qed (simp_all add: assms(6,7))
qed

lemma start_ack_delivered:
  assumes "linked s c" "sock_out s = []" "BWLStateIs BWLStateStartAck s" "BWLStateIs BWLStateStartAck c"
    and "valid_accept a" "tests s = Some u" "tests c = Some t" "conf_server u = conf_server t"
  obtains s1 c1 where
    "BWLWriteStartAck s p a = (BWLErrOK, s1)"
    "BWLReadStartAck (arrive s1 rest c) = (BWLErrOK, Some (if conf_server t then Some p else None, a), c1)"
    "sock_in c1 = rest" "linked s1 c1" "linked c s \<longrightarrow> linked c1 s1"
    "\<forall>n. bit (cstate s1) n \<longleftrightarrow> bit (cstate s) n \<and> n \<noteq> 8 \<and> (n = 3 \<longrightarrow> a = BWL_CNTRL_ACCEPT)"
    "\<forall>n. bit (cstate c1) n \<longleftrightarrow> bit (cstate c) n \<and> n \<noteq> 8 \<and> (n = 3 \<longrightarrow> a = BWL_CNTRL_ACCEPT) \<or>
       n = 2 \<and> bit (cstate c) 3 \<and> a \<noteq> BWL_CNTRL_ACCEPT"
proof -
  define b1 where "b1 = (memset0 (msg s) 0 32)[0 := ucast (a AND 0xff)]"
  define buf where "buf = (if conf_server t then put_net16 b1 2 p else b1)"
  have len: "length (msg s) = 128" "length (msg c) = 128" using linked_length [OF assms(1)] by simp_all
  then have lb: "length b1 = 128" "length buf = 128" by (simp_all add: b1_def buf_def)
  obtain w iv m iv' where
    send: "BWLSendBlocksIntr (s\<lparr>msg := buf\<rparr>) 2 = (2, s\<lparr>writeIV := iv, msg := m, sock_out := sock_out s @ w\<rparr>)"
      "length m = 128"
    and recv: "BWLReceiveBlocksIntr (c\<lparr>sock_in := w @ rest\<rparr>) 0 2 =
       (2, c\<lparr>msg := memcpy (msg c) 0 (take 32 buf), sock_in := rest, readIV := iv'\<rparr>)"
    and l': "linked (s\<lparr>writeIV := iv\<rparr>) (c\<lparr>readIV := iv'\<rparr>)"
    by (rule answer_delivered [OF assms(1) lb(2), of rest]) (rule that; assumption)
  let ?m = "memcpy (msg c) 0 (take 32 buf)"
  have type: "buf ! 0 = ucast (a AND 0xff)" using len lb by (simp_all add: buf_def b1_def buf_simps)
  have fields: "slice 16 16 ?m = zero16" "?m ! 0 = ucast (a AND 0xff)" "conf_server t \<Longrightarrow> get_net16 ?m 2 = p"
    using len lb type by (simp_all add: get_copy get_of_slice buf_simps)
      (simp_all add: buf_def b1_def buf_simps zero16_eq get_of_slice)
  let ?s0 = "clear_state BWLStateStartAck (s\<lparr>writeIV := iv, msg := m, sock_out := w\<rparr>)"
  let ?s1 = "if BWLStateIs BWLStateTest ?s0 \<and> a \<noteq> BWL_CNTRL_ACCEPT then clear_state BWLStateTest ?s0 else ?s0"
  let ?c0 = "clear_state BWLStateStartAck (c\<lparr>msg := ?m, sock_in := rest, readIV := iv'\<rparr>)"
  let ?c1 = "if BWLStateIs BWLStateTest ?c0 \<and> a \<noteq> BWL_CNTRL_ACCEPT
             then or_state BWLStateRequest (clear_state BWLStateTest ?c0) else ?c0"
  have frame: "arrive ?s1 rest c = c\<lparr>sock_in := w @ rest\<rparr>" by (simp add: arrive_def state_upd)
  show ?thesis
  proof (rule that [of ?s1 ?c1])
    show "BWLWriteStartAck s p a = (BWLErrOK, ?s1)"
      unfolding BWLWriteStartAck_def Let_def assms(6) option.sel assms(8) b1_def [symmetric] buf_def [symmetric]
      using assms(2,3) send by simp
    show "BWLReadStartAck (arrive ?s1 rest c) = (BWLErrOK, Some (if conf_server t then Some p else None, a), ?c1)"
      unfolding frame using assms(4,5,7) recv fields
      by (simp add: BWLReadStartAck_def BWLReceiveBlocks_def BWLStateIs_def Let_def state_upd)
    show "linked ?s1 ?c1" "linked c s \<longrightarrow> linked ?c1 ?s1"
      using l' len send(2) lb by (auto simp: linked_def state_upd)
    show "sock_in ?c1 = rest" by (simp add: state_upd)
  qed (auto simp: bits state_upd)
qed

text \<open>
  C28. Starting a test: the server reads the client's start request with the peer's port, and the
  client reads the acknowledgement with the server's port and verdict. After an acceptance both
  ends are in the test state; after any other verdict both are back where they started. Either
  way the ends agree on whether a test is running.
\<close>

theorem start_exchange:
  assumes "peers c s" "sock_out c = []" "sock_out s = []" "may_request c" "\<not> BWLStateIs BWLStateTest c"
    and "awaits_request s" "\<not> BWLStateIs BWLStateTest s" "\<not> BWLStateIs BWLStateStartAck s"
    and "tests c = Some t" "tests s = Some u" "conf_client u = conf_client t" "conf_server u = conf_server t"
    and "valid_accept a"
  shows "\<exists>c1 s1 s2 s3 c2. BWLWriteStartSession c p = (BWLErrOK, c1) \<and>
    BWLReadRequestType (arrive c1 rest s) = (BWLReqStartSession, s1) \<and>
    BWLReadStartSession s1 = (BWLErrOK, if conf_client t then Some p else None, s2) \<and>
    BWLWriteStartAck s2 q a = (BWLErrOK, s3) \<and>
    BWLReadStartAck (arrive s3 rest' c1) = (BWLErrOK, Some (if conf_server t then Some q else None, a), c2) \<and>
    cstate c2 = (if a = BWL_CNTRL_ACCEPT then cstate c OR BWLStateTest else cstate c) \<and>
    cstate s3 = (if a = BWL_CNTRL_ACCEPT then cstate s OR BWLStateTest else cstate s) \<and>
    sock_in c2 = rest' \<and> peers c2 s3"
proof -
  have links: "linked c s" "linked s c" using assms(1) by (simp_all add: peers_def)
  obtain c1 s1 s2 where req: "BWLWriteStartSession c p = (BWLErrOK, c1)"
      "cstate c1 = cstate c OR BWLStateStartAck OR BWLStateTest" "tests c1 = Some t"
      "BWLReadRequestType (arrive c1 rest s) = (BWLReqStartSession, s1)"
      "BWLReadStartSession s1 = (BWLErrOK, if conf_client t then Some p else None, s2)"
      "sock_out s2 = sock_out s" "tests s2 = Some u"
      "cstate s2 = (cstate s OR BWLStateStartSession) AND NOT BWLStateStartSession OR BWLStateStartAck OR BWLStateTest"
      "linked c1 s2" "linked s2 c1"
    using start_request_delivered [OF links(1) assms(2,4,6,7,9,10,11), of p rest] links(2) by metis
  have st: "BWLStateIs BWLStateStartAck s2" "BWLStateIs BWLStateStartAck c1" "sock_out s2 = []"
    using req(2,6,8) assms(3) by (simp_all add: bits)
  obtain s3 c2 where ack: "BWLWriteStartAck s2 q a = (BWLErrOK, s3)"
      "BWLReadStartAck (arrive s3 rest' c1) = (BWLErrOK, Some (if conf_server t then Some q else None, a), c2)"
      "sock_in c2 = rest'" "linked s3 c2" "linked c1 s2 \<longrightarrow> linked c2 s3"
    and bits3: "\<forall>n. bit (cstate s3) n \<longleftrightarrow> bit (cstate s2) n \<and> n \<noteq> 8 \<and> (n = 3 \<longrightarrow> a = BWL_CNTRL_ACCEPT)"
      "\<forall>n. bit (cstate c2) n \<longleftrightarrow> bit (cstate c1) n \<and> n \<noteq> 8 \<and> (n = 3 \<longrightarrow> a = BWL_CNTRL_ACCEPT) \<or>
         n = 2 \<and> bit (cstate c1) 3 \<and> a \<noteq> BWL_CNTRL_ACCEPT"
    by (rule start_ack_delivered [OF req(10) st(3,1,2) assms(13) req(7,3) assms(12), of q rest']) (rule that; assumption)
  have "cstate c2 = (if a = BWL_CNTRL_ACCEPT then cstate c OR BWLStateTest else cstate c)"
    using assms(4,5) by (auto intro!: bit_word_eqI simp: bits3(2) [rule_format] req(2) bits may_request_def)
  moreover have "cstate s3 = (if a = BWL_CNTRL_ACCEPT then cstate s OR BWLStateTest else cstate s)"
    using assms(6-8) by (auto intro!: bit_word_eqI simp: bits3(1) [rule_format] req(8) bits awaits_request_def)
  ultimately show ?thesis using req(1,4,5,9) ack by (auto simp: peers_def)
qed

theorem start_exchange_witness:
  "\<exists>c1 s1 s2 s3 c2. BWLWriteStartSession (sample_end 4 (Some sample_session)) 7 = (BWLErrOK, c1) \<and>
    BWLReadRequestType (arrive c1 [] (sample_end 4 (Some sample_session))) = (BWLReqStartSession, s1) \<and>
    BWLReadStartSession s1 = (BWLErrOK, if conf_client sample_session then Some 7 else None, s2) \<and>
    BWLWriteStartAck s2 8 BWL_CNTRL_ACCEPT = (BWLErrOK, s3) \<and>
    BWLReadStartAck (arrive s3 [] c1) =
      (BWLErrOK, Some (if conf_server sample_session then Some 8 else None, BWL_CNTRL_ACCEPT), c2) \<and>
    cstate c2 = (if BWL_CNTRL_ACCEPT = BWL_CNTRL_ACCEPT then cstate (sample_end 4 (Some sample_session)) OR BWLStateTest
                 else cstate (sample_end 4 (Some sample_session))) \<and>
    cstate s3 = (if BWL_CNTRL_ACCEPT = BWL_CNTRL_ACCEPT then cstate (sample_end 4 (Some sample_session)) OR BWLStateTest
                 else cstate (sample_end 4 (Some sample_session))) \<and>
    sock_in c2 = [] \<and> peers c2 s3"
  by (rule start_exchange [OF sample_peers, where u = sample_session]) (simp_all add: sample_simps)

section \<open>Stop\<close>

declare send_file.simps [simp del] recv_file.simps [simp del]

lemma block_delivered:
  assumes "linked a b" "length buf = 128"
  obtains w iv m iv' where
    "BWLSendBlocksIntr (a\<lparr>msg := buf\<rparr>) 1 = (1, a\<lparr>writeIV := iv, msg := m, sock_out := sock_out a @ w\<rparr>)"
    "length m = 128"
    "\<forall>rest. BWLReceiveBlocksIntr (b\<lparr>sock_in := w @ rest\<rparr>) 0 1 =
       (1, b\<lparr>msg := memcpy (msg b) 0 (take 16 buf), sock_in := rest, readIV := iv'\<rparr>)"
    "linked (a\<lparr>writeIV := iv\<rparr>) (b\<lparr>readIV := iv'\<rparr>)"
proof -
  let ?a = "a\<lparr>msg := buf\<rparr>"
  have l: "linked ?a b" by (rule linked_msg(1) [OF assms])
  have one: "(1 :: nat) \<le> 8" by simp
  obtain w iv m iv' where
    send: "BWLSendBlocksIntr ?a 1 = (int 1, ?a\<lparr>writeIV := iv, msg := m, sock_out := sock_out ?a @ w\<rparr>)" "length m = 128"
    and recv: "\<forall>rest. BWLReceiveBlocksIntr (b\<lparr>sock_in := w @ rest\<rparr>) 0 1 =
       (int 1, b\<lparr>msg := memcpy (msg b) 0 (take (16 * 1) (msg ?a)), sock_in := rest, readIV := iv'\<rparr>)"
    and l': "linked (?a\<lparr>writeIV := iv\<rparr>) (b\<lparr>readIV := iv'\<rparr>)"
    by (rule deliver_blocks [OF l one]) (rule that; assumption)
  have "linked (a\<lparr>writeIV := iv\<rparr>) (b\<lparr>readIV := iv'\<rparr>)"
    using l' linked_length [OF assms(1)] by (auto simp: linked_def)
  with send recv show ?thesis by (intro that [where w = w and iv = iv and m = m and iv' = iv']) simp_all
qed

text \<open>One block of the file, \<open>k\<close> bytes of it data: sent, received and written out.\<close>

definition wrote :: "bool option \<Rightarrow> u8 list \<Rightarrow> u8 list \<Rightarrow> u8 list" where
  "wrote fp acc data = (case fp of None \<Rightarrow> acc | Some _ \<Rightarrow> acc @ data)"

lemma file_block_delivered:
  assumes "linked a b" "k \<le> 16" "k \<le> length data" "fp \<noteq> Some False"
  obtains w a1 b1 where
    "send_file_block k data a = (True, a1)" "sock_out a1 = sock_out a @ w" "cstate a1 = cstate a"
    "\<forall>rest acc. recv_file_block k fp acc (b\<lparr>sock_in := w @ rest\<rparr>) = (True, wrote fp acc (take k data), b1\<lparr>sock_in := rest\<rparr>)"
    "cstate b1 = cstate b" "linked a1 b1" "linked b a \<longrightarrow> linked b1 a1"
proof -
  let ?buf = "memcpy (msg a) 0 (take k data)"
  have len: "length (msg a) = 128" "length (msg b) = 128" using linked_length [OF assms(1)] by simp_all
  then have lb: "length ?buf = 128" using assms(2,3) by simp
  obtain w iv m iv' where
    send: "BWLSendBlocksIntr (a\<lparr>msg := ?buf\<rparr>) 1 = (1, a\<lparr>writeIV := iv, msg := m, sock_out := sock_out a @ w\<rparr>)"
      "length m = 128"
    and recv: "\<forall>rest. BWLReceiveBlocksIntr (b\<lparr>sock_in := w @ rest\<rparr>) 0 1 =
       (1, b\<lparr>msg := memcpy (msg b) 0 (take 16 ?buf), sock_in := rest, readIV := iv'\<rparr>)"
    and l': "linked (a\<lparr>writeIV := iv\<rparr>) (b\<lparr>readIV := iv'\<rparr>)"
    by (rule block_delivered [OF assms(1) lb]) (rule that; assumption)
  let ?m = "memcpy (msg b) 0 (take 16 ?buf)"
  have data: "take k ?m = take k data"
    using assms(2,3) len lb by (simp add: buf_simps) (simp add: memcpy_def)
  have lm: "length ?m = 128" using lb len by simp
  show ?thesis
  proof (rule that [of "a\<lparr>writeIV := iv, msg := m, sock_out := sock_out a @ w\<rparr>" w
        "b\<lparr>msg := ?m, readIV := iv'\<rparr>"])
    show "send_file_block k data a = (True, a\<lparr>writeIV := iv, msg := m, sock_out := sock_out a @ w\<rparr>)"
      using send assms(3) by (simp add: send_file_block_def Let_def del: One_nat_def)
    show "\<forall>rest acc. recv_file_block k fp acc (b\<lparr>sock_in := w @ rest\<rparr>) =
        (True, wrote fp acc (take k data), b\<lparr>msg := ?m, readIV := iv'\<rparr>\<lparr>sock_in := rest\<rparr>)"
      using recv data assms(4)
      by (auto simp: recv_file_block_def wrote_def Let_def simp del: One_nat_def split: option.splits)
    show "linked (a\<lparr>writeIV := iv, msg := m, sock_out := sock_out a @ w\<rparr>) (b\<lparr>msg := ?m, readIV := iv'\<rparr>)"
      "linked b a \<longrightarrow> linked (b\<lparr>msg := ?m, readIV := iv'\<rparr>) (a\<lparr>writeIV := iv, msg := m, sock_out := sock_out a @ w\<rparr>)"
      using l' lm send(2) len by (auto simp: linked_def)
  qed simp_all
qed

lemma zero_block_delivered:
  assumes "linked a b"
  obtains w a1 b1 where
    "BWLSendBlocksIntr (a\<lparr>msg := memset0 (msg a) 0 16\<rparr>) 1 = (1, a1)" "sock_out a1 = sock_out a @ w" "cstate a1 = cstate a"
    "\<forall>rest. BWLReceiveBlocksIntr (b\<lparr>sock_in := w @ rest\<rparr>) 0 1 = (1, b1\<lparr>sock_in := rest\<rparr>)"
    "take 16 (msg b1) = zero16" "cstate b1 = cstate b" "linked a1 b1" "linked b a \<longrightarrow> linked b1 a1"
proof -
  let ?buf = "memset0 (msg a) 0 16"
  have len: "length (msg a) = 128" "length (msg b) = 128" using linked_length [OF assms(1)] by simp_all
  then have lb: "length ?buf = 128" by simp
  obtain w iv m iv' where
    send: "BWLSendBlocksIntr (a\<lparr>msg := ?buf\<rparr>) 1 = (1, a\<lparr>writeIV := iv, msg := m, sock_out := sock_out a @ w\<rparr>)"
      "length m = 128"
    and recv: "\<forall>rest. BWLReceiveBlocksIntr (b\<lparr>sock_in := w @ rest\<rparr>) 0 1 =
       (1, b\<lparr>msg := memcpy (msg b) 0 (take 16 ?buf), sock_in := rest, readIV := iv'\<rparr>)"
    and l': "linked (a\<lparr>writeIV := iv\<rparr>) (b\<lparr>readIV := iv'\<rparr>)"
    by (rule block_delivered [OF assms(1) lb]) (rule that; assumption)
  let ?m = "memcpy (msg b) 0 (take 16 ?buf)"
  show ?thesis
  proof (rule that [OF send(1), of w "b\<lparr>msg := ?m, readIV := iv'\<rparr>"])
    show "\<forall>rest. BWLReceiveBlocksIntr (b\<lparr>sock_in := w @ rest\<rparr>) 0 1 = (1, b\<lparr>msg := ?m, readIV := iv'\<rparr>\<lparr>sock_in := rest\<rparr>)"
      using recv by simp
    show "take 16 (msg (b\<lparr>msg := ?m, readIV := iv'\<rparr>)) = zero16"
      using len lb by (simp add: buf_simps zero16_eq) (simp add: memset0_def memcpy_def)
  qed (use l' send(2) len lb in \<open>auto simp: linked_def\<close>)
qed

lemma file_delivered:
  assumes "linked a b" "fsize \<le> length data" "fp \<noteq> Some False"
  shows "\<exists>w a1 b1. send_file fsize data a = (BWLErrOK, a1) \<and> sock_out a1 = sock_out a @ w \<and> cstate a1 = cstate a \<and>
    (\<forall>rest acc. recv_file fsize fp acc (b\<lparr>sock_in := w @ rest\<rparr>) =
       (BWLErrOK, wrote fp acc (take fsize data), b1\<lparr>sock_in := rest\<rparr>)) \<and>
    cstate b1 = cstate b \<and> linked a1 b1 \<and> (linked b a \<longrightarrow> linked b1 a1)"
  using assms
proof (induction fsize arbitrary: a b data rule: less_induct)
  case (less fsize)
  have wrote_twice: "wrote fp (wrote fp acc x) y = wrote fp acc (x @ y)" for acc x y
    by (simp add: wrote_def split: option.split)
  have wrote_nil: "wrote fp acc [] = acc" for acc by (simp add: wrote_def split: option.split)
  show ?case
  proof (cases "16 \<le> fsize")
    case True
    obtain w a1 b1 where blk: "send_file_block 16 data a = (True, a1)" "sock_out a1 = sock_out a @ w" "cstate a1 = cstate a"
        "\<forall>rest acc. recv_file_block 16 fp acc (b\<lparr>sock_in := w @ rest\<rparr>) = (True, wrote fp acc (take 16 data), b1\<lparr>sock_in := rest\<rparr>)"
        "cstate b1 = cstate b" "linked a1 b1" "linked b a \<longrightarrow> linked b1 a1"
      by (rule file_block_delivered [OF less.prems(1) _ _ less.prems(3), of 16 data]) (use True less.prems(2) in \<open>auto intro: that\<close>)
    have "fsize - 16 < fsize" "fsize - 16 \<le> length (drop 16 data)" using True less.prems(2) by simp_all
    from less.IH [OF this(1) blk(6) this(2) less.prems(3)] obtain v a2 b2 where
      IH: "send_file (fsize - 16) (drop 16 data) a1 = (BWLErrOK, a2)" "sock_out a2 = sock_out a1 @ v" "cstate a2 = cstate a1"
        "\<forall>rest acc. recv_file (fsize - 16) fp acc (b1\<lparr>sock_in := v @ rest\<rparr>) =
           (BWLErrOK, wrote fp acc (take (fsize - 16) (drop 16 data)), b2\<lparr>sock_in := rest\<rparr>)"
        "cstate b2 = cstate b1" "linked a2 b2" "linked b1 a1 \<longrightarrow> linked b2 a2"
      by blast
    have "take 16 data @ take (fsize - 16) (drop 16 data) = take fsize data"
      using True by (metis le_add_diff_inverse take_add)
    moreover have "send_file fsize data a = (BWLErrOK, a2)"
      using True blk(1) IH(1) by (subst send_file.simps) simp
    moreover have "recv_file fsize fp acc (b\<lparr>sock_in := (w @ v) @ rest\<rparr>) =
        (BWLErrOK, wrote fp acc (take 16 data @ take (fsize - 16) (drop 16 data)), b2\<lparr>sock_in := rest\<rparr>)" for rest acc
      using True blk(4) IH(4) by (subst recv_file.simps) (simp add: wrote_twice)
    ultimately show ?thesis using blk IH by (intro exI [of _ "w @ v"] exI [of _ a2] exI [of _ b2]) simp
  next
    case False
    have "\<exists>w a1 b1. (if 0 < fsize then send_file_block fsize data (a\<lparr>msg := memset0 (msg a) 0 16\<rparr>) else (True, a)) = (True, a1) \<and>
        sock_out a1 = sock_out a @ w \<and> cstate a1 = cstate a \<and>
        (\<forall>rest acc. (if 0 < fsize then recv_file_block fsize fp acc (b\<lparr>sock_in := w @ rest\<rparr>)
           else (True, acc, b\<lparr>sock_in := w @ rest\<rparr>)) = (True, wrote fp acc (take fsize data), b1\<lparr>sock_in := rest\<rparr>)) \<and>
        cstate b1 = cstate b \<and> linked a1 b1 \<and> (linked b a \<longrightarrow> linked b1 a1)"
    proof (cases "0 < fsize")
      case True
      let ?a = "a\<lparr>msg := memset0 (msg a) 0 16\<rparr>"
      have l: "linked ?a b" using linked_length [OF less.prems(1)] by (intro linked_msg(1) [OF less.prems(1)]) simp
      obtain w a1 b1 where "send_file_block fsize data ?a = (True, a1)" "sock_out a1 = sock_out ?a @ w" "cstate a1 = cstate ?a"
        "\<forall>rest acc. recv_file_block fsize fp acc (b\<lparr>sock_in := w @ rest\<rparr>) = (True, wrote fp acc (take fsize data), b1\<lparr>sock_in := rest\<rparr>)"
        "cstate b1 = cstate b" "linked a1 b1" "linked b ?a \<longrightarrow> linked b1 a1"
        by (rule file_block_delivered [OF l _ less.prems(2,3)]) (use False in \<open>auto intro: that\<close>)
      moreover have "linked b a \<Longrightarrow> linked b ?a" using linked_length [OF less.prems(1)] by (intro linked_msg(2)) simp_all
      ultimately show ?thesis using True by (intro exI [of _ w] exI [of _ a1] exI [of _ b1]) simp
    qed (use less.prems wrote_nil in \<open>auto intro!: exI [of _ "[]"]\<close>)
    then obtain w a1 b1 where blk:
        "(if 0 < fsize then send_file_block fsize data (a\<lparr>msg := memset0 (msg a) 0 16\<rparr>) else (True, a)) = (True, a1)"
        "sock_out a1 = sock_out a @ w" "cstate a1 = cstate a"
        "\<forall>rest acc. (if 0 < fsize then recv_file_block fsize fp acc (b\<lparr>sock_in := w @ rest\<rparr>)
           else (True, acc, b\<lparr>sock_in := w @ rest\<rparr>)) = (True, wrote fp acc (take fsize data), b1\<lparr>sock_in := rest\<rparr>)"
        "cstate b1 = cstate b" "linked a1 b1" "linked b a \<longrightarrow> linked b1 a1"
      by blast
    obtain v a2 b2 where zero: "BWLSendBlocksIntr (a1\<lparr>msg := memset0 (msg a1) 0 16\<rparr>) 1 = (1, a2)"
        "sock_out a2 = sock_out a1 @ v" "cstate a2 = cstate a1"
        "\<forall>rest. BWLReceiveBlocksIntr (b1\<lparr>sock_in := v @ rest\<rparr>) 0 1 = (1, b2\<lparr>sock_in := rest\<rparr>)"
        "take 16 (msg b2) = zero16" "cstate b2 = cstate b1" "linked a2 b2" "linked b1 a1 \<longrightarrow> linked b2 a2"
      by (rule zero_block_delivered [OF blk(6)]) (rule that; assumption)
    have "send_file fsize data a = (BWLErrOK, a2)"
      using False blk(1) zero(1) by (subst send_file.simps) (simp del: One_nat_def)
    moreover have "recv_file fsize fp acc (b\<lparr>sock_in := (w @ v) @ rest\<rparr>) =
        (BWLErrOK, wrote fp acc (take fsize data), b2\<lparr>sock_in := rest\<rparr>)" for rest acc
    proof -
      note r = blk(4) [rule_format, of acc "v @ rest"]
      have "recv_file fsize fp acc (b\<lparr>sock_in := w @ v @ rest\<rparr>) =
          (BWLErrOK, wrote fp acc (take fsize data), b2\<lparr>sock_in := rest\<rparr>)"
        using False r zero(4,5) by (cases "0 < fsize"; subst recv_file.simps) (simp_all add: wrote_nil del: One_nat_def)
      then show ?thesis by simp
    qed
    ultimately show ?thesis using blk zero by (intro exI [of _ "w @ v"] exI [of _ a2] exI [of _ b2]) simp
  qed
qed

text \<open>What the stopping end announces.\<close>

definition announced :: "BWLAcceptType \<Rightarrow> data_file option \<Rightarrow> BWLAcceptType \<times> u8 list" where
  "announced a fp = (case fp of None \<Rightarrow> (a, [])
     | Some f \<Rightarrow> if file_ok f \<and> st_size f < 2 ^ 32 then (a, content f) else (BWL_CNTRL_FAILURE, []))"

text \<open>The file does not change size while it is sent.\<close>

definition whole_file :: "data_file option \<Rightarrow> bool" where
  "whole_file fp \<longleftrightarrow> (case fp of None \<Rightarrow> True | Some f \<Rightarrow> length (content f) = st_size f)"

lemma memcpy_slice_same: "off + n \<le> length buf \<Longrightarrow> slice off n buf = x \<Longrightarrow> memcpy buf off x = buf"
proof -
  assume a: "off + n \<le> length buf" "slice off n buf = x"
  then have "length x = n" by auto
  moreover have "take n (drop off buf) @ drop (off + n) buf = drop off buf"
    by (metis append_take_drop_id drop_drop add.commute)
  ultimately show ?thesis using a(2) by (simp add: memcpy_def slice_def)
qed

lemma stop_prepare:
  assumes "length (msg x) = 128" "whole_file fp"
    and "b0 = (memset0 (msg x) 0 32)[0 := 3]" "announced a fp = (v, d)"
  shows "(case fp of None \<Rightarrow> (a, 0, b0)
      | Some f \<Rightarrow> if \<not> file_ok f then (BWL_CNTRL_FAILURE, 0, b0)
          else let fsize = of_nat (st_size f) :: u32
               in if unat fsize \<noteq> st_size f then (BWL_CNTRL_FAILURE, 0, b0) else (a, fsize, put_net32 b0 8 fsize)) =
     (v, of_nat (length d), put_net32 b0 8 (of_nat (length d)))"
    and "length d < 2 ^ 32" "d \<noteq> [] \<Longrightarrow> content (the fp) = d" "valid_accept a \<Longrightarrow> valid_accept v"
proof -
  have put0: "put_net32 b0 8 0 = b0"
    using assms(1) unfolding put_net32_def assms(3)
    by (intro memcpy_slice_same [where n = 4]) (simp_all add: buf_simps)
  have fit: "unat (of_nat k :: u32) = k \<longleftrightarrow> k < 2 ^ 32" for k
  proof
    assume "unat (of_nat k :: u32) = k"
    then show "k < 2 ^ 32" using unat_bound [of "of_nat k :: u32"] by simp
  qed (simp add: unat_of_nat)
  show "(case fp of None \<Rightarrow> (a, 0, b0)
      | Some f \<Rightarrow> if \<not> file_ok f then (BWL_CNTRL_FAILURE, 0, b0)
          else let fsize = of_nat (st_size f) :: u32
               in if unat fsize \<noteq> st_size f then (BWL_CNTRL_FAILURE, 0, b0) else (a, fsize, put_net32 b0 8 fsize)) =
     (v, of_nat (length d), put_net32 b0 8 (of_nat (length d)))"
    "length d < 2 ^ 32" "d \<noteq> [] \<Longrightarrow> content (the fp) = d" "valid_accept a \<Longrightarrow> valid_accept v"
    using assms(2,4) by (auto simp: whole_file_def announced_def put0 fit Let_def valid_accept_def split: option.splits if_splits)
qed

lemma stop_session_delivered:
  assumes "linked x y" "sock_out x = []" "BWLStateIs BWLStateRequest x" "BWLStateIs BWLStateTest x"
    and "awaits_request y" "BWLStateIs BWLStateTest y" "valid_accept a" "fq \<noteq> Some False"
    and "whole_file fp" "announced a fp = (v, d)"
  shows "\<exists>x1 y1 y2. BWLWriteStopSession x a fp = (BWLErrOK, x1) \<and>
    BWLReadRequestType (arrive x1 rest y) = (BWLReqStopSession, y1) \<and>
    BWLReadStopSession y1 fq = (BWLErrOK, (Some v, wrote fq [] d), y2) \<and>
    cstate x1 = cstate x \<and> cstate y2 = cstate y \<and> sock_in y2 = rest \<and> linked x1 y2"
proof -
  define fsize :: u32 where "fsize = of_nat (length d)"
  define b0 where "b0 = (memset0 (msg x) 0 32)[0 := 3]"
  define buf where "buf = (put_net32 b0 8 fsize)[1 := ucast (v AND 0xff)]"
  have len: "length (msg x) = 128" "length (msg y) = 128" using linked_length [OF assms(1)] by simp_all
  then have lb: "length b0 = 128" "length buf = 128" by (simp_all add: b0_def buf_def)
  note prep = stop_prepare [OF len(1) assms(9) b0_def assms(10), folded fsize_def]
  have fs: "unat fsize = length d" using prep(2) by (simp add: fsize_def unat_of_nat)
  let ?a = "x\<lparr>msg := buf\<rparr>"
  have l: "linked ?a y" by (rule linked_msg(1) [OF assms(1) lb(2)])
  have one: "(1 :: nat) \<le> 7" by simp
  have bytes: "buf ! 0 = 3" "buf ! 1 = ucast (v AND 0xff)" "slice 16 16 buf = zero16" "get_net32 buf 8 = fsize"
    using len lb by (simp_all add: buf_def buf_simps get_net32_def zero16_eq) (simp_all add: b0_def buf_simps)
  have kind: "request_kind (msg ?a ! 0) BWLReqStopSession BWLStateStopSession" using bytes by simp
  have test: "BWLStateIs BWLStateTest y \<longleftrightarrow> BWLReqStopSession = BWLReqStopSession" using assms(6) by simp
  obtain w iv m iv' where
    send: "BWLSendBlocksIntr ?a (Suc 1) = (int (Suc 1), ?a\<lparr>writeIV := iv, msg := m, sock_out := sock_out ?a @ w\<rparr>)" "length m = 128"
    and recv: "\<forall>rest. \<exists>b1. BWLReadRequestType (y\<lparr>sock_in := w @ rest\<rparr>) = (BWLReqStopSession, b1) \<and>
       cstate b1 = cstate y OR BWLStateStopSession \<and> tests b1 = tests y \<and> protocol_version b1 = protocol_version y \<and>
       BWLReceiveBlocksIntr b1 16 1 =
         (int 1, y\<lparr>msg := memcpy (msg y) 0 (take (16 * Suc 1) (msg ?a)), sock_in := rest, readIV := iv',
                   cstate := cstate y OR BWLStateStopSession\<rparr>)"
    and l': "linked (?a\<lparr>writeIV := iv\<rparr>) (y\<lparr>readIV := iv'\<rparr>)"
    by (rule request_delivered [OF l one assms(5) kind test]) (rule that; assumption)
  let ?m = "memcpy (msg y) 0 (take 32 buf)"
  let ?x0 = "x\<lparr>writeIV := iv, msg := m, sock_out := w\<rparr>"
  let ?y0 = "y\<lparr>msg := ?m, readIV := iv', cstate := cstate y OR BWLStateStopSession\<rparr>"
  have l0: "linked ?x0 ?y0" using l' len send(2) lb by (auto simp: linked_def)
  have fields: "slice 16 16 ?m = zero16" "?m ! 1 = ucast (v AND 0xff)" "get_net32 ?m 8 = fsize"
    using len lb bytes by (simp_all add: get_copy buf_simps)
  have data: "\<exists>u x1 y1. (if fsize = 0 then (BWLErrOK, ?x0) else send_file (unat fsize) (content (the fp)) ?x0) = (BWLErrOK, x1) \<and>
      sock_out x1 = w @ u \<and> cstate x1 = cstate x \<and>
      (\<forall>rest. (if fsize = 0 then (BWLErrOK, [], ?y0\<lparr>sock_in := u @ rest\<rparr>)
         else recv_file (unat fsize) fq [] (?y0\<lparr>sock_in := u @ rest\<rparr>)) = (BWLErrOK, wrote fq [] d, y1\<lparr>sock_in := rest\<rparr>)) \<and>
      cstate y1 = cstate ?y0 \<and> linked x1 y1"
  proof (cases "fsize = 0")
    case True
    then have "d = []" using fs by simp
    with True l0 show ?thesis
      by (intro exI [of _ "[]"] exI [of _ ?x0] exI [of _ ?y0]) (auto simp: wrote_def split: option.split)
  next
    case False
    then have "d \<noteq> []" using fs by (auto simp: unat_eq_0)
    then have "content (the fp) = d" by (rule prep(3))
    with False fs file_delivered [OF l0, of "unat fsize" d fq] assms(8) show ?thesis by auto
  qed
  then obtain u x1 y1 where sent: "(if fsize = 0 then (BWLErrOK, ?x0) else send_file (unat fsize) (content (the fp)) ?x0) = (BWLErrOK, x1)"
      "sock_out x1 = w @ u" "cstate x1 = cstate x" "cstate y1 = cstate ?y0" "linked x1 y1"
    and got: "(if fsize = 0 then (BWLErrOK, [], ?y0\<lparr>sock_in := u @ rest\<rparr>)
         else recv_file (unat fsize) fq [] (?y0\<lparr>sock_in := u @ rest\<rparr>)) = (BWLErrOK, wrote fq [] d, y1\<lparr>sock_in := rest\<rparr>)"
    by blast
  obtain z where z: "BWLReadRequestType (y\<lparr>sock_in := w @ u @ rest\<rparr>) = (BWLReqStopSession, z)"
      "cstate z = cstate y OR BWLStateStopSession"
      "BWLReceiveBlocksIntr z 16 1 = (int 1, ?y0\<lparr>sock_in := u @ rest\<rparr>)"
    using recv [rule_format, of "u @ rest"] by auto
  let ?y2 = "or_state BWLStateRequest (clear_state BWLStateStopSession (y1\<lparr>sock_in := rest\<rparr>))"
  have "BWLWriteStopSession x a fp = (BWLErrOK, x1)"
    unfolding BWLWriteStopSession_def Let_def [of "memset0 (msg x) 0 32"] Let_def [of "(memset0 (msg x) 0 32)[0 := 3]"]
      b0_def [symmetric]
    using assms(2-4) send(1) sent(1) prep(1) by (simp add: numeral_2_eq_2 buf_def)
  moreover have "BWLReadRequestType (arrive x1 rest y) = (BWLReqStopSession, z)"
    using z(1) sent(2) by (simp add: arrive_def)
  moreover have "BWLReadStopSession z fq = (BWLErrOK, (Some v, wrote fq [] d), ?y2)"
    using z(2,3) fields got prep(4) [OF assms(7)] assms(5,6)
    by (simp add: BWLReadStopSession_def awaits_request_def bits Let_def del: One_nat_def)
  moreover have "cstate ?y2 = cstate y"
    using sent(4) assms(5) by (auto intro!: bit_word_eqI simp: bits awaits_request_def)
  moreover have "linked x1 ?y2" "sock_in ?y2 = rest" using sent(5) by (simp_all add: state_upd)
  ultimately show ?thesis using sent(3) by blast
qed

text \<open>
  C29. Stopping a test: the end that stops sends its verdict and the results file, in blocks with a
  padded last one and a zero block; the other end recognises the request, reads the same verdict
  and writes exactly the bytes of the file, whatever its length below 4 GiB, and the stream
  continues after the message. A file that cannot be read or is too large is announced as a
  failure without data.
\<close>

theorem stop_session_roundtrip:
  assumes "linked x y" "sock_out x = []" "BWLStateIs BWLStateRequest x" "BWLStateIs BWLStateTest x"
    and "awaits_request y" "BWLStateIs BWLStateTest y" "valid_accept a" "fq \<noteq> Some False"
    and "whole_file fp"
  shows "\<exists>x1 y1 y2. BWLWriteStopSession x a fp = (BWLErrOK, x1) \<and>
    BWLReadRequestType (arrive x1 rest y) = (BWLReqStopSession, y1) \<and>
    BWLReadStopSession y1 fq = (BWLErrOK, (Some (fst (announced a fp)), wrote fq [] (snd (announced a fp))), y2) \<and>
    cstate x1 = cstate x \<and> cstate y2 = cstate y \<and> sock_in y2 = rest \<and> linked x1 y2"
  by (rule stop_session_delivered [OF assms]) (rule prod.collapse [symmetric])

theorem stop_session_roundtrip_witness:
  "\<exists>x1 y1 y2. BWLWriteStopSession (sample_end 12 None) BWL_CNTRL_ACCEPT
      (Some \<lparr>file_ok = True, st_size = 17, content = replicate 17 65\<rparr>) = (BWLErrOK, x1) \<and>
    BWLReadRequestType (arrive x1 [] (sample_end 12 None)) = (BWLReqStopSession, y1) \<and>
    BWLReadStopSession y1 (Some True) = (BWLErrOK,
      (Some (fst (announced BWL_CNTRL_ACCEPT (Some \<lparr>file_ok = True, st_size = 17, content = replicate 17 65\<rparr>))),
       wrote (Some True) [] (snd (announced BWL_CNTRL_ACCEPT (Some \<lparr>file_ok = True, st_size = 17, content = replicate 17 65\<rparr>)))), y2) \<and>
    cstate x1 = cstate (sample_end 12 None) \<and> cstate y2 = cstate (sample_end 12 None) \<and> sock_in y2 = [] \<and> linked x1 y2"
  by (rule stop_session_roundtrip [OF sample_linked]) (simp_all add: sample_simps whole_file_def)

end
