(* ===== verification/Handshake.thy ===== *)
theory Handshake
  imports Messages
begin

unbundle bit_operations_syntax

text \<open>
  Opening a control connection: \<open>BWLControlAccept\<close> of \<open>bwlib/sapi.c\<close> on the server and
  \<open>BWLControlOpen\<close> of \<open>bwlib/capi.c\<close> on the client, composed of the messages of \<open>Protocol\<close>. What
  the code asks of its surroundings (random bytes, the clock, the application's key and policy
  functions, the socket calls before the first message) is a record of parameters. Each function
  is split where it waits for the other end, so that the two can be run against each other; the
  whole function is the composition on the complete input.

  Shown: a handshake between ends that share a key links them, with the same session key and in
  request state (\<open>handshake_links\<close>); a connection in a ciphered mode is accepted only with a
  token made under the user's key from this connection's challenge (\<open>accept_needs_token\<close>); and the
  modes the server offers do not bind the client (\<open>mode_not_offered_accepted\<close>).
\<close>

section \<open>The server\<close>

record server_env =
  ctx_valid :: bool
  tool_avail :: u32
  sv_addrs :: bool
  sv_names :: bool
  sv_challenge :: "u8 list option"
  sv_timestart :: "BWLNum64 option"
  sv_timeend :: "BWLNum64 option"
  sv_get_key :: "u8 list \<Rightarrow> bool \<times> u8 list \<times> BWLErrSeverity"
  sv_key0 :: keyInstance
  sv_iv :: "u8 list option"
  sv_policy :: "u32 \<Rightarrow> u8 list option \<Rightarrow> bool \<times> BWLErrSeverity"

definition the_userid :: "BWLControl \<Rightarrow> u8 list option" where
  "the_userid c = (if userid_set c then Some (userid_buffer c) else None)"

text \<open>Up to the server greeting; the error severity and the record on failure.\<close>

definition accept_greet :: "server_env \<Rightarrow> u32 \<Rightarrow> BWLControl \<Rightarrow> (BWLErrSeverity \<times> BWLControl) + (u8 list \<times> BWLControl)" where
  "accept_greet env mode_offered c =
     (if \<not> sv_addrs env then Inl (BWLErrFATAL, c)
      else if \<not> sv_names env then Inl (BWLErrOK, c)
      else case sv_challenge env of None \<Rightarrow> Inl (BWLErrFATAL, c)
      | Some challenge \<Rightarrow>
          if sv_timestart env = None then Inl (BWLErrFATAL, c)
          else let (rc, c) = BWLWriteServerGreeting c mode_offered challenge
               in if rc < BWLErrOK then Inl (rc, c)
                  else if mode_offered = 0 then Inl (BWLErrOK, c)
                  else Inr (challenge, c))"

text \<open>
  The token: under the user's key its first half must be the challenge, its second half is the
  session key. \<open>Inl\<close> is a connection given up, after the server's answer.
\<close>

definition refuse :: "BWLControl \<Rightarrow> BWLAcceptType \<Rightarrow> BWLErrSeverity \<Rightarrow> (BWLErrSeverity \<times> BWLControl) + 'a" where
  "refuse c code err = Inl (err, snd (BWLWriteServerOK c code 0 0))"

definition accept_token :: "server_env \<Rightarrow> u8 list \<Rightarrow> u8 list \<Rightarrow> BWLControl \<Rightarrow> (BWLErrSeverity \<times> BWLControl) + BWLControl" where
  "accept_token env challenge rawtoken c =
     (let (getkey_success, binKey, err) = sv_get_key env (userid_buffer c)
      in if \<not> getkey_success \<and> err \<noteq> BWLErrOK then refuse c BWL_CNTRL_FAILURE err
         else let (r, token) = BWLDecryptToken (sv_key0 env) binKey rawtoken
              in if r < 0 then refuse c BWL_CNTRL_FAILURE BWLErrFATAL
                 else if challenge \<noteq> take 16 token \<or> \<not> getkey_success then refuse c BWL_CNTRL_REJECT err
                 else let c = c\<lparr>userid_set := True\<rparr>
                      in case sv_iv env of None \<Rightarrow> refuse c BWL_CNTRL_FAILURE err
                         | Some iv \<Rightarrow>
                             (let c = c\<lparr>writeIV := iv, session_key := slice 16 16 token\<rparr>
                              in Inr (BWLMakeKey c (session_key c))))"

text \<open>From the client greeting on. The test whether the mode was offered is the code's.\<close>

definition accept_answer ::
  "server_env \<Rightarrow> u32 \<Rightarrow> BWLNum64 \<Rightarrow> u8 list \<Rightarrow> BWLControl \<Rightarrow> (BWLErrSeverity \<times> BWLControl) + BWLControl" where
  "accept_answer env mode_offered uptime challenge c =
     (let (rc, res, c) = BWLReadClientGreeting c
      in case res of None \<Rightarrow> Inl (rc, c)
         | Some (m, rawtoken, clientIV) \<Rightarrow>
             (let c = c\<lparr>mode := m, readIV := clientIV\<rparr>
              in case sv_timeend env of None \<Rightarrow> Inl (BWLErrFATAL, c)
                 | Some timeend \<Rightarrow>
                     (let c = c\<lparr>rtt_bound := timeend - the (sv_timestart env)\<rparr>
                      in if mode c \<noteq> BWL_MODE_OPEN \<and> mode c \<noteq> BWL_MODE_AUTHENTICATED \<and> mode c \<noteq> BWL_MODE_ENCRYPTED
                         then Inl (BWLErrFATAL, c)
                         else if mode c OR mode_offered = 0
                         then (let (rc, c) = BWLWriteServerOK c BWL_CNTRL_REJECT 0 0
                               in Inl (if rc < BWLErrOK then rc else BWLErrOK, c))
                         else case (if mode c AND (BWL_MODE_AUTHENTICATED OR BWL_MODE_ENCRYPTED) \<noteq> 0
                                    then accept_token env challenge rawtoken c else Inr c) of
                             Inl e \<Rightarrow> Inl e
                           | Inr c \<Rightarrow>
                               (let (ok, err) = sv_policy env (mode c) (the_userid c)
                                in if \<not> ok
                                   then (if BWLErrWARNING < err then refuse c BWL_CNTRL_REJECT err
                                         else refuse c BWL_CNTRL_FAILURE err)
                                   else let (rc, c) = BWLWriteServerOK c BWL_CNTRL_ACCEPT uptime (tool_avail env)
                                        in if rc < BWLErrOK then Inl (rc, c) else Inr c))))"

definition BWLControlAccept ::
  "server_env \<Rightarrow> u32 \<Rightarrow> BWLNum64 \<Rightarrow> u8 list \<Rightarrow> io_status \<Rightarrow> io_status \<Rightarrow> (BWLErrSeverity \<times> BWLControl option) + BWLControl" where
  "BWLControlAccept env mode_offered uptime input rd wr =
     (if \<not> ctx_valid env \<or> tool_avail env = 0 then Inl (BWLErrFATAL, None)
      else let mode_offered = mode_offered AND BWL_MODE_ALLMODES;
               c = (BWLControlAlloc input rd wr)\<lparr>is_server := True\<rparr>
           in case accept_greet env mode_offered c of
                Inl (err, c) \<Rightarrow> Inl (err, Some c)
              | Inr (challenge, c) \<Rightarrow>
                  (case accept_answer env mode_offered uptime challenge c of
                     Inl (err, c) \<Rightarrow> Inl (err, Some c)
                   | Inr c \<Rightarrow> Inr c))"

section \<open>The client\<close>

text \<open>\<open>cl_ready\<close>: the context is valid, an address was given and the connection could be made.\<close>

record client_env =
  cl_ready :: bool
  cl_mask :: u32
  cl_userid :: "u8 list option"
  cl_get_key :: "u8 list \<Rightarrow> bool \<times> u8 list \<times> BWLErrSeverity"
  cl_policy :: "u32 \<Rightarrow> u8 list option \<Rightarrow> bool \<times> BWLErrSeverity"
  cl_session_key :: "u8 list option"
  cl_key0 :: keyInstance
  cl_iv :: "u8 list option"
  cl_timestart :: "BWLNum64 option"
  cl_timeend :: "BWLNum64 option"

definition BWL_MODE_LEAST_RESTRICTIVE :: u32 where "BWL_MODE_LEAST_RESTRICTIVE = 0x80"

text \<open>The loops over the modes, upwards or downwards, until one is available and allowed.\<close>

fun pick_mode :: "(u32 \<Rightarrow> bool \<times> BWLErrSeverity) \<Rightarrow> u32 \<Rightarrow> u32 list \<Rightarrow> u32 option \<times> BWLErrSeverity" where
  "pick_mode policy avail [] = (None, BWLErrOK)"
| "pick_mode policy avail (m # ms) =
     (if avail AND m \<noteq> 0
      then let (ok, err) = policy m
           in if ok then (Some m, err) else if err \<noteq> BWLErrOK then (None, err) else pick_mode policy avail ms
      else pick_mode policy avail ms)"

text \<open>\<open>strncpy\<close> into the cleared buffer of sixteen bytes.\<close>

definition copy_userid :: "u8 list \<Rightarrow> u8 list" where
  "copy_userid u = (let s = takeWhile (\<lambda>b. b \<noteq> 0) (take 15 u) in s @ replicate (16 - length s) 0)"

text \<open>From the server greeting to the client greeting; \<open>None\<close> is an error, which is fatal.\<close>

datatype 'a open_result = OpenError BWLControl | OpenDenied BWLControl | OpenOk 'a

definition open_key :: "client_env \<Rightarrow> u32 \<Rightarrow> BWLControl \<Rightarrow> (u8 list option \<times> BWLControl) option" where
  "open_key env mode_avail c = (case cl_userid env of
     Some u \<Rightarrow>
       if mode_avail AND BWL_MODE_DOCIPHER \<noteq> 0
       then let c = c\<lparr>userid_buffer := copy_userid u\<rparr>;
                (ok, key, err) = cl_get_key env (userid_buffer c)
            in if ok then Some (Some key, c\<lparr>userid_set := True\<rparr>)
               else if err \<noteq> BWLErrOK then None else Some (None, c)
       else Some (None, c)
   | None \<Rightarrow> Some (None, c))"

definition open_cipher :: "client_env \<Rightarrow> u8 list option \<Rightarrow> u8 list \<Rightarrow> BWLControl \<Rightarrow> (u8 list \<times> BWLControl) option" where
  "open_cipher env key challenge c =
     (if do_cipher c
      then case cl_session_key env of None \<Rightarrow> None
        | Some sk \<Rightarrow>
            (let buf = challenge @ sk;
                 c = BWLMakeKey (c\<lparr>session_key := sk\<rparr>) sk;
                 (r, token) = BWLEncryptToken (cl_key0 env) (the key) buf
             in if r \<noteq> 0 then None
                else case cl_iv env of None \<Rightarrow> None | Some iv \<Rightarrow> Some (token, c\<lparr>writeIV := iv\<rparr>))
      else Some (replicate 32 0, c))"

definition open_greet :: "client_env \<Rightarrow> BWLControl \<Rightarrow> BWLControl open_result" where
  "open_greet env c =
     (let (rc, res, c) = BWLReadServerGreeting c
      in case res of None \<Rightarrow> OpenError c
         | Some (mode_avail, challenge) \<Rightarrow>
             (let mode_avail = mode_avail AND cl_mask env
              in case open_key env mode_avail c of None \<Rightarrow> OpenError c
                 | Some (key, c) \<Rightarrow>
                     (let mode_avail = (if key = None then mode_avail AND NOT BWL_MODE_DOCIPHER else mode_avail);
                          modes = [BWL_MODE_OPEN, BWL_MODE_AUTHENTICATED, BWL_MODE_ENCRYPTED];
                          modes = (if cl_mask env AND BWL_MODE_LEAST_RESTRICTIVE \<noteq> 0 then modes else rev modes);
                          (choice, err) = pick_mode (\<lambda>m. cl_policy env m (the_userid c)) mode_avail modes
                      in case choice of
                           None \<Rightarrow> if err \<noteq> BWLErrOK then OpenError c else OpenDenied c
                         | Some m \<Rightarrow>
                             (case open_cipher env key challenge (c\<lparr>mode := m\<rparr>) of
                                None \<Rightarrow> OpenError c
                              | Some (token, c) \<Rightarrow>
                                  if cl_timestart env = None then OpenError c
                                  else let (rc, c) = BWLWriteClientGreeting c token
                                       in if rc < BWLErrOK then OpenError c else OpenOk c))))"

definition open_finish :: "client_env \<Rightarrow> BWLControl \<Rightarrow> (u32 \<times> BWLNum64 \<times> BWLControl) open_result" where
  "open_finish env c =
     (let (rc, res, c) = BWLReadServerOK c
      in case res of None \<Rightarrow> OpenError c
         | Some (acceptval, tools) \<Rightarrow>
             if acceptval \<noteq> BWL_CNTRL_ACCEPT then OpenDenied c
             else case cl_timeend env of None \<Rightarrow> OpenError c
               | Some timeend \<Rightarrow>
                   (let c = c\<lparr>rtt_bound := timeend - the (cl_timestart env)\<rparr>;
                        (rc, res, c) = BWLReadServerUptime c
                    in case res of None \<Rightarrow> OpenError c | Some uptime \<Rightarrow> OpenOk (tools, uptime, c)))"

definition BWLControlOpen :: "client_env \<Rightarrow> u8 list \<Rightarrow> io_status \<Rightarrow> io_status \<Rightarrow> (u32 \<times> BWLNum64 \<times> BWLControl) open_result" where
  "BWLControlOpen env input rd wr =
     (let c = BWLControlAlloc input rd wr
      in if \<not> cl_ready env then OpenError c
         else case open_greet env c of
                OpenError c \<Rightarrow> OpenError c | OpenDenied c \<Rightarrow> OpenDenied c | OpenOk c \<Rightarrow> open_finish env c)"


section \<open>The three flights of a handshake\<close>

text \<open>Modes and the protocol version share a word.\<close>

definition is_version :: "u32 \<Rightarrow> bool" where
  "is_version v \<longleftrightarrow> v AND BWL_MODE_PROTOCOL_VERSION_MASK = v"

definition are_modes :: "u32 \<Rightarrow> bool" where
  "are_modes m \<longleftrightarrow> m AND BWL_MODE_ALLMODES = m"

lemma modes_version:
  assumes "are_modes m" "is_version v"
  shows "(m OR v) AND BWL_MODE_PROTOCOL_VERSION_MASK = v" "(m OR v) AND NOT BWL_MODE_PROTOCOL_VERSION_MASK = m"
proof -
  have m: "m = m AND 7" using assms(1)
    by (simp add: are_modes_def BWL_MODE_ALLMODES_def BWL_MODE_DOCIPHER_def BWL_MODE_AUTHENTICATED_def
        BWL_MODE_ENCRYPTED_def BWL_MODE_OPEN_def)
  have v: "v = v AND 0xff000000" using assms(2) by (simp add: is_version_def BWL_MODE_PROTOCOL_VERSION_MASK_def)
  have "(m AND 7) AND 0xff000000 = 0" by (simp add: and.assoc)
  moreover have "(m AND 7) AND NOT 0xff000000 = m AND 7" by (simp add: and.assoc)
  moreover have "(v AND 0xff000000) AND NOT 0xff000000 = 0" by (simp add: and.assoc)
  ultimately show "(m OR v) AND BWL_MODE_PROTOCOL_VERSION_MASK = v" "(m OR v) AND NOT BWL_MODE_PROTOCOL_VERSION_MASK = m"
    unfolding BWL_MODE_PROTOCOL_VERSION_MASK_def bit.conj_disj_distrib2 using m v by simp_all
qed

lemma current_version [simp]: "is_version BWL_MODE_PROTOCOL_CURRENT_VERSION"
  by (simp add: is_version_def BWL_MODE_PROTOCOL_VERSION_MASK_def BWL_MODE_PROTOCOL_CURRENT_VERSION_def
      BWL_MODE_PROTOCOL_MSS_VERSION_def)

lemma get_put_net32 [buf_simps]: "off + 4 \<le> length buf \<Longrightarrow> get_net32 (put_net32 buf off w) off = w"
  by (rule get_of_slice) (simp add: buf_simps)

lemma get_net32_slice: "slice off 4 a = slice off 4 b \<Longrightarrow> get_net32 a off = get_net32 b off"
  by (simp add: get_net32_def)

lemma server_greeting:
  assumes "length ch = 16" "are_modes modes" "length (msg s) = 128" "length (msg c) = 128"
    and "cstate s = 0" "wr_status s = IoOk" "cstate c = 0" "rd_status c = IoOk"
  obtains m hello m' where "length m = 128" "length m' = 128" "length hello = 32"
    "BWLWriteServerGreeting s modes ch =
       (BWLErrOK, s\<lparr>msg := m, sock_out := sock_out s @ hello, cstate := BWLStateSetup\<rparr>)"
    "\<forall>rest. BWLReadServerGreeting (c\<lparr>sock_in := hello @ rest\<rparr>) =
       (BWLErrOK, Some (modes, ch), c\<lparr>sock_in := rest, msg := m', protocol_version := BWL_MODE_PROTOCOL_CURRENT_VERSION,
          cstate := BWLStateSetup\<rparr>)"
proof -
  define b where "b = put_net32 (memset0 (msg s) 0 12) 12 (modes OR BWL_MODE_PROTOCOL_CURRENT_VERSION)"
  define m where "m = memcpy b 16 ch"
  define m' where "m' = memcpy (msg c) 0 (take 32 m)"
  have len: "length b = 128" "length m = 128" "length m' = 128" using assms by (simp_all add: b_def m_def m'_def)
  have "slice 12 4 m' = slice 12 4 b" "slice 16 16 m' = ch"
    using assms len by (simp_all add: m_def m'_def buf_simps)
  then have fields: "get_net32 m' 12 = modes OR BWL_MODE_PROTOCOL_CURRENT_VERSION" "slice 16 16 m' = ch"
    using assms(3) get_net32_slice [of 12 m' b] by (simp_all add: b_def buf_simps)
  show ?thesis
  proof (rule that [of m m' "take 32 m"])
    show "BWLWriteServerGreeting s modes ch =
       (BWLErrOK, s\<lparr>msg := m, sock_out := sock_out s @ take 32 m, cstate := BWLStateSetup\<rparr>)"
      using assms len by (simp add: BWLWriteServerGreeting_def Let_def I2Writeni_def state_initial set_state_def
          m_def [symmetric] b_def [symmetric])
    show "\<forall>rest. BWLReadServerGreeting (c\<lparr>sock_in := take 32 m @ rest\<rparr>) =
       (BWLErrOK, Some (modes, ch), c\<lparr>sock_in := rest, msg := m', protocol_version := BWL_MODE_PROTOCOL_CURRENT_VERSION,
          cstate := BWLStateSetup\<rparr>)"
      using assms len fields modes_version [OF assms(2) current_version]
      by (simp add: BWLReadServerGreeting_def Let_def I2Readni_def state_initial set_state_def m'_def [symmetric])
  qed (use len in simp_all)
qed

text \<open>What the server takes from the client's greeting: in open mode the client sends zeros.\<close>

lemma client_greeting:
  assumes "are_modes (mode c)" "is_version (protocol_version c)" "length (msg c) = 128" "length (msg s) = 128"
    and "length token = 32" "length (userid_buffer c) = 16" "length (writeIV c) = 16"
    and "cstate c = BWLStateSetup" "wr_status c = IoOk" "cstate s = BWLStateSetup" "rd_status s = IoOk"
  obtains m greeting m' where "length m = 128" "length m' = 128" "length greeting = 68"
    "BWLWriteClientGreeting c token = (BWLErrOK, c\<lparr>msg := m, sock_out := sock_out c @ greeting\<rparr>)"
    "\<forall>rest. BWLReadClientGreeting (s\<lparr>sock_in := greeting @ rest\<rparr>) = (BWLErrOK,
       Some (mode c, if do_cipher c then token else replicate 32 0, if do_cipher c then writeIV c else replicate 16 0),
       s\<lparr>sock_in := rest, msg := m', protocol_version := protocol_version c,
         userid_buffer := if do_cipher c then userid_buffer c else replicate 16 0\<rparr>)"
proof -
  define b where "b = put_net32 (msg c) 0 (mode c OR protocol_version c)"
  define m where "m = (if do_cipher c then memcpy (memcpy (memcpy b 4 (userid_buffer c)) 20 token) 52 (writeIV c)
    else memset0 b 4 64)"
  define m' where "m' = memcpy (msg s) 0 (take 68 m)"
  have len: "length b = 128" "length m = 128" "length m' = 128" using assms by (simp_all add: b_def m_def m'_def)
  have "slice 0 4 m' = slice 0 4 b" using assms len by (simp add: m_def m'_def buf_simps)
  then have word: "get_net32 m' 0 = mode c OR protocol_version c"
    using assms(3) get_net32_slice [of 0 m' b] by (simp add: b_def buf_simps)
  have fields: "slice 4 16 m' = (if do_cipher c then userid_buffer c else replicate 16 0)"
    "slice 20 32 m' = (if do_cipher c then token else replicate 32 0)"
    "slice 52 16 m' = (if do_cipher c then writeIV c else replicate 16 0)"
    using assms len by (simp_all add: m_def m'_def buf_simps)
  show ?thesis
  proof (rule that [of m m' "take 68 m"])
    show "BWLWriteClientGreeting c token = (BWLErrOK, c\<lparr>msg := m, sock_out := sock_out c @ take 68 m\<rparr>)"
      using assms len by (simp add: BWLWriteClientGreeting_def Let_def I2Writeni_def state_setup
          b_def [symmetric] m_def [symmetric])
    show "\<forall>rest. BWLReadClientGreeting (s\<lparr>sock_in := take 68 m @ rest\<rparr>) = (BWLErrOK,
       Some (mode c, if do_cipher c then token else replicate 32 0, if do_cipher c then writeIV c else replicate 16 0),
       s\<lparr>sock_in := rest, msg := m', protocol_version := protocol_version c,
         userid_buffer := if do_cipher c then userid_buffer c else replicate 16 0\<rparr>)"
      using assms len word fields modes_version [OF assms(1,2)]
      by (simp add: BWLReadClientGreeting_def Let_def I2Readni_def state_setup m'_def [symmetric])
  qed (use len in simp_all)
qed


lemma linked_rtt [simp]: "linked (a\<lparr>rtt_bound := r\<rparr>) b = linked a b" "linked a (b\<lparr>rtt_bound := r\<rparr>) = linked a b"
  by (simp_all add: linked_def do_cipher_def)

lemma do_cipher_rtt: "do_cipher (c\<lparr>rtt_bound := r\<rparr>) = do_cipher c"
  by (simp add: do_cipher_def)

lemma receive_rtt:
  "BWLReceiveBlocksIntr b off n = (k, b') \<Longrightarrow>
   BWLReceiveBlocksIntr (b\<lparr>rtt_bound := r\<rparr>) off n = (k, b'\<lparr>rtt_bound := r\<rparr>)"
  by (auto simp: BWLReceiveBlocksIntr_def I2Readni_def BWLDecryptBlocks_def do_cipher_def Let_def
      split: io_status.splits prod.splits if_splits)

lemma server_accept:
  assumes "linked s (c\<lparr>readIV := writeIV s\<rparr>)" "length (writeIV s) = 16" "protocol_version c \<noteq> 0"
    and "cstate s = BWLStateSetup" "cstate c = BWLStateSetup"
  obtains m iv reply mok tail mup iv' where
    "BWLWriteServerOK s BWL_CNTRL_ACCEPT uptime tools =
       (BWLErrOK, s\<lparr>msg := m, writeIV := iv, sock_out := sock_out s @ reply, cstate := BWLStateRequest\<rparr>)"
    "\<forall>rest. BWLReadServerOK (c\<lparr>sock_in := reply @ rest\<rparr>) = (BWLErrOK, Some (BWL_CNTRL_ACCEPT, tools),
       c\<lparr>sock_in := tail @ rest, msg := mok, readIV := writeIV s, cstate := BWLStateUptime\<rparr>)"
    "\<forall>rest r. BWLReadServerUptime (c\<lparr>sock_in := tail @ rest, msg := mok, readIV := writeIV s, cstate := BWLStateUptime, rtt_bound := r\<rparr>) =
       (BWLErrOK, Some uptime, c\<lparr>sock_in := rest, msg := mup, readIV := iv', cstate := BWLStateRequest, rtt_bound := r\<rparr>)"
    "length m = 128" "length mup = 128" "linked (s\<lparr>writeIV := iv\<rparr>) (c\<lparr>readIV := iv'\<rparr>)"
proof -
  define b where "b = memcpy ((memset0 (put_net32 (msg s) 0 tools) 4 11)[15 := ucast (BWL_CNTRL_ACCEPT AND 0xff)]) 16 (writeIV s)"
  define b2 where "b2 = memset0 (memcpy b 0 (encode_time uptime)) 8 8"
  define m1 where "m1 = memcpy (msg c) 0 (take 32 b)"
  have len: "length (msg s) = 128" "length (msg c) = 128" using linked_length [OF assms(1)] by simp_all
  have l: "length b = 128" "length b2 = 128" "length m1 = 128" using len assms(2) by (simp_all add: b_def b2_def m1_def)
  have st: "wr_status s = IoOk" "rd_status c = IoOk" using assms(1) by (simp_all add: linked_def)
  have "slice 0 4 m1 = slice 0 4 (put_net32 (msg s) 0 tools)" using len assms(2) l(1) by (simp add: m1_def b_def buf_simps)
  then have tools: "get_net32 m1 0 = tools"
    using len get_net32_slice [of 0 m1 "put_net32 (msg s) 0 tools"] by (simp add: buf_simps)
  have fields: "BWLGetAcceptType (m1 ! 15) = BWL_CNTRL_ACCEPT" "slice 16 16 m1 = writeIV s"
    using len assms(2) l(1) by (simp_all add: m1_def b_def buf_simps valid_accept_def)
  let ?a = "s\<lparr>sock_out := sock_out s @ take 32 b, msg := b2\<rparr>"
  let ?c = "c\<lparr>msg := m1, readIV := writeIV s, cstate := BWLStateUptime\<rparr>"
  have link: "linked ?a ?c" using assms(1) l by (simp add: linked_def)
  have one: "(1 :: nat) \<le> 8" by simp
  obtain w iv m iv' where
    send: "BWLSendBlocksIntr ?a 1 = (int 1, ?a\<lparr>writeIV := iv, msg := m, sock_out := sock_out ?a @ w\<rparr>)" "length m = 128"
    and recv: "\<forall>rest. BWLReceiveBlocksIntr (?c\<lparr>sock_in := w @ rest\<rparr>) 0 1 =
       (int 1, ?c\<lparr>msg := memcpy (msg ?c) 0 (take (16 * 1) (msg ?a)), sock_in := rest, readIV := iv'\<rparr>)"
    and l': "linked (?a\<lparr>writeIV := iv\<rparr>) (?c\<lparr>readIV := iv'\<rparr>)"
    by (rule deliver_blocks [OF link one]) (rule that; assumption)
  let ?m2 = "memcpy m1 0 (take 16 b2)"
  have m2: "slice 8 8 ?m2 = replicate 8 0" "slice 0 8 ?m2 = encode_time uptime" "length ?m2 = 128"
    using l len by (simp_all add: b2_def buf_simps)
  then have time: "decode_time ?m2 = uptime" by (metis decode_time_slice decode_encode_time)
  show ?thesis
  proof (rule that [where m = m and iv = iv and reply = "take 32 b @ w" and tail = w and mok = m1 and mup = ?m2 and iv' = iv'])
    show "BWLWriteServerOK s BWL_CNTRL_ACCEPT uptime tools =
       (BWLErrOK, s\<lparr>msg := m, writeIV := iv, sock_out := sock_out s @ take 32 b @ w, cstate := BWLStateRequest\<rparr>)"
      using assms(4) st l send
      by (simp add: BWLWriteServerOK_def Let_def state_setup I2Writeni_def b_def [symmetric] b2_def [symmetric]
          set_state_def del: One_nat_def)
    show "\<forall>rest. BWLReadServerOK (c\<lparr>sock_in := (take 32 b @ w) @ rest\<rparr>) = (BWLErrOK, Some (BWL_CNTRL_ACCEPT, tools),
       c\<lparr>sock_in := w @ rest, msg := m1, readIV := writeIV s, cstate := BWLStateUptime\<rparr>)"
      using assms(3,5) st l fields tools
      by (simp add: BWLReadServerOK_def Let_def state_setup I2Readni_def m1_def [symmetric] set_state_def
          valid_accept_not_invalid valid_accept_def)
    show "\<forall>rest r. BWLReadServerUptime (c\<lparr>sock_in := w @ rest, msg := m1, readIV := writeIV s, cstate := BWLStateUptime, rtt_bound := r\<rparr>) =
       (BWLErrOK, Some uptime, c\<lparr>sock_in := rest, msg := ?m2, readIV := iv', cstate := BWLStateRequest, rtt_bound := r\<rparr>)"
    proof (intro allI)
      fix rest r
      have "BWLReceiveBlocksIntr (c\<lparr>sock_in := w @ rest, msg := m1, readIV := writeIV s, cstate := BWLStateUptime, rtt_bound := r\<rparr>) 0 1 =
        (1, c\<lparr>sock_in := rest, msg := ?m2, readIV := iv', cstate := BWLStateUptime, rtt_bound := r\<rparr>)"
        using receive_rtt [OF recv [rule_format, of rest], of r] by (cases c) simp
      then show "BWLReadServerUptime (c\<lparr>sock_in := w @ rest, msg := m1, readIV := writeIV s, cstate := BWLStateUptime, rtt_bound := r\<rparr>) =
       (BWLErrOK, Some uptime, c\<lparr>sock_in := rest, msg := ?m2, readIV := iv', cstate := BWLStateRequest, rtt_bound := r\<rparr>)"
        using m2 time by (simp add: BWLReadServerUptime_def bits BWLReceiveBlocks_def set_state_def del: One_nat_def)
    qed
    show "linked (s\<lparr>writeIV := iv\<rparr>) (c\<lparr>readIV := iv'\<rparr>)" using l' len by (auto simp: linked_def)
  qed (use m2 send in simp_all)
qed


section \<open>A complete handshake\<close>

lemma pick_mode_in: "pick_mode pol avail ms = (Some m, e) \<Longrightarrow> m \<in> set ms \<and> avail AND m \<noteq> 0"
  by (induction pol avail ms rule: pick_mode.induct) (auto split: if_splits prod.splits)

lemma length_copy_userid [simp]: "length (copy_userid u) = 16"
proof -
  have "length (takeWhile (\<lambda>b. b \<noteq> 0) (take 15 u)) \<le> length (take 15 u)" by (rule length_takeWhile_le)
  then show ?thesis by (simp add: copy_userid_def Let_def)
qed

definition single_mode :: "u32 \<Rightarrow> bool" where
  "single_mode m \<longleftrightarrow> m \<in> {BWL_MODE_OPEN, BWL_MODE_AUTHENTICATED, BWL_MODE_ENCRYPTED}"

lemma single_mode_are_modes: "single_mode m \<Longrightarrow> are_modes m"
  by (auto simp: single_mode_def are_modes_def BWL_MODE_ALLMODES_def BWL_MODE_DOCIPHER_def BWL_MODE_AUTHENTICATED_def
      BWL_MODE_ENCRYPTED_def BWL_MODE_OPEN_def)

definition client_ok :: "client_env \<Rightarrow> bool" where
  "client_ok cl \<longleftrightarrow> cl_ready cl \<and> pred_option (\<lambda>sk. length sk = 16) (cl_session_key cl) \<and>
     pred_option (\<lambda>iv. length iv = 16) (cl_iv cl) \<and> cl_timeend cl \<noteq> None \<and> 60 \<le> length (rk (cl_key0 cl))"

definition server_ok :: "server_env \<Rightarrow> bool" where
  "server_ok sv \<longleftrightarrow> ctx_valid sv \<and> tool_avail sv \<noteq> 0 \<and> pred_option (\<lambda>ch. length ch = 16) (sv_challenge sv) \<and>
     sv_timeend sv \<noteq> None \<and> sv_iv sv \<noteq> None \<and> pred_option (\<lambda>iv. length iv = 16) (sv_iv sv) \<and>
     60 \<le> length (rk (sv_key0 sv))"

text \<open>The record of a client that has sent its greeting, whatever else waits in its input.\<close>

definition greeted :: "client_env \<Rightarrow> u8 list \<Rightarrow> BWLControl \<Rightarrow> u8 list \<Rightarrow> BWLControl \<Rightarrow> bool" where
  "greeted cl ch c token cc \<longleftrightarrow> single_mode (mode cc) \<and> length (userid_buffer cc) = 16 \<and> length token = 32 \<and>
     length (writeIV cc) = 16 \<and> msg cc = msg c \<and> cstate cc = cstate c \<and> protocol_version cc = protocol_version c \<and>
     sock_out cc = sock_out c \<and> wr_status cc = wr_status c \<and> rd_status cc = rd_status c \<and>
     (if do_cipher cc
      then \<exists>k e sk. cl_get_key cl (userid_buffer cc) = (True, k, e) \<and> userid_set cc \<and> length sk = 16 \<and>
        session_key cc = sk \<and> BWLEncryptToken (cl_key0 cl) k (ch @ sk) = (0, token) \<and>
        encrypt_key cc = setup_key DIR_ENCRYPT (encrypt_key c) sk \<and> decrypt_key cc = setup_key DIR_DECRYPT (decrypt_key c) sk
      else session_key cc = session_key c)"


lemma open_key_found:
  assumes "open_key cl avail c = Some (key, ck)" "length (userid_buffer c) = 16"
  shows "\<exists>u b. ck = c\<lparr>userid_buffer := u, userid_set := b\<rparr> \<and> length u = 16 \<and>
      (\<forall>k. key = Some k \<longrightarrow> b \<and> (\<exists>e. cl_get_key cl u = (True, k, e)))"
    and "open_key cl avail (c\<lparr>sock_in := rest\<rparr>) = Some (key, ck\<lparr>sock_in := rest\<rparr>)"
proof -
  show "open_key cl avail (c\<lparr>sock_in := rest\<rparr>) = Some (key, ck\<lparr>sock_in := rest\<rparr>)"
    using assms by (auto simp: open_key_def Let_def split: option.splits if_splits prod.splits)
  show "\<exists>u b. ck = c\<lparr>userid_buffer := u, userid_set := b\<rparr> \<and> length u = 16 \<and>
      (\<forall>k. key = Some k \<longrightarrow> b \<and> (\<exists>e. cl_get_key cl u = (True, k, e)))"
  proof (cases key)
    case None
    then show ?thesis using assms
      by (intro exI [of _ "userid_buffer ck"] exI [of _ "userid_set ck"])
        (auto simp: open_key_def Let_def split: option.splits if_splits prod.splits)
  next
    case (Some k)
    then show ?thesis using assms
      by (intro exI [of _ "userid_buffer ck"] exI [of _ True])
        (auto simp: open_key_def Let_def split: option.splits if_splits prod.splits)
  qed
qed

lemma open_cipher_made:
  assumes "open_cipher cl key ch c = Some (token, cc)" "client_ok cl" "length ch = 16"
    and "single_mode (mode c)" "length (userid_buffer c) = 16" "length (writeIV c) = 16"
    and key: "do_cipher c \<longrightarrow> (\<exists>k e. key = Some k \<and> cl_get_key cl (userid_buffer c) = (True, k, e)) \<and> userid_set c"
  shows "greeted cl ch c token cc"
    and "open_cipher cl key ch (c\<lparr>sock_in := rest\<rparr>) = Some (token, cc\<lparr>sock_in := rest\<rparr>)"
proof -
  show "open_cipher cl key ch (c\<lparr>sock_in := rest\<rparr>) = Some (token, cc\<lparr>sock_in := rest\<rparr>)"
    using assms(1) by (auto simp: open_cipher_def Let_def BWLMakeKey_def split: option.splits if_splits prod.splits)
  show "greeted cl ch c token cc"
  proof (cases "do_cipher c")
    case False
    then show ?thesis using assms by (auto simp: open_cipher_def greeted_def)
  next
    case True
    with key obtain k e where k: "key = Some k" "cl_get_key cl (userid_buffer c) = (True, k, e)" "userid_set c" by blast
    from assms(1) True k(1) obtain sk iv where sk: "cl_session_key cl = Some sk" "cl_iv cl = Some iv"
        "BWLEncryptToken (cl_key0 cl) k (ch @ sk) = (0, token)"
        "cc = (BWLMakeKey (c\<lparr>session_key := sk\<rparr>) sk)\<lparr>writeIV := iv\<rparr>"
      by (auto simp: open_cipher_def Let_def split: option.splits if_splits prod.splits)
    have len: "length sk = 16" "length iv = 16" "60 \<le> length (rk (cl_key0 cl))"
      using assms(2) sk by (simp_all add: client_ok_def)
    have "length token = 32"
      using token_roundtrip [of "ch @ sk" "cl_key0 cl" "cl_key0 cl" k] sk(3) assms(3) len by simp
    then show ?thesis
      using True k sk len assms(4-6) by (auto simp: greeted_def BWLMakeKey_def do_cipher_def)
  qed
qed


text \<open>A client whose greeting is out, and that it would have been the same with more input waiting.\<close>

lemma open_greet_sent:
  assumes "open_greet cl c = OpenOk c1" "client_ok cl" "length ch = 16"
    and "BWLReadServerGreeting c = (BWLErrOK, Some (modes, ch), cg)"
    and "length (userid_buffer cg) = 16" "length (writeIV cg) = 16"
  obtains token cc rc where "greeted cl ch cg token cc" "BWLWriteClientGreeting cc token = (rc, c1)" "\<not> rc < BWLErrOK"
    "cl_timestart cl \<noteq> None"
    "\<forall>c' rest rc c2. BWLReadServerGreeting c' = (BWLErrOK, Some (modes, ch), cg\<lparr>sock_in := rest\<rparr>) \<longrightarrow>
       BWLWriteClientGreeting (cc\<lparr>sock_in := rest\<rparr>) token = (rc, c2) \<longrightarrow> \<not> rc < BWLErrOK \<longrightarrow> open_greet cl c' = OpenOk c2"
proof -
  define avail where "avail = modes AND cl_mask cl"
  obtain key ck where key: "open_key cl avail cg = Some (key, ck)"
    using assms(1,4) by (cases "open_key cl avail cg") (auto simp: open_greet_def avail_def Let_def)
  define avail' where "avail' = (if key = None then avail AND NOT BWL_MODE_DOCIPHER else avail)"
  define ms where "ms = (if cl_mask cl AND BWL_MODE_LEAST_RESTRICTIVE \<noteq> 0
     then [BWL_MODE_OPEN, BWL_MODE_AUTHENTICATED, BWL_MODE_ENCRYPTED]
     else rev [BWL_MODE_OPEN, BWL_MODE_AUTHENTICATED, BWL_MODE_ENCRYPTED])"
  have unfold: "open_greet cl c' = (let (choice, err) = pick_mode (\<lambda>m. cl_policy cl m (the_userid (ck\<lparr>sock_in := rest\<rparr>))) avail' ms
      in case choice of
           None \<Rightarrow> if err \<noteq> BWLErrOK then OpenError (ck\<lparr>sock_in := rest\<rparr>) else OpenDenied (ck\<lparr>sock_in := rest\<rparr>)
         | Some m \<Rightarrow> (case open_cipher cl key ch (ck\<lparr>sock_in := rest, mode := m\<rparr>) of
             None \<Rightarrow> OpenError (ck\<lparr>sock_in := rest\<rparr>)
           | Some (token, c) \<Rightarrow> if cl_timestart cl = None then OpenError c
               else let (rc, c) = BWLWriteClientGreeting c token in if rc < BWLErrOK then OpenError c else OpenOk c))"
    if "BWLReadServerGreeting c' = (BWLErrOK, Some (modes, ch), cg\<lparr>sock_in := rest\<rparr>)" for c' rest
    using that open_key_found(2) [OF key assms(5), of rest]
    by (simp add: open_greet_def avail_def [symmetric] avail'_def ms_def Let_def del: pick_mode.simps)
  have c: "cg\<lparr>sock_in := sock_in cg\<rparr> = cg" "ck\<lparr>sock_in := sock_in cg\<rparr> = ck"
    using open_key_found(2) [OF key assms(5), of "sock_in cg"] key by simp_all
  obtain u b where ck: "ck = cg\<lparr>userid_buffer := u, userid_set := b\<rparr>" "length u = 16"
      "\<forall>k. key = Some k \<longrightarrow> b \<and> (\<exists>e. cl_get_key cl u = (True, k, e))"
    using open_key_found(1) [OF key assms(5)] by blast
  obtain m e token cc rc where pick: "pick_mode (\<lambda>m. cl_policy cl m (the_userid ck)) avail' ms = (Some m, e)"
      and cc: "open_cipher cl key ch (ck\<lparr>mode := m\<rparr>) = Some (token, cc)" "cl_timestart cl \<noteq> None"
        "BWLWriteClientGreeting cc token = (rc, c1)" "\<not> rc < BWLErrOK"
    using assms(1,4) unfold [of c "sock_in cg"]
    by (auto simp: c Let_def split: prod.splits option.splits if_splits)
  have m: "single_mode m" "avail' AND m \<noteq> 0"
    using pick_mode_in [OF pick] by (auto simp: ms_def single_mode_def split: if_splits)
  have "key \<noteq> None" if "do_cipher (ck\<lparr>mode := m\<rparr>)"
  proof
    assume "key = None"
    then have "(avail AND NOT BWL_MODE_DOCIPHER) AND m \<noteq> 0" using m(2) by (simp add: avail'_def)
    with that m(1) show False
      by (auto simp: single_mode_def do_cipher_def BWL_MODE_DOCIPHER_def BWL_MODE_AUTHENTICATED_def
        BWL_MODE_ENCRYPTED_def BWL_MODE_OPEN_def and.assoc)
  qed
  then have k: "do_cipher (ck\<lparr>mode := m\<rparr>) \<longrightarrow> (\<exists>k e. key = Some k \<and> cl_get_key cl (userid_buffer (ck\<lparr>mode := m\<rparr>)) = (True, k, e))
      \<and> userid_set (ck\<lparr>mode := m\<rparr>)"
    using ck by auto
  have len: "single_mode (mode (ck\<lparr>mode := m\<rparr>))" "length (userid_buffer (ck\<lparr>mode := m\<rparr>)) = 16"
      "length (writeIV (ck\<lparr>mode := m\<rparr>)) = 16"
    using m ck(1,2) assms(6) by simp_all
  note made = open_cipher_made [OF cc(1) assms(2,3) len k]
  have again: "open_cipher cl key ch (ck\<lparr>sock_in := rest, mode := m\<rparr>) = Some (token, cc\<lparr>sock_in := rest\<rparr>)" for rest
    using made(2) [of rest] by (cases ck) simp
  have uid: "the_userid (ck\<lparr>sock_in := rest\<rparr>) = the_userid ck" for rest by (simp add: the_userid_def)
  show ?thesis
  proof (rule that [of token cc rc])
    show "greeted cl ch cg token cc" using made(1) by (auto simp: greeted_def ck(1) split: if_splits)
    show "\<forall>c' rest rc c2. BWLReadServerGreeting c' = (BWLErrOK, Some (modes, ch), cg\<lparr>sock_in := rest\<rparr>) \<longrightarrow>
       BWLWriteClientGreeting (cc\<lparr>sock_in := rest\<rparr>) token = (rc, c2) \<longrightarrow> \<not> rc < BWLErrOK \<longrightarrow> open_greet cl c' = OpenOk c2"
      using cc(2) pick by (auto simp: unfold uid again)
  qed (use cc in auto)
qed


text \<open>The server recognises the key and user of a client that has greeted, and its policy admits them.\<close>

definition server_welcomes :: "server_env \<Rightarrow> client_env \<Rightarrow> BWLControl \<Rightarrow> bool" where
  "server_welcomes sv cl c \<longleftrightarrow>
     (do_cipher c \<longrightarrow> fst (sv_get_key sv (userid_buffer c)) \<and>
        fst (snd (sv_get_key sv (userid_buffer c))) = fst (snd (cl_get_key cl (userid_buffer c)))) \<and>
     fst (sv_policy sv (mode c) (if do_cipher c then Some (userid_buffer c) else None))"

lemma do_cipher_mode: "mode a = mode b \<Longrightarrow> do_cipher a = do_cipher b"
  by (simp add: do_cipher_def)

text \<open>The server's side, from the client's greeting to its own keys.\<close>

lemma accept_keyed:
  assumes "greeted cl ch c token cc" "server_ok sv" "server_welcomes sv cl cc" "length ch = 16" "60 \<le> length (rk (cl_key0 cl))"
    and "do_cipher cc" "userid_buffer s = userid_buffer cc"
  obtains iv where "sv_iv sv = Some iv" "length iv = 16"
    "accept_token sv ch token s = Inr (BWLMakeKey (s\<lparr>userid_set := True, writeIV := iv, session_key := session_key cc\<rparr>) (session_key cc))"
proof -
  obtain iv where iv: "sv_iv sv = Some iv" "length iv = 16" using assms(2) by (auto simp: server_ok_def)
  from assms(1,6) obtain k e where k: "cl_get_key cl (userid_buffer cc) = (True, k, e)"
      "BWLEncryptToken (cl_key0 cl) k (ch @ session_key cc) = (0, token)" "length (session_key cc) = 16"
    by (auto simp: greeted_def)
  obtain e' where sk: "sv_get_key sv (userid_buffer s) = (True, k, e')"
    using assms(3,6,7) k(1) by (cases "sv_get_key sv (userid_buffer s)") (auto simp: server_welcomes_def)
  have "BWLDecryptToken (sv_key0 sv) k token = (0, ch @ session_key cc)"
    using token_roundtrip [of "ch @ session_key cc" "cl_key0 cl" "sv_key0 sv" k] k assms(2,4,5)
    by (simp add: server_ok_def)
  with sk iv have "accept_token sv ch token s =
      Inr (BWLMakeKey (s\<lparr>userid_set := True, writeIV := iv, session_key := session_key cc\<rparr>) (session_key cc))"
    using assms(4) k(3) by (simp add: accept_token_def Let_def slice_def)
  with iv show ?thesis by (rule that)
qed


definition fresh_keys :: "BWLControl \<Rightarrow> bool" where
  "fresh_keys c \<longleftrightarrow> 60 \<le> length (rk (encrypt_key c)) \<and> 60 \<le> length (rk (decrypt_key c))"

definition accepting :: "server_env \<Rightarrow> BWLNum64 \<Rightarrow> BWLControl \<Rightarrow> (BWLErrSeverity \<times> BWLControl) + BWLControl" where
  "accepting sv uptime ss = (let (rc, c) = BWLWriteServerOK ss BWL_CNTRL_ACCEPT uptime (tool_avail sv)
     in if rc < BWLErrOK then Inl (rc, c) else Inr c)"

lemma accept_answer_mode:
  assumes "BWLReadClientGreeting s = (rc, Some (m, tok, iv), sg)" "sv_timeend sv = Some te" "single_mode m"
    and "s1 = sg\<lparr>mode := m, readIV := iv, rtt_bound := te - the (sv_timestart sv)\<rparr>"
  shows "accept_answer sv offered uptime ch s =
    (case (if do_cipher s1 then accept_token sv ch tok s1 else Inr s1) of Inl e \<Rightarrow> Inl e
     | Inr c \<Rightarrow> (let (ok, err) = sv_policy sv (mode c) (the_userid c)
         in if \<not> ok then (if BWLErrWARNING < err then refuse c BWL_CNTRL_REJECT err else refuse c BWL_CNTRL_FAILURE err)
            else accepting sv uptime c))"
proof -
  have one: "(m \<noteq> BWL_MODE_OPEN \<and> m \<noteq> BWL_MODE_AUTHENTICATED \<and> m \<noteq> BWL_MODE_ENCRYPTED) = False"
    using assms(3) by (auto simp: single_mode_def)
  have any: "m OR offered \<noteq> 0" using assms(3)
    by (auto simp: single_mode_def or_eq_0_iff BWL_MODE_OPEN_def BWL_MODE_AUTHENTICATED_def BWL_MODE_ENCRYPTED_def)
  show ?thesis using assms(1,2) any unfolding accept_answer_def accepting_def Let_def
    by (simp add: one assms(4) do_cipher_def BWL_MODE_DOCIPHER_def [symmetric] split del: if_split cong: if_cong)
qed

lemma accept_links:
  assumes g: "greeted cl ch c token cc" and ok: "server_ok sv" "server_welcomes sv cl cc" "length ch = 16" "60 \<le> length (rk (cl_key0 cl))"
    and keys: "fresh_keys c" "fresh_keys sg" and msgs: "length (msg cc) = 128" "length (msg sg) = 128"
    and io: "wr_status c = IoOk" "rd_status c = IoOk" "wr_status sg = IoOk" "rd_status sg = IoOk"
    and uid: "do_cipher cc \<longrightarrow> userid_buffer sg = userid_buffer cc" and same: "session_key c = session_key sg" "\<not> userid_set sg"
    and iv: "length (writeIV sg) = 16"
    and read: "BWLReadClientGreeting s = (BWLErrOK,
       Some (mode cc, if do_cipher cc then token else replicate 32 0, if do_cipher cc then writeIV cc else replicate 16 0), sg)"
  obtains ss where "accept_answer sv offered uptime ch s = accepting sv uptime ss"
    "linked ss (cc\<lparr>readIV := writeIV ss\<rparr>)" "linked cc ss" "length (writeIV ss) = 16" "mode ss = mode cc"
    "session_key ss = session_key cc" "cstate ss = cstate sg" "sock_out ss = sock_out sg" "sock_in ss = sock_in sg"
proof -
  obtain te where te: "sv_timeend sv = Some te" using ok(1) by (auto simp: server_ok_def)
  define s1 where "s1 = sg\<lparr>mode := mode cc, readIV := if do_cipher cc then writeIV cc else replicate 16 0,
    rtt_bound := te - the (sv_timestart sv)\<rparr>"
  have "single_mode (mode cc)" "do_cipher s1 = do_cipher cc" using g by (simp_all add: greeted_def s1_def do_cipher_def)
  then have answer: "accept_answer sv offered uptime ch s =
      (case (if do_cipher cc then accept_token sv ch token s1 else Inr s1) of Inl e \<Rightarrow> Inl e
       | Inr c \<Rightarrow> (let (ok, err) = sv_policy sv (mode c) (the_userid c)
           in if \<not> ok then (if BWLErrWARNING < err then refuse c BWL_CNTRL_REJECT err else refuse c BWL_CNTRL_FAILURE err)
              else accepting sv uptime c))"
    using accept_answer_mode [OF read te _ s1_def, of offered uptime ch] by simp
  show ?thesis
  proof (cases "do_cipher cc")
    case False
    have "accept_answer sv offered uptime ch s = accepting sv uptime s1"
      using answer False ok(2) same(2) by (auto simp: server_welcomes_def the_userid_def s1_def split: prod.splits)
    moreover have "linked s1 (cc\<lparr>readIV := writeIV s1\<rparr>)" "linked cc s1"
      using False msgs io g by (auto simp: linked_def s1_def greeted_def do_cipher_def)
    ultimately show ?thesis using iv g same(1) False by (intro that [of s1]) (auto simp: s1_def greeted_def)
  next
    case True
    have u: "userid_buffer s1 = userid_buffer cc" using uid True by (simp add: s1_def)
    obtain iv where iv: "sv_iv sv = Some iv" "length iv = 16"
      and tok: "accept_token sv ch token s1 = Inr (BWLMakeKey (s1\<lparr>userid_set := True, writeIV := iv, session_key := session_key cc\<rparr>) (session_key cc))"
      by (rule accept_keyed [OF g ok True u])
    let ?s = "BWLMakeKey (s1\<lparr>userid_set := True, writeIV := iv, session_key := session_key cc\<rparr>) (session_key cc)"
    have "accept_answer sv offered uptime ch s = accepting sv uptime ?s"
      using answer True ok(2) tok u by (auto simp: server_welcomes_def the_userid_def BWLMakeKey_def s1_def split: prod.splits)
    moreover have "linked ?s (cc\<lparr>readIV := writeIV ?s\<rparr>)" "linked cc ?s"
      using True msgs io g iv keys
      by (auto simp: linked_def s1_def greeted_def do_cipher_def BWLMakeKey_def fresh_keys_def intro: key_pairI)
    ultimately show ?thesis using iv by (intro that [of ?s]) (auto simp: s1_def BWLMakeKey_def)
  qed
qed


lemma greeting_frame:
  "BWLWriteServerGreeting s modes ch = (r, s') \<Longrightarrow> BWLWriteServerGreeting (s\<lparr>sock_in := x\<rparr>) modes ch = (r, s'\<lparr>sock_in := x\<rparr>)"
  "BWLWriteClientGreeting s token = (r, s') \<Longrightarrow> BWLWriteClientGreeting (s\<lparr>sock_in := x\<rparr>) token = (r, s'\<lparr>sock_in := x\<rparr>)"
  by (auto simp: BWLWriteServerGreeting_def BWLWriteClientGreeting_def I2Writeni_def Let_def BWLStateIsInitial_def
      BWLStateIsSetup_def set_state_def do_cipher_def split: io_status.splits if_splits prod.splits)

lemma alloc_fields [simp]:
  "msg (BWLControlAlloc x r w) = replicate 128 0" "cstate (BWLControlAlloc x r w) = 0"
  "rd_status (BWLControlAlloc x r w) = r" "wr_status (BWLControlAlloc x r w) = w"
  "userid_buffer (BWLControlAlloc x r w) = replicate 16 0" "writeIV (BWLControlAlloc x r w) = replicate 16 0"
  "session_key (BWLControlAlloc x r w) = replicate 16 0" "\<not> userid_set (BWLControlAlloc x r w)"
  "sock_in (BWLControlAlloc x r w) = x" "sock_out (BWLControlAlloc x r w) = []"
  "(BWLControlAlloc x r w)\<lparr>sock_in := y\<rparr> = BWLControlAlloc y r w" "fresh_keys (BWLControlAlloc x r w)"
  by (simp_all add: BWLControlAlloc_def fresh_keys_def)

lemma are_modes_masked [simp]: "are_modes (m AND BWL_MODE_ALLMODES)"
  by (simp add: are_modes_def and.assoc)

text \<open>The server's greeting, which does not depend on what the client will send.\<close>

lemma accept_greet_made:
  assumes "server_ok sv" and s0: "s0 = (BWLControlAlloc [] IoOk IoOk)\<lparr>is_server := True\<rparr>"
    and "accept_greet sv (modes AND BWL_MODE_ALLMODES) s0 = Inr (ch, s1)"
  obtains m hello m' where "length ch = 16" "length m = 128" "length m' = 128"
    "s1 = s0\<lparr>msg := m, sock_out := hello, cstate := BWLStateSetup\<rparr>"
    "\<forall>x. accept_greet sv (modes AND BWL_MODE_ALLMODES) (s0\<lparr>sock_in := x\<rparr>) = Inr (ch, s1\<lparr>sock_in := x\<rparr>)"
    "\<forall>rest. BWLReadServerGreeting (BWLControlAlloc (hello @ rest) IoOk IoOk) =
       (BWLErrOK, Some (modes AND BWL_MODE_ALLMODES, ch), (BWLControlAlloc [] IoOk IoOk)\<lparr>msg := m',
          protocol_version := BWL_MODE_PROTOCOL_CURRENT_VERSION, cstate := BWLStateSetup, sock_in := rest\<rparr>)"
proof -
  let ?modes = "modes AND BWL_MODE_ALLMODES" and ?c0 = "BWLControlAlloc [] IoOk IoOk"
  have ch: "length ch = 16" "sv_challenge sv = Some ch"
    using assms(1,3) by (auto simp: server_ok_def accept_greet_def Let_def split: if_splits option.splits prod.splits)
  have blank: "length (msg s0) = 128" "cstate s0 = 0" "wr_status s0 = IoOk" "sock_out s0 = []" by (simp_all add: s0)
  obtain m hello m' where hello: "length m = 128" "length m' = 128"
    "BWLWriteServerGreeting s0 ?modes ch = (BWLErrOK, s0\<lparr>msg := m, sock_out := sock_out s0 @ hello, cstate := BWLStateSetup\<rparr>)"
    "\<forall>rest. BWLReadServerGreeting (?c0\<lparr>sock_in := hello @ rest\<rparr>) =
       (BWLErrOK, Some (?modes, ch), ?c0\<lparr>sock_in := rest, msg := m', protocol_version := BWL_MODE_PROTOCOL_CURRENT_VERSION,
          cstate := BWLStateSetup\<rparr>)"
    by (rule server_greeting [OF ch(1) are_modes_masked, of s0 ?c0 modes]) (simp_all add: blank)
  show ?thesis
  proof (rule that [OF ch(1) hello(1,2)])
    show "s1 = s0\<lparr>msg := m, sock_out := hello, cstate := BWLStateSetup\<rparr>"
      "\<forall>x. accept_greet sv ?modes (s0\<lparr>sock_in := x\<rparr>) = Inr (ch, s1\<lparr>sock_in := x\<rparr>)"
      using assms(3) hello(3) ch(2) blank(4) greeting_frame(1) [OF hello(3)]
      by (auto simp: accept_greet_def Let_def split: if_splits option.splits)
    show "\<forall>rest. BWLReadServerGreeting (BWLControlAlloc (hello @ rest) IoOk IoOk) = (BWLErrOK, Some (?modes, ch),
        ?c0\<lparr>msg := m', protocol_version := BWL_MODE_PROTOCOL_CURRENT_VERSION, cstate := BWLStateSetup, sock_in := rest\<rparr>)"
      using hello(4) by (simp add: BWLControlAlloc_def)
  qed
qed

lemma handshake_completes:
  assumes "server_ok sv" "client_ok cl"
    and "accept_greet sv (modes AND BWL_MODE_ALLMODES) ((BWLControlAlloc [] IoOk IoOk)\<lparr>is_server := True\<rparr>) = Inr (ch, s1)"
    and "open_greet cl (BWLControlAlloc (sock_out s1) IoOk IoOk) = OpenOk c1"
    and "server_welcomes sv cl c1"
  shows "\<exists>s c. BWLControlAccept sv modes uptime (sock_out c1) IoOk IoOk = Inr s \<and>
    BWLControlOpen cl (sock_out s) IoOk IoOk = OpenOk (tool_avail sv, uptime, c) \<and> sock_out c = sock_out c1 \<and>
    mode s = mode c \<and> session_key s = session_key c \<and> cstate c = BWLStateRequest \<and> cstate s = BWLStateRequest \<and>
    peers c s \<and> sock_in c = [] \<and> sock_in s = []"
proof -
  let ?s0 = "(BWLControlAlloc [] IoOk IoOk)\<lparr>is_server := True\<rparr>" and ?modes = "modes AND BWL_MODE_ALLMODES"
  let ?c0 = "BWLControlAlloc [] IoOk IoOk"
  obtain m hello m' where ch: "length ch = 16" and hello: "length m = 128" "length m' = 128"
    and s1: "s1 = ?s0\<lparr>msg := m, sock_out := hello, cstate := BWLStateSetup\<rparr>"
    and again: "\<forall>x. accept_greet sv ?modes (?s0\<lparr>sock_in := x\<rparr>) = Inr (ch, s1\<lparr>sock_in := x\<rparr>)"
    and cg: "\<forall>rest. BWLReadServerGreeting (BWLControlAlloc (hello @ rest) IoOk IoOk) = (BWLErrOK, Some (?modes, ch),
        ?c0\<lparr>msg := m', protocol_version := BWL_MODE_PROTOCOL_CURRENT_VERSION, cstate := BWLStateSetup, sock_in := rest\<rparr>)"
    by (rule accept_greet_made [OF assms(1) refl assms(3)]) (rule that; assumption)
  let ?cg = "?c0\<lparr>msg := m', protocol_version := BWL_MODE_PROTOCOL_CURRENT_VERSION, cstate := BWLStateSetup\<rparr>"
  have first: "BWLReadServerGreeting (BWLControlAlloc (sock_out s1) IoOk IoOk) = (BWLErrOK, Some (?modes, ch), ?cg)"
    using cg [rule_format, of "[]"] by (simp add: s1 BWLControlAlloc_def)
  have blank: "length (userid_buffer ?cg) = 16" "length (writeIV ?cg) = 16" by simp_all
  obtain token cc rc where g: "greeted cl ch ?cg token cc" and wr: "BWLWriteClientGreeting cc token = (rc, c1)"
    and start: "cl_timestart cl \<noteq> None"
    and more_input: "\<forall>c' rest rc c2. BWLReadServerGreeting c' = (BWLErrOK, Some (?modes, ch), ?cg\<lparr>sock_in := rest\<rparr>) \<longrightarrow>
       BWLWriteClientGreeting (cc\<lparr>sock_in := rest\<rparr>) token = (rc, c2) \<longrightarrow> \<not> rc < BWLErrOK \<longrightarrow> open_greet cl c' = OpenOk c2"
    by (rule open_greet_sent [OF assms(4,2) ch first blank]) (rule that; assumption)
  have cc: "are_modes (mode cc)" "is_version (protocol_version cc)" "length (msg cc) = 128" "length (msg s1) = 128"
      "length token = 32" "length (userid_buffer cc) = 16" "length (writeIV cc) = 16"
      "cstate cc = BWLStateSetup" "wr_status cc = IoOk" "cstate s1 = BWLStateSetup" "rd_status s1 = IoOk"
    using g hello by (simp_all add: greeted_def single_mode_are_modes s1)
  obtain mm greeting ms where greeting: "length mm = 128" "length ms = 128"
    "BWLWriteClientGreeting cc token = (BWLErrOK, cc\<lparr>msg := mm, sock_out := sock_out cc @ greeting\<rparr>)"
    "\<forall>rest. BWLReadClientGreeting (s1\<lparr>sock_in := greeting @ rest\<rparr>) = (BWLErrOK,
       Some (mode cc, if do_cipher cc then token else replicate 32 0, if do_cipher cc then writeIV cc else replicate 16 0),
       s1\<lparr>sock_in := rest, msg := ms, protocol_version := protocol_version cc,
         userid_buffer := if do_cipher cc then userid_buffer cc else replicate 16 0\<rparr>)"
    by (rule client_greeting [OF cc]) (rule that; assumption)
  have c1: "c1 = cc\<lparr>msg := mm, sock_out := greeting\<rparr>" using wr greeting(3) g by (simp add: greeted_def)
  define sg where "sg = s1\<lparr>sock_in := [], msg := ms, protocol_version := protocol_version cc,
         userid_buffer := if do_cipher cc then userid_buffer cc else replicate 16 0\<rparr>"
  have read: "BWLReadClientGreeting (s1\<lparr>sock_in := greeting\<rparr>) = (BWLErrOK,
       Some (mode cc, if do_cipher cc then token else replicate 32 0, if do_cipher cc then writeIV cc else replicate 16 0), sg)"
    using greeting(4) [rule_format, of "[]"] by (simp add: sg_def)
  have known: "server_welcomes sv cl cc" using assms(5) by (auto simp: server_welcomes_def c1 split: if_splits)
  have key0: "60 \<le> length (rk (cl_key0 cl))" using assms(2) by (simp add: client_ok_def)
  have side: "fresh_keys ?cg" "fresh_keys sg" "length (msg sg) = 128" "wr_status ?cg = IoOk" "rd_status ?cg = IoOk"
      "wr_status sg = IoOk" "rd_status sg = IoOk" "do_cipher cc \<longrightarrow> userid_buffer sg = userid_buffer cc"
      "session_key ?cg = session_key sg" "\<not> userid_set sg" "length (writeIV sg) = 16"
    using greeting(2) by (simp_all add: sg_def s1 fresh_keys_def BWLControlAlloc_def)
  obtain ss where ss: "accept_answer sv ?modes uptime ch (s1\<lparr>sock_in := greeting\<rparr>) = accepting sv uptime ss"
      "linked ss (cc\<lparr>readIV := writeIV ss\<rparr>)" "linked cc ss" "length (writeIV ss) = 16" "mode ss = mode cc"
      "session_key ss = session_key cc" "cstate ss = cstate sg" "sock_out ss = sock_out sg" "sock_in ss = sock_in sg"
    by (rule accept_links [OF g assms(1) known ch key0 side(1,2) cc(3) side(3-11) read, of ?modes uptime])
      (rule that; assumption)
  have c1_ok: "linked ss (c1\<lparr>readIV := writeIV ss\<rparr>)" "linked c1 ss" "cstate c1 = BWLStateSetup" "protocol_version c1 \<noteq> 0"
    using ss(2,3) greeting(1) cc(8) g by (auto simp: linked_def c1 greeted_def BWL_MODE_PROTOCOL_CURRENT_VERSION_def
        BWL_MODE_PROTOCOL_MSS_VERSION_def)
  have fresh: "cstate ss = BWLStateSetup" using ss(7) by (simp add: sg_def s1)
  obtain m2 iv reply m3 up m4 iv' where
    ok: "BWLWriteServerOK ss BWL_CNTRL_ACCEPT uptime (tool_avail sv) =
       (BWLErrOK, ss\<lparr>msg := m2, writeIV := iv, sock_out := sock_out ss @ reply, cstate := BWLStateRequest\<rparr>)"
    and rd: "\<forall>rest. BWLReadServerOK (c1\<lparr>sock_in := reply @ rest\<rparr>) = (BWLErrOK, Some (BWL_CNTRL_ACCEPT, tool_avail sv),
       c1\<lparr>sock_in := up @ rest, msg := m3, readIV := writeIV ss, cstate := BWLStateUptime\<rparr>)"
    and rdup: "\<forall>rest r. BWLReadServerUptime (c1\<lparr>sock_in := up @ rest, msg := m3, readIV := writeIV ss, cstate := BWLStateUptime, rtt_bound := r\<rparr>) =
       (BWLErrOK, Some uptime, c1\<lparr>sock_in := rest, msg := m4, readIV := iv', cstate := BWLStateRequest, rtt_bound := r\<rparr>)"
    and len: "length m2 = 128" "length m4 = 128" and link: "linked (ss\<lparr>writeIV := iv\<rparr>) (c1\<lparr>readIV := iv'\<rparr>)"
    by (rule server_accept [OF c1_ok(1) ss(4) c1_ok(4) fresh c1_ok(3)]) (rule that; assumption)
  obtain te where te: "cl_timeend cl = Some te" using assms(2) by (auto simp: client_ok_def)
  let ?s = "ss\<lparr>msg := m2, writeIV := iv, sock_out := sock_out ss @ reply, cstate := BWLStateRequest\<rparr>"
  let ?c = "c1\<lparr>sock_in := [], msg := m4, readIV := iv', cstate := BWLStateRequest,
    rtt_bound := te - the (cl_timestart cl)\<rparr>"
  have "BWLControlAccept sv modes uptime (sock_out c1) IoOk IoOk = Inr ?s"
    using again [rule_format, of greeting] ss(1) ok assms(1)
    by (simp add: BWLControlAccept_def c1 accepting_def server_ok_def BWLControlAlloc_def)
  moreover have "open_greet cl (BWLControlAlloc (hello @ reply) IoOk IoOk) = OpenOk (c1\<lparr>sock_in := reply\<rparr>)"
    using more_input cg [rule_format, of reply] greeting_frame(2) [OF greeting(3), of reply] c1 g by (simp add: greeted_def)
  then have "BWLControlOpen cl (sock_out ?s) IoOk IoOk = OpenOk (tool_avail sv, uptime, ?c)"
    using rd [rule_format, of "[]"] rdup [rule_format, where rest = "[]"] te ss(8) assms(2)
    by (simp add: BWLControlOpen_def open_finish_def sg_def s1 client_ok_def Let_def)
  moreover have "peers ?c ?s"
    using link c1_ok(2) len by (auto simp: peers_def linked_def do_cipher_rtt)
  ultimately show ?thesis
    using ss(5,6,9) by (intro exI [of _ ?s] exI [of _ ?c]) (simp add: c1 sg_def)
qed


definition sample_server :: server_env where
  "sample_server = \<lparr>ctx_valid = True, tool_avail = 1, sv_addrs = True, sv_names = True, sv_challenge = Some (replicate 16 1),
     sv_timestart = Some 0, sv_timeend = Some 5, sv_get_key = \<lambda>_. (True, replicate 16 7, BWLErrOK),
     sv_key0 = \<lparr>Nr = 0, rk = replicate 60 0\<rparr>, sv_iv = Some (replicate 16 2), sv_policy = \<lambda>_ _. (True, BWLErrOK)\<rparr>"

definition sample_client :: client_env where
  "sample_client = \<lparr>cl_ready = True, cl_mask = 7, cl_userid = Some [65], cl_get_key = \<lambda>_. (True, replicate 16 7, BWLErrOK),
     cl_policy = \<lambda>_ _. (True, BWLErrOK), cl_session_key = Some (replicate 16 3),
     cl_key0 = \<lparr>Nr = 0, rk = replicate 60 0\<rparr>, cl_iv = Some (replicate 16 4), cl_timestart = Some 0, cl_timeend = Some 9\<rparr>"

lemma sample_ok: "server_ok sample_server" "client_ok sample_client"
  by (simp_all add: server_ok_def client_ok_def sample_server_def sample_client_def)

lemma sample_greets:
  obtains s1 c1 where
    "accept_greet sample_server (7 AND BWL_MODE_ALLMODES) ((BWLControlAlloc [] IoOk IoOk)\<lparr>is_server := True\<rparr>) = Inr (replicate 16 1, s1)"
    "open_greet sample_client (BWLControlAlloc (sock_out s1) IoOk IoOk) = OpenOk c1"
    "server_welcomes sample_server sample_client c1" "mode c1 = BWL_MODE_ENCRYPTED"
proof -
  let ?s0 = "(BWLControlAlloc [] IoOk IoOk)\<lparr>is_server := True\<rparr>" and ?c0 = "BWLControlAlloc [] IoOk IoOk"
  have ch: "length (replicate 16 1 :: u8 list) = 16" by simp
  obtain m hello m' where len: "length m' = 128" and hello: "BWLWriteServerGreeting ?s0 (7 AND BWL_MODE_ALLMODES) (replicate 16 1) =
       (BWLErrOK, ?s0\<lparr>msg := m, sock_out := sock_out ?s0 @ hello, cstate := BWLStateSetup\<rparr>)"
    and rd: "\<forall>rest. BWLReadServerGreeting (?c0\<lparr>sock_in := hello @ rest\<rparr>) = (BWLErrOK, Some (7 AND BWL_MODE_ALLMODES, replicate 16 1),
       ?c0\<lparr>sock_in := rest, msg := m', protocol_version := BWL_MODE_PROTOCOL_CURRENT_VERSION, cstate := BWLStateSetup\<rparr>)"
    by (rule server_greeting [OF ch are_modes_masked, of ?s0 ?c0 7]) simp_all
  let ?s1 = "?s0\<lparr>msg := m, sock_out := hello, cstate := BWLStateSetup\<rparr>"
  let ?k = "\<lparr>Nr = 0, rk = replicate 60 0\<rparr>"
  obtain token where token: "BWLEncryptToken ?k (replicate 16 7) (replicate 16 1 @ replicate 16 3) = (0, token)" "length token = 32"
    using token_roundtrip [of "replicate 16 1 @ replicate 16 3" ?k ?k "replicate 16 7"] by auto
  have all: "7 AND BWL_MODE_ALLMODES = 7"
    by (simp add: BWL_MODE_ALLMODES_def BWL_MODE_DOCIPHER_def BWL_MODE_AUTHENTICATED_def BWL_MODE_ENCRYPTED_def BWL_MODE_OPEN_def)
  have g: "BWLReadServerGreeting (BWLControlAlloc hello IoOk IoOk) = (BWLErrOK, Some (7, replicate 16 1),
       ?c0\<lparr>msg := m', protocol_version := BWL_MODE_PROTOCOL_CURRENT_VERSION, cstate := BWLStateSetup\<rparr>)"
    using rd [rule_format, of "[]"] by (simp add: all BWLControlAlloc_def)
  let ?cc = "(BWLMakeKey (?c0\<lparr>msg := m', protocol_version := BWL_MODE_PROTOCOL_CURRENT_VERSION, cstate := BWLStateSetup,
      userid_buffer := copy_userid [65], userid_set := True, mode := BWL_MODE_ENCRYPTED, session_key := replicate 16 3\<rparr>)
      (replicate 16 3))\<lparr>writeIV := replicate 16 4\<rparr>"
  obtain c1 where c1: "BWLWriteClientGreeting ?cc token = (BWLErrOK, c1)" "userid_buffer c1 = copy_userid [65]" "mode c1 = BWL_MODE_ENCRYPTED"
    using len token(2) by (auto simp: BWLWriteClientGreeting_def Let_def I2Writeni_def BWLMakeKey_def state_setup split: if_splits)
  have "open_greet sample_client (BWLControlAlloc (sock_out ?s1) IoOk IoOk) = OpenOk c1"
    using g token(1) c1(1)
    by (simp add: open_greet_def sample_client_def open_key_def open_cipher_def Let_def do_cipher_def BWL_MODE_LEAST_RESTRICTIVE_def
        BWL_MODE_DOCIPHER_def BWL_MODE_AUTHENTICATED_def BWL_MODE_ENCRYPTED_def BWL_MODE_OPEN_def BWLMakeKey_def)
  moreover have "accept_greet sample_server (7 AND BWL_MODE_ALLMODES) ?s0 = Inr (replicate 16 1, ?s1)"
    using hello by (simp add: accept_greet_def sample_server_def all)
  moreover have "server_welcomes sample_server sample_client c1"
    by (simp add: server_welcomes_def sample_server_def sample_client_def)
  ultimately show ?thesis using c1(3) by (intro that [of ?s1 c1])
qed

text \<open>
  C30. A complete handshake. When the client's greeting is out, in whatever mode it picked, and the server
  knows the user's key and admits it, \<open>BWLControlAccept\<close> and \<open>BWLControlOpen\<close>, each reading what the other
  writes, both return a connection: in request state, in the same mode, under the same session key, with
  the cipher states of both directions in step and nothing left unread; the client learns the server's
  tools and uptime.
\<close>

theorem handshake_links:
  assumes "server_ok sv" "client_ok cl"
    and "accept_greet sv (modes AND BWL_MODE_ALLMODES) ((BWLControlAlloc [] IoOk IoOk)\<lparr>is_server := True\<rparr>) = Inr (ch, s1)"
    and "open_greet cl (BWLControlAlloc (sock_out s1) IoOk IoOk) = OpenOk c1"
    and "server_welcomes sv cl c1"
  shows "\<exists>s c. BWLControlAccept sv modes uptime (sock_out c1) IoOk IoOk = Inr s \<and>
    BWLControlOpen cl (sock_out s) IoOk IoOk = OpenOk (tool_avail sv, uptime, c) \<and> sock_out c = sock_out c1 \<and>
    mode s = mode c \<and> session_key s = session_key c \<and> cstate c = BWLStateRequest \<and> cstate s = BWLStateRequest \<and>
    peers c s \<and> sock_in c = [] \<and> sock_in s = []"
  by (rule handshake_completes [OF assms])

theorem handshake_links_witness:
  "\<exists>s1 c1. accept_greet sample_server (7 AND BWL_MODE_ALLMODES) ((BWLControlAlloc [] IoOk IoOk)\<lparr>is_server := True\<rparr>) =
      Inr (replicate 16 1, s1) \<and> open_greet sample_client (BWLControlAlloc (sock_out s1) IoOk IoOk) = OpenOk c1 \<and>
    mode c1 = BWL_MODE_ENCRYPTED \<and>
    (\<exists>s c. BWLControlAccept sample_server 7 99 (sock_out c1) IoOk IoOk = Inr s \<and>
      BWLControlOpen sample_client (sock_out s) IoOk IoOk = OpenOk (tool_avail sample_server, 99, c) \<and> sock_out c = sock_out c1 \<and>
      mode s = mode c \<and> session_key s = session_key c \<and> cstate c = BWLStateRequest \<and> cstate s = BWLStateRequest \<and>
      peers c s \<and> sock_in c = [] \<and> sock_in s = [])"
proof (rule sample_greets)
  fix s1 c1
  assume a: "accept_greet sample_server (7 AND BWL_MODE_ALLMODES) ((BWLControlAlloc [] IoOk IoOk)\<lparr>is_server := True\<rparr>) = Inr (replicate 16 1, s1)"
    "open_greet sample_client (BWLControlAlloc (sock_out s1) IoOk IoOk) = OpenOk c1"
    "server_welcomes sample_server sample_client c1" "mode c1 = BWL_MODE_ENCRYPTED"
  show ?thesis using a(1,2,4) handshake_links [OF sample_ok a(1-3), of 99] by blast
qed


section \<open>What acceptance implies\<close>

lemma accept_token_checked:
  assumes "accept_token env ch tok c = Inr c'"
  obtains binKey e token r where "sv_get_key env (userid_buffer c) = (True, binKey, e)"
    "BWLDecryptToken (sv_key0 env) binKey tok = (r, token)" "0 \<le> r" "ch = take 16 token"
    "session_key c' = slice 16 16 token" "userid_set c'" "userid_buffer c' = userid_buffer c" "mode c' = mode c"
    "cstate c' = cstate c"
  using assms
  by (auto simp: accept_token_def refuse_def BWLMakeKey_def Let_def split: prod.splits if_splits option.splits)

lemma accepting_keeps:
  assumes "accepting env uptime c = Inr c'"
  shows "mode c' = mode c" "userid_buffer c' = userid_buffer c" "userid_set c' = userid_set c" "session_key c' = session_key c"
    "cstate c' = BWLStateRequest"
  using assms
  by (auto simp: accepting_def BWLWriteServerOK_def BWLSendBlocksIntr_def BWLEncryptBlocks_def I2Writeni_def Let_def
      set_state_def less_BWLErrSeverity_def split: prod.splits if_splits io_status.splits)

lemma read_client_greeting_bytes:
  assumes "BWLReadClientGreeting c = (rc, Some (m, tok, iv), c')" "length (msg c) = 128"
  shows "tok = slice 20 32 (sock_in c)" "68 \<le> length (sock_in c)" "userid_buffer c' = slice 4 16 (sock_in c)"
    "userid_set c' = userid_set c" "m = get_net32 (sock_in c) 0 AND NOT BWL_MODE_PROTOCOL_VERSION_MASK"
proof -
  have "68 \<le> length (sock_in c) \<and> tok = slice 20 32 (memcpy (msg c) 0 (take 68 (sock_in c))) \<and>
      userid_buffer c' = slice 4 16 (memcpy (msg c) 0 (take 68 (sock_in c))) \<and> userid_set c' = userid_set c \<and>
      m = get_net32 (memcpy (msg c) 0 (take 68 (sock_in c))) 0 AND NOT BWL_MODE_PROTOCOL_VERSION_MASK"
    using assms(1) by (auto simp: BWLReadClientGreeting_def I2Readni_def Let_def split: if_splits io_status.splits)
  moreover have "slice i n (memcpy (msg c) 0 (take 68 (sock_in c))) = slice i n (sock_in c)"
    if "68 \<le> length (sock_in c)" "i + n \<le> 68" for i n
  proof -
    have "slice i n (memcpy (msg c) 0 (take 68 (sock_in c))) = slice i n (take 68 (sock_in c) @ drop 68 (msg c))"
      using that assms(2) by (simp add: memcpy_def min_def)
    also have "\<dots> = slice i n (sock_in c)" using that by (auto simp: slice_def drop_take min_def)
    finally show ?thesis .
  qed
  ultimately show "tok = slice 20 32 (sock_in c)" "68 \<le> length (sock_in c)" "userid_buffer c' = slice 4 16 (sock_in c)"
      "userid_set c' = userid_set c" "m = get_net32 (sock_in c) 0 AND NOT BWL_MODE_PROTOCOL_VERSION_MASK"
    by (simp_all add: get_net32_def)
qed

text \<open>
  C31. Whatever bytes a client sends, a connection is accepted only in one of the three modes and when the
  policy admits this mode and user; in a ciphered mode only when the token in the client's greeting,
  decrypted under the key of the user named there, starts with the challenge this server drew for this
  connection, and its second half becomes the session key. In open mode no user is recorded.
\<close>

theorem accept_needs_token:
  assumes "BWLControlAccept env modes uptime input rd wr = Inr c" "pred_option (\<lambda>ch. length ch = 16) (sv_challenge env)"
  shows "single_mode (mode c) \<and> cstate c = BWLStateRequest \<and> fst (sv_policy env (mode c) (the_userid c)) \<and>
    (if do_cipher c
     then \<exists>ch binKey e r token. sv_challenge env = Some ch \<and> sv_get_key env (slice 4 16 input) = (True, binKey, e) \<and>
       BWLDecryptToken (sv_key0 env) binKey (slice 20 32 input) = (r, token) \<and> 0 \<le> r \<and> take 16 token = ch \<and>
       session_key c = slice 16 16 token \<and> the_userid c = Some (slice 4 16 input)
     else the_userid c = None)"
proof -
  let ?s0 = "(BWLControlAlloc input rd wr)\<lparr>is_server := True\<rparr>" and ?modes = "modes AND BWL_MODE_ALLMODES"
  obtain ch s1 where s1: "accept_greet env ?modes ?s0 = Inr (ch, s1)" "accept_answer env ?modes uptime ch s1 = Inr c"
    using assms by (auto simp: BWLControlAccept_def Let_def split: if_splits sum.splits prod.splits)
  have ch: "sv_challenge env = Some ch" using s1(1)
    by (auto simp: accept_greet_def Let_def split: if_splits option.splits prod.splits)
  have s0: "length (msg s1) = 128 \<and> sock_in s1 = input \<and> \<not> userid_set s1"
    using s1(1) ch assms(2)
    by (auto simp: accept_greet_def Let_def BWLWriteServerGreeting_def I2Writeni_def set_state_def less_BWLErrSeverity_def
        split: if_splits prod.splits io_status.splits)
  obtain rc m tok iv s2 where rd: "BWLReadClientGreeting s1 = (rc, Some (m, tok, iv), s2)"
    using s1(2) by (cases "BWLReadClientGreeting s1") (auto simp: accept_answer_def split: option.splits)
  note bytes = read_client_greeting_bytes [OF rd conjunct1 [OF s0]]
  obtain te where te: "sv_timeend env = Some te" using s1(2) rd by (auto simp: accept_answer_def Let_def split: option.splits)
  define s3 where "s3 = s2\<lparr>mode := m, readIV := iv, rtt_bound := te - the (sv_timestart env)\<rparr>"
  have m: "single_mode m"
    using s1(2) rd te by (auto simp: accept_answer_def Let_def single_mode_def split: if_splits)
  obtain s4 where s4: "(if do_cipher s3 then accept_token env ch tok s3 else Inr s3) = Inr s4"
      "fst (sv_policy env (mode s4) (the_userid s4))" "accepting env uptime s4 = Inr c"
    using s1(2) by (auto simp: accept_answer_mode [OF rd te m s3_def] refuse_def split: if_splits sum.splits prod.splits)
  note keeps = accepting_keeps [OF s4(3)]
  show ?thesis
  proof (cases "do_cipher s3")
    case False
    then have "s4 = s3" using s4(1) by simp
    then show ?thesis
      using False keeps m bytes(4) s0 s4(2) by (simp add: s3_def do_cipher_def the_userid_def)
  next
    case True
    then have "accept_token env ch tok s3 = Inr s4" using s4(1) by simp
    then obtain binKey e token r where t: "sv_get_key env (userid_buffer s3) = (True, binKey, e)"
        "BWLDecryptToken (sv_key0 env) binKey tok = (r, token)" "0 \<le> r" "ch = take 16 token"
        "session_key s4 = slice 16 16 token" "userid_set s4" "userid_buffer s4 = userid_buffer s3" "mode s4 = mode s3"
      by (rule accept_token_checked)
    have "userid_buffer s3 = slice 4 16 input" "tok = slice 20 32 input" "do_cipher c" "mode c = m"
      using bytes s0 True t(8) keeps by (simp_all add: s3_def do_cipher_def)
    then show ?thesis using t m ch keeps s4(2) by (simp add: the_userid_def)
  qed
qed


theorem accept_needs_token_witness:
  "\<exists>input c. BWLControlAccept sample_server 7 99 input IoOk IoOk = Inr c \<and>
    single_mode (mode c) \<and> cstate c = BWLStateRequest \<and> fst (sv_policy sample_server (mode c) (the_userid c)) \<and>
    (if do_cipher c
     then \<exists>ch binKey e r token. sv_challenge sample_server = Some ch \<and> sv_get_key sample_server (slice 4 16 input) = (True, binKey, e) \<and>
       BWLDecryptToken (sv_key0 sample_server) binKey (slice 20 32 input) = (r, token) \<and> 0 \<le> r \<and> take 16 token = ch \<and>
       session_key c = slice 16 16 token \<and> the_userid c = Some (slice 4 16 input)
     else the_userid c = None)"
proof (rule sample_greets)
  fix s1 c1
  assume a: "accept_greet sample_server (7 AND BWL_MODE_ALLMODES) ((BWLControlAlloc [] IoOk IoOk)\<lparr>is_server := True\<rparr>) = Inr (replicate 16 1, s1)"
    "open_greet sample_client (BWLControlAlloc (sock_out s1) IoOk IoOk) = OpenOk c1"
    "server_welcomes sample_server sample_client c1" "mode c1 = BWL_MODE_ENCRYPTED"
  obtain c where c: "BWLControlAccept sample_server 7 99 (sock_out c1) IoOk IoOk = Inr c"
    using handshake_completes [OF sample_ok a(1-3), of 99] by blast
  have "pred_option (\<lambda>ch. length ch = 16) (sv_challenge sample_server)" by (simp add: sample_server_def)
  from accept_needs_token [OF c this] c show ?thesis by blast
qed

section \<open>The modes a server offers\<close>

text \<open>
  C32. The modes a server offers do not bind the client: \<open>mode | mode_offered\<close> is zero only if both are, so a server
  that does not offer the open mode, but whose policy admits it, accepts an open connection, without a
  user and without ciphering.
\<close>

theorem mode_not_offered_accepted:
  assumes "server_ok sv" "modes AND BWL_MODE_OPEN = 0" "fst (sv_policy sv BWL_MODE_OPEN None)"
    and "accept_greet sv (modes AND BWL_MODE_ALLMODES) ((BWLControlAlloc [] IoOk IoOk)\<lparr>is_server := True\<rparr>) = Inr (ch, s1)"
  shows "\<exists>input s. BWLControlAccept sv modes uptime input IoOk IoOk = Inr s \<and> mode s = BWL_MODE_OPEN \<and>
    \<not> do_cipher s \<and> cstate s = BWLStateRequest"
proof -
  let ?c = "(BWLControlAlloc [] IoOk IoOk)\<lparr>mode := BWL_MODE_OPEN, protocol_version := BWL_MODE_PROTOCOL_CURRENT_VERSION,
    cstate := BWLStateSetup\<rparr>" and ?token = "replicate 32 0 :: u8 list"
  have plain: "\<not> do_cipher ?c"
    by (simp add: do_cipher_def BWL_MODE_OPEN_def BWL_MODE_DOCIPHER_def BWL_MODE_AUTHENTICATED_def BWL_MODE_ENCRYPTED_def)
  let ?s0 = "(BWLControlAlloc [] IoOk IoOk)\<lparr>is_server := True\<rparr>"
  obtain m hello where ch: "length ch = 16" "length m = 128" and s1: "s1 = ?s0\<lparr>msg := m, sock_out := hello, cstate := BWLStateSetup\<rparr>"
    and again: "\<forall>x. accept_greet sv (modes AND BWL_MODE_ALLMODES) (?s0\<lparr>sock_in := x\<rparr>) = Inr (ch, s1\<lparr>sock_in := x\<rparr>)"
    by (rule accept_greet_made [OF assms(1) refl assms(4)]) (rule that; assumption)
  have g: "greeted sample_client ch ?c ?token ?c" using plain by (simp add: greeted_def single_mode_def)
  have known: "server_welcomes sv sample_client ?c" using plain assms(3) by (simp add: server_welcomes_def)
  obtain mm greeting ms where greeting: "length ms = 128"
    "\<forall>rest. BWLReadClientGreeting (s1\<lparr>sock_in := greeting @ rest\<rparr>) = (BWLErrOK,
       Some (mode ?c, if do_cipher ?c then ?token else replicate 32 0, if do_cipher ?c then writeIV ?c else replicate 16 0),
       s1\<lparr>sock_in := rest, msg := ms, protocol_version := protocol_version ?c,
         userid_buffer := if do_cipher ?c then userid_buffer ?c else replicate 16 0\<rparr>)"
    by (rule client_greeting [of ?c s1 ?token]) (simp_all add: ch s1 single_mode_are_modes single_mode_def)
  define sg where "sg = s1\<lparr>sock_in := [], msg := ms, protocol_version := protocol_version ?c, userid_buffer := replicate 16 0\<rparr>"
  have read: "BWLReadClientGreeting (s1\<lparr>sock_in := greeting\<rparr>) = (BWLErrOK,
       Some (mode ?c, if do_cipher ?c then ?token else replicate 32 0, if do_cipher ?c then writeIV ?c else replicate 16 0), sg)"
    using greeting(2) [rule_format, of "[]"] plain by (simp add: sg_def)
  have side: "60 \<le> length (rk (cl_key0 sample_client))" "fresh_keys ?c" "fresh_keys sg" "length (msg ?c) = 128" "length (msg sg) = 128"
      "wr_status ?c = IoOk" "rd_status ?c = IoOk" "wr_status sg = IoOk" "rd_status sg = IoOk"
      "do_cipher ?c \<longrightarrow> userid_buffer sg = userid_buffer ?c" "session_key ?c = session_key sg" "\<not> userid_set sg" "length (writeIV sg) = 16"
    using greeting(1) plain by (simp_all add: sg_def s1 fresh_keys_def BWLControlAlloc_def sample_client_def)
  obtain ss where ss: "accept_answer sv (modes AND BWL_MODE_ALLMODES) uptime ch (s1\<lparr>sock_in := greeting\<rparr>) = accepting sv uptime ss"
      "linked ss (?c\<lparr>readIV := writeIV ss\<rparr>)" "length (writeIV ss) = 16" "mode ss = mode ?c" "cstate ss = cstate sg"
    by (rule accept_links [OF g assms(1) known ch(1) side read, of "modes AND BWL_MODE_ALLMODES" uptime]) (rule that; assumption)
  have fresh: "cstate ss = BWLStateSetup" "cstate ?c = BWLStateSetup" "protocol_version ?c \<noteq> 0"
    using ss(5) by (simp_all add: sg_def s1 BWL_MODE_PROTOCOL_CURRENT_VERSION_def BWL_MODE_PROTOCOL_MSS_VERSION_def)
  obtain s where s: "accepting sv uptime ss = Inr s" "mode s = mode ss" "cstate s = BWLStateRequest"
    by (rule server_accept [OF ss(2,3) fresh(3,1,2), of uptime "tool_avail sv"]) (simp add: accepting_def that)
  have "BWLControlAccept sv modes uptime greeting IoOk IoOk = Inr s"
    using again [rule_format, of greeting] ss(1) s(1) assms(1)
    by (simp add: BWLControlAccept_def server_ok_def BWLControlAlloc_def)
  with s ss(4) plain show ?thesis by (intro exI [of _ greeting] exI [of _ s]) (simp add: do_cipher_def)
qed

theorem mode_not_offered_accepted_witness:
  "\<exists>input s. BWLControlAccept sample_server BWL_MODE_ENCRYPTED 3 input IoOk IoOk = Inr s \<and> mode s = BWL_MODE_OPEN \<and>
    \<not> do_cipher s \<and> cstate s = BWLStateRequest"
proof -
  let ?s0 = "(BWLControlAlloc [] IoOk IoOk)\<lparr>is_server := True\<rparr>"
  have "\<exists>s1. accept_greet sample_server (BWL_MODE_ENCRYPTED AND BWL_MODE_ALLMODES) ?s0 = Inr (replicate 16 1, s1)"
    by (simp add: accept_greet_def sample_server_def BWLWriteServerGreeting_def I2Writeni_def state_initial Let_def
        BWL_MODE_ENCRYPTED_def BWL_MODE_ALLMODES_def BWL_MODE_DOCIPHER_def BWL_MODE_AUTHENTICATED_def BWL_MODE_OPEN_def)
  then show ?thesis
    by (elim exE, intro mode_not_offered_accepted [OF sample_ok(1)])
      (simp_all add: sample_server_def BWL_MODE_ENCRYPTED_def BWL_MODE_OPEN_def)
qed

end
