(* ===== verification/TestRequest.thy ===== *)
theory TestRequest
  imports Messages
begin

unbundle bit_operations_syntax

text \<open>
  The test request, the largest message of \<open>bwlib/protocol.c\<close>: \<open>_BWLWriteTestRequest\<close> and
  \<open>_BWLReadTestRequest\<close>, the parameter blocks of the three kinds of tools
  (\<open>BWLGenericUnparse...\<close> and \<open>BWLGenericParse...\<close>), the dispatch on the tool in \<open>bwlib/tools.c\<close> and
  \<open>_BWLTestSessionAlloc\<close> of \<open>bwlib/api.c\<close>.

  A store through a cast pointer is in the byte order of the host (\<open>endian\<close>). Whether address records
  and memory can be had is the parameter \<open>alloc\<close>.

  Shown: a request between ends of the current version arrives as it was sent, for each kind of tool
  (\<open>test_request_roundtrip\<close>); the bandwidth is carried as mantissa and exponent with a relative error
  below two to the minus 31 (\<open>bandwidth_error_bounded\<close>); and a request to a peer without tool negotiation is always
  rejected by it (\<open>legacy_request_rejected\<close>).
\<close>

section \<open>Sessions\<close>

definition zero_spec :: BWLTestSpec where
  "zero_spec = \<lparr>verbose = 0, client = AF_OTHER, server = AF_OTHER,
     req_time = \<lparr>tstamp = 0, sync = 0, multiplier = 0, scale = 0\<rparr>, latest_time = 0, server_sends = 0,
     no_server_endpoint = 0, duration = 0, tool_id = 0, udp = 0, tos = 0, bandwidth = 0, window_size = 0,
     len_buffer = 0, report_interval = 0, mss = 0, omit = 0, parallel_streams = 0, units = 0, outformat = 0,
     dynamic_window_size = 0, ping_packet_count = 0, ping_interpacket_time = 0, ping_packet_size = 0,
     ping_packet_ttl = 0, traceroute_udp = 0, traceroute_packet_size = 0, traceroute_first_ttl = 0,
     traceroute_last_ttl = 0\<rparr>"

definition BWLTestSessionAlloc ::
  "bool \<Rightarrow> bool \<Rightarrow> sockaddr \<Rightarrow> sockaddr \<Rightarrow> u16 \<Rightarrow> BWLTestSpec \<Rightarrow> BWLTestSession option" where
  "BWLTestSessionAlloc alloc is_client cl sv port spec =
     (if \<not> alloc then None
      else Some \<lparr>sid = replicate 16 0, localtime = no_time, reserve_time = 0, fuzz = 0,
        tool_port = if is_client then port else 0, local_tool_port = 0, conf_client = is_client,
        conf_server = \<not> is_client, test_spec = spec\<lparr>client := cl, server := sv\<rparr>,
        localfp = None, remotefp = None, closure = None\<rparr>)"

section \<open>Parameters of a tool, written\<close>

text \<open>The loop that halves the bandwidth until it fits 32 bits.\<close>

function scale_bandwidth :: "u64 \<Rightarrow> u8 \<Rightarrow> u64 \<times> u8" where
  "scale_bandwidth b e = (if b > 0xFFFFFFFF then scale_bandwidth (drop_bit 1 b) (e + 1) else (b, e))"
  by pat_completeness auto
termination
proof (relation "measure (\<lambda>(b, e). unat b)")
  fix b :: u64 and e :: u8
  assume "b > 0xFFFFFFFF"
  then have "0 < unat b" by (metis gr_zeroI not_less_zero unat_eq_zero word_neq_0_conv word_not_simps(1))
  then show "((drop_bit 1 b, e + 1), b, e) \<in> measure (\<lambda>(b, e). unat b)" by (simp add: drop_bit_Suc unat_div)
qed simp

declare scale_bandwidth.simps [simp del]

definition BWL_DYNAMIC_WINDOW_SIZE :: u8 where "BWL_DYNAMIC_WINDOW_SIZE = 1"

definition BWLGenericUnparseThroughputParameters ::
  "u8 list \<Rightarrow> BWLTestSpec \<Rightarrow> u32 \<Rightarrow> BWLTestSession \<Rightarrow> BWLErrSeverity \<times> u8 list" where
  "BWLGenericUnparseThroughputParameters buf tspec v tsession =
     (let tool_negotiation = BWL_MODE_PROTOCOL_TESTER_NEGOTIATION_VERSION \<le> v;
          omit_available = BWL_MODE_PROTOCOL_OMIT_VERSION \<le> v;
          mss_available = BWL_MODE_PROTOCOL_MSS_VERSION \<le> v;
          buf = (if udp tspec \<noteq> 0 then buf[1 := buf ! 1 OR 0x10] else buf)
      in if v < BWL_MODE_PROTOCOL_1_5_VERSION \<and> 0 < bandwidth tspec \<and> udp tspec = 0 \<and> conf_client tsession
         then (BWLErrFATAL, buf)
         else let (bw, bandwidth_exp) = scale_bandwidth (bandwidth tspec) 0;
                  buf = put_net32 buf 76 (ucast (bw AND 0xFFFFFFFF));
                  buf = put_net32 buf 80 (len_buffer tspec);
                  buf = put_net32 buf 84 (window_size tspec);
                  buf = put_net32 buf 88 (if BWL_MODE_PROTOCOL_1_5_VERSION \<le> v then ucast (report_interval tspec)
                                          else ucast (report_interval tspec div 1000));
                  buf = (if dynamic_window_size tspec \<noteq> 0 then buf[92 := buf ! 92 OR BWL_DYNAMIC_WINDOW_SIZE] else buf)
              in if \<not> tool_negotiation \<and> (parallel_streams tspec \<noteq> 0 \<or> units tspec \<noteq> 0 \<or> bandwidth_exp > 0)
                 then (BWLErrFATAL, buf)
                 else let buf = (if tool_negotiation
                                 then (put_net32 (buf[94 := parallel_streams tspec]) 96 (tool_id tspec))
                                   [109 := bandwidth_exp, 111 := units tspec]
                                 else buf)
                      in if \<not> mss_available \<and> mss tspec > 0 then (BWLErrFATAL, buf)
                         else let buf = (if mss_available then put_net16 buf 104 (mss tspec) else buf)
                              in if \<not> omit_available \<and> omit tspec \<noteq> 0 then (BWLErrFATAL, buf)
                                 else (BWLErrOK, if omit_available then buf[110 := omit tspec] else buf))"

definition BWLGenericUnparseTracerouteParameters ::
  "u8 list \<Rightarrow> BWLTestSpec \<Rightarrow> u32 \<Rightarrow> BWLTestSession \<Rightarrow> BWLErrSeverity \<times> u8 list" where
  "BWLGenericUnparseTracerouteParameters buf tspec v tsession =
     (if tos tspec \<noteq> 0 \<and> \<not> BWL_MODE_PROTOCOL_1_5_2_VERSION \<le> v then (BWLErrFATAL, buf)
      else let buf = put_net32 buf 4 (duration tspec);
               buf = buf[76 := traceroute_first_ttl tspec, 77 := traceroute_last_ttl tspec]
           in (BWLErrOK, put_net16 buf 78 (traceroute_packet_size tspec)))"

definition BWLGenericUnparsePingParameters ::
  "u8 list \<Rightarrow> BWLTestSpec \<Rightarrow> u32 \<Rightarrow> BWLTestSession \<Rightarrow> BWLErrSeverity \<times> u8 list" where
  "BWLGenericUnparsePingParameters buf tspec v tsession =
     (if tos tspec \<noteq> 0 \<and> \<not> BWL_MODE_PROTOCOL_1_5_2_VERSION \<le> v then (BWLErrFATAL, buf)
      else let buf = put_net16 buf 76 (ping_packet_count tspec);
               buf = put_net16 buf 78 (ping_packet_size tspec);
               buf = put_net16 buf 80 (ping_interpacket_time tspec)
           in (BWLErrOK, buf[84 := ping_packet_ttl tspec]))"

fun unparse_request ::
  "request_params \<Rightarrow> u8 list \<Rightarrow> BWLTestSpec \<Rightarrow> u32 \<Rightarrow> BWLTestSession \<Rightarrow> BWLErrSeverity \<times> u8 list" where
  "unparse_request ThroughputParams = BWLGenericUnparseThroughputParameters"
| "unparse_request TracerouteParams = BWLGenericUnparseTracerouteParameters"
| "unparse_request PingParams = BWLGenericUnparsePingParameters"

definition BWLToolUnparseRequestParameters ::
  "u32 \<Rightarrow> BWLContext \<Rightarrow> u8 list \<Rightarrow> BWLTestSpec \<Rightarrow> u32 \<Rightarrow> BWLTestSession \<Rightarrow> BWLErrSeverity \<times> u8 list" where
  "BWLToolUnparseRequestParameters i ctx buf tspec v tsession = (case find_tool (tool_list ctx) i of
     None \<Rightarrow> (BWLErrFATAL, buf)
   | Some t \<Rightarrow> (case parse_request t of None \<Rightarrow> (BWLErrOK, buf) | Some k \<Rightarrow> unparse_request k buf tspec v tsession))"

section \<open>Parameters of a tool, read\<close>

text \<open>
  The shift by \<open>bandwidth_exp\<close> is only defined in C for exponents below 64; the writer's are at most
  32, and a larger one from elsewhere is not checked.
\<close>

definition BWLGenericParseThroughputParameters :: "u8 list \<Rightarrow> BWLTestSpec \<Rightarrow> u32 \<Rightarrow> BWLTestSpec" where
  "BWLGenericParseThroughputParameters buf tspec v =
     (let tool_negotiation = BWL_MODE_PROTOCOL_TESTER_NEGOTIATION_VERSION \<le> v;
          tspec = tspec\<lparr>udp := if drop_bit 4 (buf ! 1) \<noteq> 0 then 1 else 0, bandwidth := ucast (get_net32 buf 76),
            len_buffer := get_net32 buf 80, window_size := get_net32 buf 84,
            report_interval := ucast (if v < BWL_MODE_PROTOCOL_1_5_VERSION then get_net32 buf 88 * 1000 else get_net32 buf 88),
            dynamic_window_size := ucast (buf ! 92 AND BWL_DYNAMIC_WINDOW_SIZE)\<rparr>;
          tspec = (if tool_negotiation
                   then tspec\<lparr>parallel_streams := buf ! 94, bandwidth := push_bit (unat (buf ! 109)) (bandwidth tspec),
                          units := buf ! 111\<rparr>
                   else tspec);
          tspec = (if BWL_MODE_PROTOCOL_OMIT_VERSION \<le> v then tspec\<lparr>verbose := ucast (buf ! 100), omit := buf ! 110\<rparr> else tspec)
      in if BWL_MODE_PROTOCOL_MSS_VERSION \<le> v then tspec\<lparr>mss := get_net16 buf 104\<rparr> else tspec)"

definition drop_tos :: "u32 \<Rightarrow> BWLTestSpec \<Rightarrow> BWLTestSpec" where
  "drop_tos v tspec = (if tos tspec \<noteq> 0 \<and> \<not> BWL_MODE_PROTOCOL_1_5_2_VERSION \<le> v then tspec\<lparr>tos := 0\<rparr> else tspec)"

definition BWLGenericParseTracerouteParameters :: "u8 list \<Rightarrow> BWLTestSpec \<Rightarrow> u32 \<Rightarrow> BWLTestSpec" where
  "BWLGenericParseTracerouteParameters buf tspec v = (drop_tos v tspec)\<lparr>traceroute_first_ttl := buf ! 76,
     traceroute_last_ttl := buf ! 77, traceroute_packet_size := get_net16 buf 78\<rparr>"

definition BWLGenericParsePingParameters :: "u8 list \<Rightarrow> BWLTestSpec \<Rightarrow> u32 \<Rightarrow> BWLTestSpec" where
  "BWLGenericParsePingParameters buf tspec v = (drop_tos v tspec)\<lparr>ping_packet_count := get_net16 buf 76,
     ping_packet_size := get_net16 buf 78, ping_interpacket_time := get_net16 buf 80, ping_packet_ttl := buf ! 84\<rparr>"

fun parse_params :: "request_params \<Rightarrow> u8 list \<Rightarrow> BWLTestSpec \<Rightarrow> u32 \<Rightarrow> BWLTestSpec" where
  "parse_params ThroughputParams = BWLGenericParseThroughputParameters"
| "parse_params TracerouteParams = BWLGenericParseTracerouteParameters"
| "parse_params PingParams = BWLGenericParsePingParameters"

text \<open>\<open>None\<close>: no such tool.\<close>

definition BWLToolParseRequestParameters ::
  "u32 \<Rightarrow> BWLContext \<Rightarrow> u8 list \<Rightarrow> BWLTestSpec \<Rightarrow> u32 \<Rightarrow> BWLTestSpec option" where
  "BWLToolParseRequestParameters i ctx buf tspec v =
     map_option (\<lambda>t. case parse_request t of None \<Rightarrow> tspec | Some k \<Rightarrow> parse_params k buf tspec v)
       (find_tool (tool_list ctx) i)"

section \<open>The request, written\<close>

definition request_blocks :: "u32 \<Rightarrow> nat" where
  "request_blocks v = (if BWL_MODE_PROTOCOL_TESTER_NEGOTIATION_VERSION \<le> v then 8 else 7)"

text \<open>
  The fields common to all tools; the byte order concerns the output format, which the code stores
  as a word.
\<close>

definition request_head :: "u8 list \<Rightarrow> nat \<Rightarrow> u8 \<Rightarrow> BWLTestSession \<Rightarrow> u8 list" where
  "request_head buf blocks version tsession =
     (let tspec = test_spec tsession;
          buf = memset0 buf 0 (16 * blocks);
          buf = buf[0 := 1, 1 := version AND 0xF, 2 := if conf_client tsession then 1 else 0,
                    3 := if conf_server tsession then 1 else 0];
          buf = memcpy buf 8 (BWLEncodeTimeStamp (req_time tspec))
      in memcpy buf 16 (encode_time (latest_time tspec)))"

definition request_fields :: "u8 list \<Rightarrow> u8 list \<Rightarrow> u8 list \<Rightarrow> u8 list \<Rightarrow> BWLTestSession \<Rightarrow> u8 list" where
  "request_fields buf est cl sv tsession =
     (let tspec = test_spec tsession;
          buf = memcpy buf 24 est;
          buf = put_net16 buf 26 (tool_port tsession);
          buf = memcpy buf 28 cl;
          buf = memcpy buf 44 sv;
          buf = memcpy buf 60 (sid tsession);
          buf = put_net32 buf 96 (tool_id tspec);
          buf = put_net32 buf 4 (duration tspec);
          buf = buf[100 := ucast (verbose tspec)]
      in buf)"

definition request_options :: "endian \<Rightarrow> u8 list \<Rightarrow> BWLTestSpec \<Rightarrow> u8 list" where
  "request_options e buf tspec =
     (let buf = memcpy buf 108 (host_bytes e 4 (unat (outformat tspec)));
          buf = buf[101 := ucast (server_sends tspec), 102 := ucast (no_server_endpoint tspec)]
      in if tos tspec \<noteq> 0 then buf[93 := tos tspec] else buf)"

fun addr_version :: "sockaddr \<Rightarrow> sockaddr \<Rightarrow> (u8 \<times> u8 list \<times> u8 list) option" where
  "addr_version (AF_INET a) (AF_INET b) = Some (4, a, b)"
| "addr_version (AF_INET6 a) (AF_INET6 b) = Some (6, a, b)"
| "addr_version _ _ = None"

definition BWLWriteTestRequest ::
  "endian \<Rightarrow> BWLContext \<Rightarrow> BWLControl \<Rightarrow> BWLTestSession \<Rightarrow> BWLErrSeverity \<times> BWLControl" where
  "BWLWriteTestRequest e ctx c tsession =
     (let tspec = test_spec tsession; v = protocol_version c; blocks = request_blocks v
      in if \<not> BWLStateIs BWLStateRequest c \<or> BWLStateIs BWLStatePending c then (BWLErrFATAL, c)
         else case addr_version (client tspec) (server tspec) of None \<Rightarrow> (BWLErrFATAL, c)
         | Some (version, cl, sv) \<Rightarrow>
             (let buf = request_head (msg c) blocks version tsession
              in case BWLEncodeTimeStampErrEstimate (req_time tspec) of None \<Rightarrow> (BWLErrFATAL, c\<lparr>msg := buf\<rparr>)
                 | Some est \<Rightarrow>
                     (let buf = request_fields buf est cl sv tsession
                      in if v < BWL_MODE_PROTOCOL_TESTER_NEGOTIATION_VERSION \<and> outformat tspec \<noteq> 0
                         then (BWLErrFATAL, c\<lparr>msg := buf\<rparr>)
                         else if v < BWL_MODE_PROTOCOL_1_5_VERSION \<and> server_sends tspec \<noteq> 0 then (BWLErrFATAL, c\<lparr>msg := buf\<rparr>)
                         else let buf = request_options e buf tspec;
                                  (r, buf) = BWLToolUnparseRequestParameters (tool_id tspec) ctx buf tspec v tsession
                              in if r \<noteq> BWLErrOK then (BWLErrFATAL, c\<lparr>msg := buf\<rparr>)
                                 else let (n, c) = BWLSendBlocks (c\<lparr>msg := buf\<rparr>) blocks
                                      in if n \<noteq> int blocks then (BWLErrFATAL, set_state BWLStateInvalid c)
                                         else (BWLErrOK, or_state BWLStateTestAccept c))))"

section \<open>The request, read\<close>

text \<open>A new request: the session, or the severity and the answer for the client.\<close>

definition read_addrs :: "u8 list \<Rightarrow> (sockaddr \<times> sockaddr) option" where
  "read_addrs buf = (let ipvn = buf ! 1 AND 0xF
     in if ipvn = 6 then Some (AF_INET6 (slice 28 16 buf), AF_INET6 (slice 44 16 buf))
        else if ipvn = 4 then Some (AF_INET (slice 28 4 buf), AF_INET (slice 44 4 buf))
        else None)"

definition read_spec :: "u8 list \<Rightarrow> u32 \<Rightarrow> BWLTestSpec \<Rightarrow> BWLTestSpec" where
  "read_spec buf v tspec =
     (let tspec = tspec\<lparr>duration := get_net32 buf 4,
            verbose := if BWL_MODE_PROTOCOL_1_5_2_VERSION \<le> v then ucast (buf ! 100) else 1, tos := buf ! 93\<rparr>;
          tspec = (if BWL_MODE_PROTOCOL_1_5_VERSION \<le> v
                   then tspec\<lparr>server_sends := ucast (buf ! 101), no_server_endpoint := ucast (buf ! 102)\<rparr> else tspec)
      in if BWL_MODE_PROTOCOL_TESTER_NEGOTIATION_VERSION \<le> v then tspec\<lparr>outformat := buf ! 108\<rparr> else tspec)"

definition new_request ::
  "BWLContext \<Rightarrow> bool \<Rightarrow> u8 list \<Rightarrow> u32 \<Rightarrow> u16 \<Rightarrow> BWLTestSpec \<Rightarrow> (BWLErrSeverity \<times> BWLAcceptType) + BWLTestSession" where
  "new_request ctx alloc buf v port tspec =
     (let conf_client = buf ! 2 \<noteq> 0; conf_server = buf ! 3 \<noteq> 0;
          port = (if conf_server then 0 else port)
      in if conf_client = conf_server then Inl (BWLErrFATAL, BWL_CNTRL_INVALID)
         else case read_addrs buf of None \<Rightarrow> Inl (BWLErrFATAL, BWL_CNTRL_INVALID)
         | Some (SendAddr, RecvAddr) \<Rightarrow>
             (let tool_negotiation = BWL_MODE_PROTOCOL_TESTER_NEGOTIATION_VERSION \<le> v;
                  tspec = tspec\<lparr>tool_id := if tool_negotiation then get_net32 buf 96 else BWL_TOOL_IPERF\<rparr>
              in if tool_negotiation \<and> tool_id tspec AND (tool_id tspec - 1) \<noteq> 0
                 then Inl (BWLErrWARNING, BWL_CNTRL_FAILURE)
                 else case BWLToolParseRequestParameters (tool_id tspec) ctx buf (read_spec buf v tspec) v of
                        None \<Rightarrow> Inl (BWLErrWARNING, BWL_CNTRL_FAILURE)
                      | Some tspec \<Rightarrow>
                          (case BWLTestSessionAlloc alloc conf_client SendAddr RecvAddr port tspec of
                             None \<Rightarrow> Inl (BWLErrWARNING, BWL_CNTRL_FAILURE)
                           | Some t \<Rightarrow> Inr (t\<lparr>sid := slice 60 16 buf\<rparr>))))"

text \<open>An update of the reservation of an existing session.\<close>

definition update_request :: "u8 list \<Rightarrow> u16 \<Rightarrow> BWLTestSpec \<Rightarrow> BWLTestSession \<Rightarrow> BWLTestSession option" where
  "update_request buf port tspec t =
     (if slice 60 16 buf \<noteq> sid t then None
      else Some (t\<lparr>test_spec := (test_spec t)\<lparr>req_time := req_time tspec, latest_time := latest_time tspec\<rparr>,
             tool_port := if conf_server t then tool_port t else port\<rparr>))"

text \<open>
  The severity, the answer (\<open>None\<close>: not stored), the session and the control record. When an update
  names another session the existing one is freed (\<open>None\<close> here, a dangling pointer in the code), which
  also takes it off the control record: the caller passes the session of the record.
\<close>

definition request_error ::
  "BWLErrSeverity \<Rightarrow> BWLAcceptType \<Rightarrow> BWLTestSession option \<Rightarrow> BWLControl \<Rightarrow>
   BWLErrSeverity \<times> BWLAcceptType option \<times> BWLTestSession option \<times> BWLControl" where
  "request_error err acc t c = (err, Some acc, t, if err < BWLErrWARNING then set_state BWLStateInvalid c else c)"

definition BWLReadTestRequest ::
  "BWLContext \<Rightarrow> bool \<Rightarrow> BWLControl \<Rightarrow> BWLTestSession option \<Rightarrow>
   BWLErrSeverity \<times> BWLAcceptType option \<times> BWLTestSession option \<times> BWLControl" where
  "BWLReadTestRequest ctx alloc c test_session =
     (if \<not> BWLStateIs BWLStateTestRequest c then (BWLErrFATAL, None, test_session, c)
      else let v = protocol_version c; blocks = request_blocks v; padding_pos = (blocks - 1) * 16;
               (n, c) = BWLReceiveBlocksIntr c 16 (blocks - 1)
           in if n \<noteq> int (blocks - 1) then request_error BWLErrFATAL BWL_CNTRL_INVALID test_session c
              else if slice padding_pos 16 (msg c) \<noteq> zero16 then request_error BWLErrFATAL BWL_CNTRL_INVALID test_session c
              else let buf = msg c;
                       (t, ok) = BWLDecodeTimeStampErrEstimate
                         (BWLDecodeTimeStamp (req_time zero_spec) (slice 8 8 buf)) (slice 24 2 buf)
                   in if \<not> ok then request_error BWLErrFATAL BWL_CNTRL_INVALID test_session c
                      else let tspec = zero_spec\<lparr>req_time := t, latest_time := decode_time (slice 16 8 buf)\<rparr>;
                               port = get_net16 buf 26;
                               accept = (\<lambda>s. (BWLErrOK, Some BWL_CNTRL_ACCEPT, Some s,
                                 or_state BWLStateTestAccept (clear_state BWLStateTestRequest c)))
                           in case test_session of
                                Some s \<Rightarrow> (case update_request buf port tspec s of
                                    None \<Rightarrow> request_error BWLErrFATAL BWL_CNTRL_INVALID None (c\<lparr>tests := None\<rparr>)
                                  | Some s \<Rightarrow> accept s)
                              | None \<Rightarrow> (case new_request ctx alloc buf v port tspec of
                                    Inl (err, acc) \<Rightarrow> request_error err acc None c
                                  | Inr s \<Rightarrow> accept s))"


section \<open>Bytes a tool's parameters leave alone\<close>

lemma version_reached:
  assumes "BWL_MODE_PROTOCOL_MSS_VERSION \<le> v"
  shows "BWL_MODE_PROTOCOL_TESTER_NEGOTIATION_VERSION \<le> v" "BWL_MODE_PROTOCOL_OMIT_VERSION \<le> v"
    "BWL_MODE_PROTOCOL_1_5_VERSION \<le> v" "BWL_MODE_PROTOCOL_1_5_2_VERSION \<le> v" "\<not> v < BWL_MODE_PROTOCOL_1_5_VERSION"
    "\<not> v < BWL_MODE_PROTOCOL_TESTER_NEGOTIATION_VERSION"
  using assms by (auto simp: not_less BWL_MODE_PROTOCOL_MSS_VERSION_def BWL_MODE_PROTOCOL_TESTER_NEGOTIATION_VERSION_def
      BWL_MODE_PROTOCOL_OMIT_VERSION_def BWL_MODE_PROTOCOL_1_5_VERSION_def BWL_MODE_PROTOCOL_1_5_2_VERSION_def
      elim: order_trans [rotated])

definition same_outside :: "nat set \<Rightarrow> u8 list \<Rightarrow> u8 list \<Rightarrow> bool" where
  "same_outside S a b \<longleftrightarrow> length a = length b \<and> (\<forall>i < length b. i \<notin> S \<longrightarrow> a ! i = b ! i)"

lemma same_outside_slice:
  assumes "same_outside S a b" "i + n \<le> length b" "{i..<i + n} \<inter> S = {}"
  shows "slice i n a = slice i n b"
proof (rule nth_equalityI)
  show "length (slice i n a) = length (slice i n b)" using assms(1,2) by (simp add: same_outside_def)
  fix j assume "j < length (slice i n a)"
  then have j: "j < n" using assms(1,2) by (simp add: same_outside_def)
  then have "i + j \<in> {i..<i + n}" by simp
  then have "i + j \<notin> S" using assms(3) by blast
  then show "slice i n a ! j = slice i n b ! j" using assms(1,2) j by (simp add: same_outside_def slice_def)
qed

lemma same_outside_nth: "same_outside S a b \<Longrightarrow> i < length b \<Longrightarrow> i \<notin> S \<Longrightarrow> a ! i = b ! i"
  by (simp add: same_outside_def)

lemma nth_put:
  "off + 2 \<le> length buf \<Longrightarrow> i < length buf \<Longrightarrow>
   put_net16 buf off p ! i = (if off \<le> i \<and> i < off + 2 then be_bytes 2 (unat p) ! (i - off) else buf ! i)"
  "off + 4 \<le> length buf \<Longrightarrow> i < length buf \<Longrightarrow>
   put_net32 buf off w ! i = (if off \<le> i \<and> i < off + 4 then be_bytes 4 (unat w) ! (i - off) else buf ! i)"
  by (auto simp: put_net16_def put_net32_def buf_simps)

lemma same_outside_intros:
  "same_outside S b b"
  "i \<in> S \<Longrightarrow> same_outside S a b \<Longrightarrow> same_outside S (a[i := x]) b"
  "{off..<off + 2} \<subseteq> S \<Longrightarrow> off + 2 \<le> length b \<Longrightarrow> same_outside S a b \<Longrightarrow> same_outside S (put_net16 a off p) b"
  "{off..<off + 4} \<subseteq> S \<Longrightarrow> off + 4 \<le> length b \<Longrightarrow> same_outside S a b \<Longrightarrow> same_outside S (put_net32 a off w) b"
  "(c \<Longrightarrow> same_outside S a b) \<Longrightarrow> (\<not> c \<Longrightarrow> same_outside S a' b) \<Longrightarrow> same_outside S (if c then a else a') b"
proof -
  show "i \<in> S \<Longrightarrow> same_outside S a b \<Longrightarrow> same_outside S (a[i := x]) b"
    unfolding same_outside_def by (metis length_list_update nth_list_update_neq)
qed (auto simp: same_outside_def nth_put)

lemma same_outside_memcpy:
  "{off..<off + length src} \<subseteq> S \<Longrightarrow> off + length src \<le> length b \<Longrightarrow> same_outside S a b \<Longrightarrow> same_outside S (memcpy a off src) b"
proof -
  assume a: "{off..<off + length src} \<subseteq> S" "off + length src \<le> length b" "same_outside S a b"
  have "memcpy a off src ! i = b ! i" if "i < length b" "i \<notin> S" for i
  proof -
    have "\<not> (off \<le> i \<and> i < off + length src)" using a(1) that(2) by (auto simp: subset_iff)
    then show ?thesis using a that by (auto simp: same_outside_def memcpy_def nth_append)
  qed
  then show ?thesis using a by (simp add: same_outside_def)
qed

definition sent_bandwidth :: "u64 \<Rightarrow> u64" where
  "sent_bandwidth b = (let (m, e) = scale_bandwidth b 0 in push_bit (unat e) (ucast (ucast (m AND 0xFFFFFFFF) :: u32)))"

definition throughput_bytes :: "nat set" where
  "throughput_bytes = {1, 94, 109, 110, 111} \<union> {76..<93} \<union> {96..<100} \<union> {104, 105}"

lemma ucast_up_down [simp]: "ucast (ucast w :: u32) = (w :: u16)"
  by (rule bit_word_eqI) (simp add: bit_simps)

lemma unparse_throughput:
  assumes "length buf = 128" "BWL_MODE_PROTOCOL_MSS_VERSION \<le> v" "drop_bit 4 (buf ! 1) = 0" "buf ! 92 = 0"
  obtains buf' where "BWLGenericUnparseThroughputParameters buf ts v t = (BWLErrOK, buf')"
    "same_outside throughput_bytes buf' buf" "buf' ! 1 AND 0xF = buf ! 1 AND 0xF" "slice 96 4 buf' = be_bytes 4 (unat (tool_id ts))"
    "\<forall>s. BWLGenericParseThroughputParameters buf' s v = s\<lparr>udp := if udp ts \<noteq> 0 then 1 else 0,
       len_buffer := len_buffer ts, window_size := window_size ts,
       report_interval := report_interval ts, dynamic_window_size := if dynamic_window_size ts \<noteq> 0 then 1 else 0,
       parallel_streams := parallel_streams ts, bandwidth := sent_bandwidth (bandwidth ts), units := units ts, verbose := ucast (buf ! 100), omit := omit ts,
       mss := mss ts\<rparr>"
proof -
  obtain m e where me: "scale_bandwidth (bandwidth ts) 0 = (m, e)" by fastforce
  define b1 where "b1 = (if udp ts \<noteq> 0 then buf[1 := buf ! 1 OR 0x10] else buf)"
  define b2 where "b2 = put_net32 (put_net32 (put_net32 (put_net32 b1 76 (ucast (m AND 0xFFFFFFFF))) 80 (len_buffer ts)) 84 (window_size ts))
    88 (ucast (report_interval ts))"
  define b3 where "b3 = (if dynamic_window_size ts \<noteq> 0 then b2[92 := b2 ! 92 OR BWL_DYNAMIC_WINDOW_SIZE] else b2)"
  define buf' where "buf' = (put_net16 ((put_net32 (b3[94 := parallel_streams ts]) 96 (tool_id ts))[109 := e, 111 := units ts]) 104 (mss ts))
    [110 := omit ts]"
  have len: "length b1 = 128" "length b2 = 128" "length b3 = 128" "length buf' = 128"
    using assms(1) by (simp_all add: b1_def b2_def b3_def buf'_def)
  note v = version_reached [OF assms(2)]
  have eq: "BWLGenericUnparseThroughputParameters buf ts v t = (BWLErrOK, buf')"
    using assms(2) v by (simp add: BWLGenericUnparseThroughputParameters_def Let_def me b1_def [symmetric] b2_def [symmetric]
        b3_def buf'_def)
  have same: "same_outside throughput_bytes buf' buf"
    unfolding buf'_def b3_def b2_def b1_def
    by (intro same_outside_intros) (auto simp: throughput_bytes_def assms(1))
  have bytes: "buf' ! 1 = b1 ! 1" "buf' ! 92 = (if dynamic_window_size ts \<noteq> 0 then 1 else 0)" "buf' ! 94 = parallel_streams ts"
      "buf' ! 109 = e" "buf' ! 111 = units ts" "buf' ! 110 = omit ts" "buf' ! 100 = buf ! 100"
    using assms(1,4) by (simp_all add: buf'_def b3_def b2_def b1_def nth_put nth_list_update BWL_DYNAMIC_WINDOW_SIZE_def)
  have words: "slice 96 4 buf' = be_bytes 4 (unat (tool_id ts))" "get_net32 buf' 76 = ucast (m AND 0xFFFFFFFF)"
      "get_net32 buf' 80 = len_buffer ts" "get_net32 buf' 84 = window_size ts" "get_net32 buf' 88 = ucast (report_interval ts)"
      "get_net16 buf' 104 = mss ts"
    using assms(1) by (auto intro!: get_of_slice simp: buf'_def b3_def b2_def b1_def buf_simps)
  have low: "(b OR 0x10) AND 0xF = b AND 0xF" "drop_bit 4 (b OR 0x10) \<noteq> 0" for b :: u8
  proof -
    show "(b OR 0x10) AND 0xF = b AND 0xF" by (simp add: bit.conj_disj_distrib2)
    have "bit (drop_bit 4 (b OR 0x10)) 0" by (simp add: bit_drop_bit_eq bit_or_iff)
    then show "drop_bit 4 (b OR 0x10) \<noteq> 0" by (metis bit_0_eq bot_apply bot_bool_def)
  qed
  have hi: "(drop_bit 4 (buf' ! 1) = 0) = (udp ts = 0)"
    using assms(1,3) low(2) [of "buf ! 1"] by (auto simp: bytes b1_def simp del: One_nat_def)
  show ?thesis
  proof (rule that [OF eq same _ words(1)])
    show "buf' ! 1 AND 0xF = buf ! 1 AND 0xF" using assms(1) low(1) by (simp add: bytes b1_def del: One_nat_def)
    show "\<forall>s. BWLGenericParseThroughputParameters buf' s v = s\<lparr>udp := if udp ts \<noteq> 0 then 1 else 0,
       len_buffer := len_buffer ts, window_size := window_size ts,
       report_interval := report_interval ts, dynamic_window_size := if dynamic_window_size ts \<noteq> 0 then 1 else 0,
       parallel_streams := parallel_streams ts, bandwidth := sent_bandwidth (bandwidth ts), units := units ts, verbose := ucast (buf ! 100), omit := omit ts,
       mss := mss ts\<rparr>"
      using assms(2) v words
      by (simp add: BWLGenericParseThroughputParameters_def Let_def hi bytes(2-) sent_bandwidth_def me BWL_DYNAMIC_WINDOW_SIZE_def
          del: One_nat_def)
  qed
qed


text \<open>What the parameters of a tool become on the other side.\<close>

fun arrived :: "request_params \<Rightarrow> BWLTestSpec \<Rightarrow> BWLTestSpec \<Rightarrow> BWLTestSpec" where
  "arrived ThroughputParams ts s = s\<lparr>udp := if udp ts \<noteq> 0 then 1 else 0,
     len_buffer := len_buffer ts, window_size := window_size ts, report_interval := report_interval ts,
     dynamic_window_size := if dynamic_window_size ts \<noteq> 0 then 1 else 0, parallel_streams := parallel_streams ts,
     bandwidth := sent_bandwidth (bandwidth ts), units := units ts, omit := omit ts, mss := mss ts\<rparr>"
| "arrived TracerouteParams ts s = s\<lparr>traceroute_first_ttl := traceroute_first_ttl ts,
     traceroute_last_ttl := traceroute_last_ttl ts, traceroute_packet_size := traceroute_packet_size ts\<rparr>"
| "arrived PingParams ts s = s\<lparr>ping_packet_count := ping_packet_count ts, ping_packet_size := ping_packet_size ts,
     ping_interpacket_time := ping_interpacket_time ts, ping_packet_ttl := ping_packet_ttl ts\<rparr>"

definition param_bytes :: "nat set" where
  "param_bytes = throughput_bytes \<union> {4..<8}"

lemma same_outside_mono: "same_outside S a b \<Longrightarrow> S \<subseteq> T \<Longrightarrow> same_outside T a b"
  by (auto simp: same_outside_def)

lemma unparse_delivered:
  assumes "length buf = 128" "BWL_MODE_PROTOCOL_MSS_VERSION \<le> v" "drop_bit 4 (buf ! 1) = 0" "buf ! 92 = 0"
    and "slice 4 4 buf = be_bytes 4 (unat (duration ts))" "slice 96 4 buf = be_bytes 4 (unat (tool_id ts))"
  obtains buf' where "unparse_request k buf ts v t = (BWLErrOK, buf')" "same_outside param_bytes buf' buf"
    "buf' ! 1 AND 0xF = buf ! 1 AND 0xF" "slice 4 4 buf' = be_bytes 4 (unat (duration ts))"
    "slice 96 4 buf' = be_bytes 4 (unat (tool_id ts))"
    "\<forall>s. verbose s = ucast (buf ! 100) \<longrightarrow> parse_params k buf' s v = arrived k ts s"
proof -
  note v = version_reached [OF assms(2)]
  have tos: "drop_tos v s = s" for s using v by (simp add: drop_tos_def)
  show ?thesis
  proof (cases k)
    case ThroughputParams
    obtain buf' where b: "BWLGenericUnparseThroughputParameters buf ts v t = (BWLErrOK, buf')"
      "same_outside throughput_bytes buf' buf" "buf' ! 1 AND 0xF = buf ! 1 AND 0xF" "slice 96 4 buf' = be_bytes 4 (unat (tool_id ts))"
      "\<forall>s. BWLGenericParseThroughputParameters buf' s v = s\<lparr>udp := if udp ts \<noteq> 0 then 1 else 0,
         len_buffer := len_buffer ts, window_size := window_size ts,
         report_interval := report_interval ts, dynamic_window_size := if dynamic_window_size ts \<noteq> 0 then 1 else 0,
         parallel_streams := parallel_streams ts, bandwidth := sent_bandwidth (bandwidth ts), units := units ts,
         verbose := ucast (buf ! 100), omit := omit ts, mss := mss ts\<rparr>"
      by (rule unparse_throughput [OF assms(1-4)]) (rule that; assumption)
    have "slice 4 4 buf' = slice 4 4 buf"
      by (rule same_outside_slice [OF b(2)]) (auto simp: assms(1) throughput_bytes_def)
    moreover have "parse_params k buf' s v = arrived k ts s" if "verbose s = ucast (buf ! 100)" for s
      using b(5) that ThroughputParams by (cases s) simp
    ultimately show ?thesis
      using b(1-4) assms(5) ThroughputParams
      by (intro that [of buf']) (auto intro: same_outside_mono simp: param_bytes_def)
  next
    case TracerouteParams
    let ?b = "put_net16 ((put_net32 buf 4 (duration ts))[76 := traceroute_first_ttl ts, 77 := traceroute_last_ttl ts]) 78
      (traceroute_packet_size ts)"
    have "same_outside param_bytes ?b buf"
      by (intro same_outside_intros) (auto simp: param_bytes_def throughput_bytes_def assms(1))
    moreover have "get_net16 ?b 78 = traceroute_packet_size ts" using assms(1) by (intro get_of_slice) (simp add: buf_simps)
    ultimately show ?thesis
      using assms v TracerouteParams
      by (intro that [of ?b]) (simp_all add: BWLGenericUnparseTracerouteParameters_def BWLGenericParseTracerouteParameters_def
          tos buf_simps nth_put nth_list_update)
  next
    case PingParams
    let ?b = "(put_net16 (put_net16 (put_net16 buf 76 (ping_packet_count ts)) 78 (ping_packet_size ts)) 80
      (ping_interpacket_time ts))[84 := ping_packet_ttl ts]"
    have "same_outside param_bytes ?b buf"
      by (intro same_outside_intros) (auto simp: param_bytes_def throughput_bytes_def assms(1))
    moreover have "get_net16 ?b 76 = ping_packet_count ts" "get_net16 ?b 78 = ping_packet_size ts"
        "get_net16 ?b 80 = ping_interpacket_time ts"
      using assms(1) by (auto intro!: get_of_slice simp: buf_simps)
    ultimately show ?thesis
      using assms v PingParams
      by (intro that [of ?b]) (simp_all add: BWLGenericUnparsePingParameters_def BWLGenericParsePingParameters_def
          tos buf_simps nth_put nth_list_update)
  qed
qed


lemma le_bytes_first: "le_bytes 4 (unat (b :: u8)) ! 0 = b"
  using le_bytes.simps(2) [of 3 "unat b"] unat_u8_bound [of b] by simp

text \<open>The common fields, read back from the buffer they were written to, in the three steps of the code.\<close>

lemma request_head_fields:
  assumes "length m = 128" "k \<le> 8"
  shows "length (request_head m k ver t) = 128" "request_head m k ver t ! 0 = 1" "request_head m k ver t ! 1 = ver AND 0xF"
    "(request_head m k ver t ! 2 \<noteq> 0) = conf_client t" "(request_head m k ver t ! 3 \<noteq> 0) = conf_server t"
    "slice 8 8 (request_head m k ver t) = BWLEncodeTimeStamp (req_time (test_spec t))"
    "slice 16 8 (request_head m k ver t) = encode_time (latest_time (test_spec t))"
    "k = 8 \<Longrightarrow> slice 112 16 (request_head m k ver t) = zero16" "k = 8 \<Longrightarrow> request_head m k ver t ! 92 = 0"
    "k = 8 \<Longrightarrow> request_head m k ver t ! 93 = 0"
  using assms by (simp_all add: request_head_def Let_def buf_simps zero16_eq del: One_nat_def)

definition field_bytes :: "nat set" where
  "field_bytes = {4..<8} \<union> {24..<76} \<union> {96..<101}"

lemma request_fields_fields:
  assumes "length h = 128" "length est = 2" "length cl = n" "length sv = n" "n \<le> 16" "length (sid t) = 16"
    and "f = request_fields h est cl sv t"
  shows "same_outside field_bytes f h" "slice 24 2 f = est" "slice 26 2 f = be_bytes 2 (unat (tool_port t))"
    "slice 28 n f = cl" "slice 44 n f = sv" "slice 60 16 f = sid t" "slice 96 4 f = be_bytes 4 (unat (tool_id (test_spec t)))"
    "slice 4 4 f = be_bytes 4 (unat (duration (test_spec t)))" "f ! 100 = ucast (verbose (test_spec t))"
proof -
  show "same_outside field_bytes f h"
    unfolding assms(7) request_fields_def Let_def using assms(1-6)
    by (intro same_outside_intros same_outside_memcpy) (auto simp: field_bytes_def)
qed (use assms(1-6) in \<open>simp_all add: assms(7) request_fields_def Let_def buf_simps\<close>)

definition option_bytes :: "nat set" where
  "option_bytes = {93, 101, 102} \<union> {108..<112}"

lemma request_options_fields:
  assumes "length f = 128" "buf = request_options LE f ts"
  shows "same_outside option_bytes buf f" "buf ! 101 = ucast (server_sends ts)" "buf ! 102 = ucast (no_server_endpoint ts)"
    "buf ! 108 = outformat ts" "f ! 93 = 0 \<Longrightarrow> buf ! 93 = tos ts"
proof -
  show "same_outside option_bytes buf f"
    unfolding assms(2) request_options_def Let_def using assms(1)
    by (intro same_outside_intros same_outside_memcpy) (auto simp: option_bytes_def)
qed (use assms(1) in \<open>simp_all add: assms(2) request_options_def Let_def buf_simps nth_list_update host_bytes_def le_bytes_first\<close>)

lemma request_frames:
  assumes "same_outside field_bytes f h" "same_outside option_bytes buf f" "length h = 128"
  shows "length f = 128" "length buf = 128"
    "i + l \<le> 93 \<or> (94 \<le> i \<and> i + l \<le> 101) \<or> (112 \<le> i \<and> i + l \<le> 128) \<Longrightarrow> slice i l buf = slice i l f"
    "(8 \<le> i \<and> i + l \<le> 24) \<or> (101 \<le> i \<and> i + l \<le> 128) \<Longrightarrow> slice i l f = slice i l h"
    "i < 93 \<or> i = 100 \<Longrightarrow> buf ! i = f ! i" "i < 4 \<or> i = 92 \<or> i = 93 \<Longrightarrow> f ! i = h ! i"
proof -
  show len: "length f = 128" "length buf = 128" using assms by (simp_all add: same_outside_def)
  show "i + l \<le> 93 \<or> (94 \<le> i \<and> i + l \<le> 101) \<or> (112 \<le> i \<and> i + l \<le> 128) \<Longrightarrow> slice i l buf = slice i l f"
    by (intro same_outside_slice [OF assms(2)]) (auto simp: option_bytes_def len)
  show "(8 \<le> i \<and> i + l \<le> 24) \<or> (101 \<le> i \<and> i + l \<le> 128) \<Longrightarrow> slice i l f = slice i l h"
    by (intro same_outside_slice [OF assms(1)]) (auto simp: field_bytes_def assms(3))
  show "i < 93 \<or> i = 100 \<Longrightarrow> buf ! i = f ! i"
    by (intro same_outside_nth [OF assms(2)]) (auto simp: option_bytes_def len)
  show "i < 4 \<or> i = 92 \<or> i = 93 \<Longrightarrow> f ! i = h ! i"
    by (intro same_outside_nth [OF assms(1)]) (auto simp: field_bytes_def assms(3))
qed

lemma request_buffer:
  assumes "length m = 128" "length est = 2" "length cl = n" "length sv = n" "n \<le> 16" "length (sid t) = 16" "k \<le> 8"
    and h: "h = request_head m k ver t" and f: "f = request_fields h est cl sv t" and buf: "buf = request_options LE f (test_spec t)"
  shows "length buf = 128" "buf ! 0 = 1" "buf ! 1 = ver AND 0xF" "(buf ! 2 \<noteq> 0) = conf_client t" "(buf ! 3 \<noteq> 0) = conf_server t"
    "slice 8 8 buf = BWLEncodeTimeStamp (req_time (test_spec t))" "slice 16 8 buf = encode_time (latest_time (test_spec t))"
    "slice 24 2 buf = est" "slice 26 2 buf = be_bytes 2 (unat (tool_port t))" "slice 28 n buf = cl" "slice 44 n buf = sv"
    "slice 60 16 buf = sid t" "slice 96 4 buf = be_bytes 4 (unat (tool_id (test_spec t)))"
    "slice 4 4 buf = be_bytes 4 (unat (duration (test_spec t)))"
    "buf ! 100 = ucast (verbose (test_spec t))" "buf ! 101 = ucast (server_sends (test_spec t))"
    "buf ! 102 = ucast (no_server_endpoint (test_spec t))" "buf ! 108 = outformat (test_spec t)"
    "k = 8 \<Longrightarrow> slice 112 16 buf = zero16" "k = 8 \<Longrightarrow> buf ! 92 = 0" "k = 8 \<Longrightarrow> buf ! 93 = tos (test_spec t)"
proof -
  note head = request_head_fields [OF assms(1,7), of ver t, folded h]
  note fields = request_fields_fields [OF head(1) assms(2-6) f]
  have lf: "length f = 128" using fields(1) head(1) by (simp add: same_outside_def)
  note options = request_options_fields [OF lf buf]
  note frame = request_frames [OF fields(1) options(1) head(1)]
  show "length buf = 128" "buf ! 0 = 1" "buf ! 1 = ver AND 0xF" "(buf ! 2 \<noteq> 0) = conf_client t" "(buf ! 3 \<noteq> 0) = conf_server t"
    "slice 8 8 buf = BWLEncodeTimeStamp (req_time (test_spec t))" "slice 16 8 buf = encode_time (latest_time (test_spec t))"
    "slice 24 2 buf = est" "slice 26 2 buf = be_bytes 2 (unat (tool_port t))" "slice 28 n buf = cl" "slice 44 n buf = sv"
    "slice 60 16 buf = sid t" "slice 96 4 buf = be_bytes 4 (unat (tool_id (test_spec t)))"
    "slice 4 4 buf = be_bytes 4 (unat (duration (test_spec t)))"
    "buf ! 100 = ucast (verbose (test_spec t))" "buf ! 101 = ucast (server_sends (test_spec t))"
    "buf ! 102 = ucast (no_server_endpoint (test_spec t))" "buf ! 108 = outformat (test_spec t)"
    "k = 8 \<Longrightarrow> slice 112 16 buf = zero16" "k = 8 \<Longrightarrow> buf ! 92 = 0" "k = 8 \<Longrightarrow> buf ! 93 = tos (test_spec t)"
    using assms(5) head(2-) fields(2-) options(2-) by (simp_all add: frame del: One_nat_def)
qed


section \<open>A request and its reader\<close>

fun same_family :: "sockaddr \<Rightarrow> sockaddr \<Rightarrow> bool" where
  "same_family (AF_INET a) (AF_INET b) \<longleftrightarrow> length a = 4 \<and> length b = 4"
| "same_family (AF_INET6 a) (AF_INET6 b) \<longleftrightarrow> length a = 16 \<and> length b = 16"
| "same_family _ _ \<longleftrightarrow> False"

text \<open>The session the server makes of a request: the flags are bytes on the wire.\<close>

definition flag :: "u32 \<Rightarrow> u32" where
  "flag w = ucast (ucast w :: u8)"

definition common_spec :: "BWLTestSpec \<Rightarrow> BWLTestSpec" where
  "common_spec ts = zero_spec\<lparr>req_time := req_time ts, latest_time := latest_time ts, tool_id := tool_id ts,
     duration := duration ts, verbose := flag (verbose ts), tos := tos ts, server_sends := flag (server_sends ts),
     no_server_endpoint := flag (no_server_endpoint ts), outformat := outformat ts\<rparr>"

definition requested :: "request_params \<Rightarrow> BWLTestSession \<Rightarrow> BWLTestSession" where
  "requested k t = \<lparr>sid = sid t, localtime = no_time, reserve_time = 0, fuzz = 0,
     tool_port = if conf_client t then tool_port t else 0, local_tool_port = 0,
     conf_client = conf_client t, conf_server = conf_server t,
     test_spec = (arrived k (test_spec t) (common_spec (test_spec t)))
       \<lparr>client := client (test_spec t), server := server (test_spec t)\<rparr>,
     localfp = None, remotefp = None, closure = None\<rparr>"

definition knows_tool :: "BWLContext \<Rightarrow> u32 \<Rightarrow> request_params \<Rightarrow> bool" where
  "knows_tool ctx i k \<longleftrightarrow> (\<exists>tl. find_tool (tool_list ctx) i = Some tl \<and> parse_request tl = Some k)"

definition wf_request :: "BWLTestSession \<Rightarrow> bool" where
  "wf_request t \<longleftrightarrow> same_family (client (test_spec t)) (server (test_spec t)) \<and> length (sid t) = 16 \<and>
     valid_timestamp (req_time (test_spec t)) \<and> conf_client t \<noteq> conf_server t"

lemma same_family_version:
  assumes "same_family a b"
  obtains ver cl sv n where "addr_version a b = Some (ver, cl, sv)" "length cl = n" "length sv = n" "n \<le> 16"
    "ver AND 0xF = ver" "drop_bit 4 ver = 0"
    "\<forall>buf. buf ! 1 AND 0xF = ver \<longrightarrow> slice 28 n buf = cl \<longrightarrow> slice 44 n buf = sv \<longrightarrow> read_addrs buf = Some (a, b)"
  using assms by (cases "(a, b)" rule: addr_version.cases) (auto simp: read_addrs_def)

text \<open>The message a client composes, and what the server's functions find in it.\<close>

lemma request_composed:
  assumes "wf_request t" "knows_tool ctx (tool_id (test_spec t)) k" "knows_tool ctx' (tool_id (test_spec t)) k"
    and "tool_id (test_spec t) AND (tool_id (test_spec t) - 1) = 0"
    and "BWL_MODE_PROTOCOL_MSS_VERSION \<le> v" "length m = 128"
  obtains ver cl sv est buf0 buf where "addr_version (client (test_spec t)) (server (test_spec t)) = Some (ver, cl, sv)"
    "BWLEncodeTimeStampErrEstimate (req_time (test_spec t)) = Some est"
    "buf0 = request_options LE (request_fields (request_head m 8 ver t) est cl sv t) (test_spec t)"
    "BWLToolUnparseRequestParameters (tool_id (test_spec t)) ctx buf0 (test_spec t) v t = (BWLErrOK, buf)"
    "length buf = 128" "buf ! 0 = 1" "slice 112 16 buf = zero16"
    "BWLDecodeTimeStampErrEstimate (BWLDecodeTimeStamp (req_time zero_spec) (slice 8 8 buf)) (slice 24 2 buf) = (req_time (test_spec t), True)"
    "decode_time (slice 16 8 buf) = latest_time (test_spec t)" "get_net16 buf 26 = tool_port t"
    "new_request ctx' True buf v (tool_port t) (zero_spec\<lparr>req_time := req_time (test_spec t), latest_time := latest_time (test_spec t)\<rparr>)
       = Inr (requested k t)"
proof -
  let ?ts = "test_spec t"
  have wf: "same_family (client ?ts) (server ?ts)" "length (sid t) = 16" "valid_timestamp (req_time ?ts)" "conf_client t \<noteq> conf_server t"
    using assms(1) by (simp_all add: wf_request_def)
  obtain ver cl sv n where addr: "addr_version (client ?ts) (server ?ts) = Some (ver, cl, sv)" "length cl = n" "length sv = n" "n \<le> 16"
    "ver AND 0xF = ver" "drop_bit 4 ver = 0"
    "\<forall>buf. buf ! 1 AND 0xF = ver \<longrightarrow> slice 28 n buf = cl \<longrightarrow> slice 44 n buf = sv \<longrightarrow> read_addrs buf = Some (client ?ts, server ?ts)"
    by (rule same_family_version [OF wf(1)]) (rule that; assumption)
  obtain est where est: "BWLEncodeTimeStampErrEstimate (req_time ?ts) = Some est" "length est = 2"
      "BWLDecodeTimeStampErrEstimate (BWLDecodeTimeStamp (req_time zero_spec) (BWLEncodeTimeStamp (req_time ?ts))) est = (req_time ?ts, True)"
    using valid_timestamp_wire [OF wf(3)] by blast
  define buf0 where "buf0 = request_options LE (request_fields (request_head m 8 ver t) est cl sv t) ?ts"
  have k8: "(8 :: nat) \<le> 8" by simp
  note b0 = request_buffer [OF assms(6) est(2) addr(2-4) wf(2) k8 refl refl buf0_def]
  have hi: "drop_bit 4 (buf0 ! 1) = 0" using b0(3) addr(5,6) by (simp del: One_nat_def)
  obtain buf where buf: "unparse_request k buf0 ?ts v t = (BWLErrOK, buf)" "same_outside param_bytes buf buf0"
    "buf ! 1 AND 0xF = buf0 ! 1 AND 0xF" "slice 4 4 buf = be_bytes 4 (unat (duration ?ts))"
    "slice 96 4 buf = be_bytes 4 (unat (tool_id ?ts))"
    "\<forall>s. verbose s = ucast (buf0 ! 100) \<longrightarrow> parse_params k buf s v = arrived k ?ts s"
    by (rule unparse_delivered [OF b0(1) assms(5) hi b0(20) [OF refl] b0(14,13)]) (rule that; assumption)
  have sl: "slice i l buf = slice i l buf0" if "8 \<le> i \<and> i + l \<le> 76 \<or> 112 \<le> i \<and> i + l \<le> 128" for i l
    using that by (intro same_outside_slice [OF buf(2)]) (auto simp: param_bytes_def throughput_bytes_def b0(1))
  have nth: "buf ! i = buf0 ! i" if "i \<in> {0, 2, 3, 93, 100, 101, 102, 108}" for i
    using that by (intro same_outside_nth [OF buf(2)]) (auto simp: param_bytes_def throughput_bytes_def b0(1))
  have words: "get_net16 buf 26 = tool_port t" "get_net32 buf 96 = tool_id ?ts" "get_net32 buf 4 = duration ?ts"
    using buf(4,5) b0(9) sl [of 26 2] by (auto intro: get_of_slice)
  have addrs: "read_addrs buf = Some (client ?ts, server ?ts)"
    using addr(4,5) buf(3) b0(3,10,11) sl [of 28 n] sl [of 44 n] by (intro addr(7) [rule_format]) (auto simp: and.assoc)
  have found: "BWLToolParseRequestParameters (tool_id ?ts) ctx' buf (read_spec buf v (zero_spec\<lparr>req_time := req_time ?ts,
      latest_time := latest_time ?ts, tool_id := tool_id ?ts\<rparr>)) v = Some (arrived k ?ts (common_spec ?ts))"
  proof -
    have "read_spec buf v (zero_spec\<lparr>req_time := req_time ?ts, latest_time := latest_time ?ts, tool_id := tool_id ?ts\<rparr>) = common_spec ?ts"
      using b0(15-18,21) by (simp add: read_spec_def common_spec_def flag_def version_reached [OF assms(5)] nth words)
    moreover have "verbose (common_spec ?ts) = ucast (buf0 ! 100)" by (simp add: common_spec_def flag_def b0(15))
    ultimately show ?thesis using assms(3) buf(6) by (auto simp: BWLToolParseRequestParameters_def knows_tool_def)
  qed
  show ?thesis
  proof (rule that [OF addr(1) est(1) buf0_def])
    show "BWLToolUnparseRequestParameters (tool_id ?ts) ctx buf0 ?ts v t = (BWLErrOK, buf)"
      using assms(2) buf(1) by (auto simp: BWLToolUnparseRequestParameters_def knows_tool_def)
    show "length buf = 128" using buf(2) b0(1) by (simp add: same_outside_def)
    show "new_request ctx' True buf v (tool_port t) (zero_spec\<lparr>req_time := req_time ?ts, latest_time := latest_time ?ts\<rparr>) = Inr (requested k t)"
      using wf(4) assms(4) b0(4,5,12) addrs found
      by (simp add: new_request_def Let_def nth sl words version_reached [OF assms(5)] BWLTestSessionAlloc_def requested_def)
  qed (use b0 est words in \<open>simp_all add: nth sl\<close>)
qed

lemma test_request_delivered:
  assumes "linked c s" "sock_out c = []" "may_request c" "awaits_request s" "\<not> BWLStateIs BWLStateTest s"
    and "protocol_version c = v" "protocol_version s = v" "BWL_MODE_PROTOCOL_MSS_VERSION \<le> v"
    and "wf_request t" "knows_tool ctx (tool_id (test_spec t)) k" "knows_tool ctx' (tool_id (test_spec t)) k"
    and "tool_id (test_spec t) AND (tool_id (test_spec t) - 1) = 0"
  shows "\<exists>c1 s1 s2. BWLWriteTestRequest LE ctx c t = (BWLErrOK, c1) \<and>
    BWLReadRequestType (arrive c1 rest s) = (BWLReqTest, s1) \<and>
    BWLReadTestRequest ctx' True s1 None = (BWLErrOK, Some BWL_CNTRL_ACCEPT, Some (requested k t), s2) \<and>
    cstate c1 = cstate c OR BWLStateTestAccept \<and> cstate s2 = cstate s OR BWLStateTestAccept \<and>
    sock_in s2 = rest \<and> linked c1 s2 \<and> (linked s c \<longrightarrow> linked s2 c1) \<and> tests s1 = tests s \<and>
    tests s2 = tests s \<and> tests c1 = tests c \<and> sock_out s2 = sock_out s"
proof -
  let ?ts = "test_spec t"
  have len: "length (msg c) = 128" "length (msg s) = 128" using linked_length [OF assms(1)] by simp_all
  obtain ver cl sv est buf0 buf where addr: "addr_version (client ?ts) (server ?ts) = Some (ver, cl, sv)"
    and est: "BWLEncodeTimeStampErrEstimate (req_time ?ts) = Some est"
    and buf0: "buf0 = request_options LE (request_fields (request_head (msg c) 8 ver t) est cl sv t) ?ts"
    and un: "BWLToolUnparseRequestParameters (tool_id ?ts) ctx buf0 ?ts v t = (BWLErrOK, buf)"
    and buf: "length buf = 128" "buf ! 0 = 1" "slice 112 16 buf = zero16"
    and times: "BWLDecodeTimeStampErrEstimate (BWLDecodeTimeStamp (req_time zero_spec) (slice 8 8 buf)) (slice 24 2 buf) = (req_time ?ts, True)"
    "decode_time (slice 16 8 buf) = latest_time ?ts" and port: "get_net16 buf 26 = tool_port t"
    and new: "new_request ctx' True buf v (tool_port t) (zero_spec\<lparr>req_time := req_time ?ts, latest_time := latest_time ?ts\<rparr>)
       = Inr (requested k t)"
    by (rule request_composed [OF assms(9-12,8) len(1)]) (rule that; assumption)
  let ?a = "c\<lparr>msg := buf\<rparr>"
  have l: "linked ?a s" by (rule linked_msg(1) [OF assms(1) buf(1)])
  have seven: "(7 :: nat) \<le> 7" by simp
  have kind: "request_kind (msg ?a ! 0) BWLReqTest BWLStateTestRequest" using buf(2) by simp
  have test: "BWLStateIs BWLStateTest s \<longleftrightarrow> BWLReqTest = BWLReqStopSession" using assms(5) by simp
  obtain w iv m iv' where
    send: "BWLSendBlocksIntr ?a (Suc 7) = (int (Suc 7), ?a\<lparr>writeIV := iv, msg := m, sock_out := sock_out ?a @ w\<rparr>)" "length m = 128"
    and recv: "\<forall>rest. \<exists>b1. BWLReadRequestType (s\<lparr>sock_in := w @ rest\<rparr>) = (BWLReqTest, b1) \<and>
       cstate b1 = cstate s OR BWLStateTestRequest \<and> tests b1 = tests s \<and> protocol_version b1 = protocol_version s \<and>
       BWLReceiveBlocksIntr b1 16 7 =
         (int 7, s\<lparr>msg := memcpy (msg s) 0 (take (16 * Suc 7) (msg ?a)), sock_in := rest, readIV := iv',
                   cstate := cstate s OR BWLStateTestRequest\<rparr>)"
    and l': "linked (?a\<lparr>writeIV := iv\<rparr>) (s\<lparr>readIV := iv'\<rparr>)"
    by (rule request_delivered [OF l seven assms(4) kind test]) (rule that; assumption)
  obtain s1 where rd: "BWLReadRequestType (s\<lparr>sock_in := w @ rest\<rparr>) = (BWLReqTest, s1)"
      "cstate s1 = cstate s OR BWLStateTestRequest" "protocol_version s1 = v" "tests s1 = tests s"
    and rcv: "BWLReceiveBlocksIntr s1 16 7 = (int 7, s\<lparr>msg := memcpy (msg s) 0 (take (16 * Suc 7) buf), sock_in := rest, readIV := iv',
                 cstate := cstate s OR BWLStateTestRequest\<rparr>)"
    using recv assms(7) by auto
  have whole: "memcpy (msg s) 0 (take (16 * Suc 7) buf) = buf" using buf(1) len by (simp add: memcpy_def)
  have blocks: "request_blocks v = 8" using version_reached [OF assms(8)] by (simp add: request_blocks_def)
  let ?c1 = "c\<lparr>writeIV := iv, msg := m, sock_out := w, cstate := cstate c OR BWLStateTestAccept\<rparr>"
  let ?st = "(cstate s OR BWLStateTestRequest) AND NOT BWLStateTestRequest OR BWLStateTestAccept"
  let ?s2 = "s\<lparr>msg := buf, sock_in := rest, readIV := iv', cstate := ?st\<rparr>"
  have "BWLWriteTestRequest LE ctx c t = (BWLErrOK, ?c1)"
    using assms(2,3,6) version_reached [OF assms(8)] addr est un send(1)
    by (simp add: BWLWriteTestRequest_def blocks may_request_def BWLSendBlocks_def or_state_def buf0 Let_def)
  moreover have "BWLReadRequestType (arrive ?c1 rest s) = (BWLReqTest, s1)" using rd(1) by (simp add: arrive_def)
  moreover have "BWLReadTestRequest ctx' True s1 None = (BWLErrOK, Some BWL_CNTRL_ACCEPT, Some (requested k t), ?s2)"
    using rd(2,3) rcv whole buf times port new
    by (simp add: BWLReadTestRequest_def bits blocks Let_def state_upd)
  moreover have "?st = cstate s OR BWLStateTestAccept"
    using assms(4) by (auto intro!: bit_word_eqI simp: bits awaits_request_def)
  moreover have "linked ?c1 ?s2" "linked s c \<longrightarrow> linked ?s2 ?c1" using l' len buf(1) send(2) by (auto simp: linked_def)
  ultimately show ?thesis using rd(4) by (intro exI [of _ ?c1] exI [of _ s1] exI [of _ ?s2]) simp
qed

text \<open>
  C33. A test request between ends of the current protocol version, on a little-endian client: the server
  recognises the request and makes of it the session the client asked for, with the times, addresses,
  identifier and every parameter of the tool's kind; flags arrive as bytes and the bandwidth rounded down.
  Both ends then expect the answer, and stay in step.
\<close>

theorem test_request_roundtrip:
  assumes "linked c s" "sock_out c = []" "may_request c" "awaits_request s" "\<not> BWLStateIs BWLStateTest s"
    and "protocol_version c = v" "protocol_version s = v" "BWL_MODE_PROTOCOL_MSS_VERSION \<le> v"
    and "wf_request t" "knows_tool ctx (tool_id (test_spec t)) k" "knows_tool ctx' (tool_id (test_spec t)) k"
    and "tool_id (test_spec t) AND (tool_id (test_spec t) - 1) = 0"
  shows "\<exists>c1 s1 s2. BWLWriteTestRequest LE ctx c t = (BWLErrOK, c1) \<and>
    BWLReadRequestType (arrive c1 rest s) = (BWLReqTest, s1) \<and>
    BWLReadTestRequest ctx' True s1 None = (BWLErrOK, Some BWL_CNTRL_ACCEPT, Some (requested k t), s2) \<and>
    cstate c1 = cstate c OR BWLStateTestAccept \<and> cstate s2 = cstate s OR BWLStateTestAccept \<and>
    sock_in s2 = rest \<and> linked c1 s2"
  using test_request_delivered [OF assms, of rest] by blast

definition sample_request :: BWLTestSession where
  "sample_request = sample_session\<lparr>conf_server := False, test_spec := (test_spec sample_session)
     \<lparr>client := AF_INET [10, 0, 0, 1], server := AF_INET [10, 0, 0, 2], tool_id := BWL_TOOL_IPERF, bandwidth := 0x300000001\<rparr>\<rparr>"

definition sample_ctx :: BWLContext where
  "sample_ctx = \<lparr>tool_list = [(BWL_TOOL_IPERF, BWLToolIperf)], tool_avail = 1, port_ranges = Map.empty, config = Map.empty\<rparr>"

definition sample_peer :: "u32 \<Rightarrow> BWLControl" where
  "sample_peer v = (sample_end 4 None)\<lparr>protocol_version := v\<rparr>"

lemma linked_version [simp]:
  "linked (a\<lparr>protocol_version := v\<rparr>) b = linked a b" "linked a (b\<lparr>protocol_version := v\<rparr>) = linked a b"
  by (simp_all add: linked_def)

lemma sample_peer_linked: "linked (sample_peer v) (sample_peer v')"
  by (simp add: sample_peer_def sample_linked)

lemma sample_peer_fields [simp]:
  "cstate (sample_peer v) = 4" "sock_out (sample_peer v) = []" "protocol_version (sample_peer v) = v"
  by (simp_all add: sample_peer_def)

lemma sample_request_ok:
  "wf_request sample_request" "knows_tool sample_ctx (tool_id (test_spec sample_request)) ThroughputParams"
  "tool_id (test_spec sample_request) AND (tool_id (test_spec sample_request) - 1) = 0"
  by (simp_all add: wf_request_def sample_request_def sample_session_def valid_timestamp_def knows_tool_def sample_ctx_def
      BWLToolIperf_def BWL_TOOL_IPERF_def)

theorem test_request_roundtrip_witness:
  "\<exists>c1 s1 s2. BWLWriteTestRequest LE sample_ctx (sample_peer BWL_MODE_PROTOCOL_MSS_VERSION) sample_request = (BWLErrOK, c1) \<and>
    BWLReadRequestType (arrive c1 [] (sample_peer BWL_MODE_PROTOCOL_MSS_VERSION)) = (BWLReqTest, s1) \<and>
    BWLReadTestRequest sample_ctx True s1 None =
      (BWLErrOK, Some BWL_CNTRL_ACCEPT, Some (requested ThroughputParams sample_request), s2) \<and>
    cstate c1 = cstate (sample_peer BWL_MODE_PROTOCOL_MSS_VERSION) OR BWLStateTestAccept \<and>
    cstate s2 = cstate (sample_peer BWL_MODE_PROTOCOL_MSS_VERSION) OR BWLStateTestAccept \<and> sock_in s2 = [] \<and> linked c1 s2"
  by (rule test_request_roundtrip [OF sample_peer_linked _ _ _ _ _ _ order_refl sample_request_ok(1,2,2,3)])
    (simp_all add: sample_simps)

section \<open>Bandwidth\<close>

lemma scale_bandwidth_spec:
  "scale_bandwidth b e0 = (m, e) \<Longrightarrow> \<exists>n. e = e0 + of_nat n \<and> unat m = unat b div 2 ^ n \<and> unat m < 2 ^ 32 \<and> (0 < n \<longrightarrow> 2 ^ 31 \<le> unat m)"
proof (induction b e0 arbitrary: m e rule: scale_bandwidth.induct)
  case (1 b e0)
  have top: "(b > 0xFFFFFFFF) = (2 ^ 32 \<le> unat b)" by (simp add: unat_less_iff) linarith
  show ?case
  proof (cases "b > 0xFFFFFFFF")
    case False
    with 1(2) have "m = b" "e = e0" by (simp_all add: scale_bandwidth.simps [of b])
    then show ?thesis using False top by (intro exI [of _ 0]) simp
  next
    case True
    then have "scale_bandwidth (drop_bit 1 b) (e0 + 1) = (m, e)" using 1(2) by (simp add: scale_bandwidth.simps [of b])
    from 1(1) [OF True this] obtain n where n: "e = e0 + 1 + of_nat n" "unat m = unat (drop_bit 1 b) div 2 ^ n" "unat m < 2 ^ 32"
        "0 < n \<longrightarrow> 2 ^ 31 \<le> unat m" by blast
    have half: "unat (drop_bit 1 b) = unat b div 2" by (simp add: drop_bit_Suc unat_div)
    have "2 ^ 31 \<le> unat m" if "n = 0" using that n(2) half True top by simp
    then show ?thesis using n half
      by (intro exI [of _ "Suc n"]) (auto simp: div_mult2_eq add.assoc)
  qed
qed

lemma scale_bandwidth_start:
  assumes "scale_bandwidth b 0 = (m, e)"
  shows "unat m = unat b div 2 ^ unat e \<and> unat m < 2 ^ 32 \<and> unat e \<le> 32 \<and> (0 < unat e \<longrightarrow> 2 ^ 31 \<le> unat m)"
proof -
  obtain n where n: "e = of_nat n" "unat m = unat b div 2 ^ n" "unat m < 2 ^ 32" "0 < n \<longrightarrow> 2 ^ 31 \<le> unat m"
    using scale_bandwidth_spec [OF assms] by (metis add.left_neutral)
  have "n \<le> 32"
  proof (rule ccontr)
    assume "\<not> n \<le> 32"
    then have big: "33 \<le> n" by simp
    with n have "2 ^ 31 \<le> unat b div 2 ^ n" by simp
    then have "2 ^ 31 * 2 ^ n \<le> unat b" by (simp add: less_eq_div_iff_mult_less_eq)
    moreover have "(2 :: nat) ^ 31 * 2 ^ 33 \<le> 2 ^ 31 * 2 ^ n" using big by (intro mult_le_mono2 power_increasing) simp_all
    ultimately show False using unat_bound [of b] by simp
  qed
  then have "unat e = n" using n(1) by (simp add: unat_of_nat)
  then show ?thesis using n \<open>n \<le> 32\<close> by simp
qed

text \<open>
  C34. The bandwidth a request carries: never more than asked for, exact below four gigabits per second, and
  otherwise short by less than one part in two to the 31; the exponent is at most 32, so the
  receiver's shift is defined.
\<close>

theorem bandwidth_error_bounded:
  "unat (sent_bandwidth b) \<le> unat b \<and> (unat b < 2 ^ 32 \<longrightarrow> sent_bandwidth b = b) \<and>
   (unat b - unat (sent_bandwidth b)) * 2 ^ 31 \<le> unat b \<and> unat (snd (scale_bandwidth b 0)) \<le> 32"
proof -
  obtain m e where me: "scale_bandwidth b 0 = (m, e)" by fastforce
  define n where "n = unat e"
  have m: "unat m = unat b div 2 ^ n" "unat m < 2 ^ 32" "n \<le> 32" "0 < n \<longrightarrow> 2 ^ 31 \<le> unat m"
    using scale_bandwidth_start [OF me] unfolding n_def by blast+
  have "unat (ucast (ucast (m AND 0xFFFFFFFF) :: u32) :: u64) = unat m"
    using m(2) by (simp add: unat_ucast32 unat_ucast_low unat_MASK32 MASK32_def [symmetric])
  then have "ucast (ucast (m AND 0xFFFFFFFF) :: u32) = m" by (rule word_unat_eq_iff [THEN iffD2])
  then have sent: "sent_bandwidth b = push_bit n m" by (simp add: sent_bandwidth_def me n_def)
  have below: "unat b div 2 ^ n * 2 ^ n \<le> unat b" by simp
  have fits: "unat b div 2 ^ n * 2 ^ n < 2 ^ 64" by (rule le_less_trans [OF below]) (use unat_bound [of b] in simp)
  have sent_nat: "unat (sent_bandwidth b) = unat b div 2 ^ n * 2 ^ n"
    using fits m(1) by (subst sent, subst unat_push_bit_noov) simp_all
  have "(unat b mod 2 ^ n) * 2 ^ 31 \<le> unat b"
  proof (cases "n = 0")
    case False
    have "(unat b mod 2 ^ n) * 2 ^ 31 \<le> 2 ^ n * unat m" using False m(4) by (intro mult_le_mono) simp_all
    also have "\<dots> \<le> unat b" unfolding m(1) mult.commute [of "2 ^ n"] by (rule below)
    finally show ?thesis .
  qed simp
  moreover have "unat b - unat b div 2 ^ n * 2 ^ n = unat b mod 2 ^ n" by (simp add: minus_div_mult_eq_mod)
  moreover have "n = 0" if "unat b < 2 ^ 32"
  proof (rule ccontr)
    assume "n \<noteq> 0"
    then have "unat m \<le> unat b div 2" using m(1) power_increasing [of 1 n "2 :: nat"]
      by (simp add: div_le_mono2)
    then show False using that m(4) \<open>n \<noteq> 0\<close> by simp
  qed
  ultimately show ?thesis using sent_nat below m(3) me by (auto simp: n_def word_unat_eq_iff)
qed


theorem bandwidth_error_bounded_witness:
  "sent_bandwidth 0x12345678 = 0x12345678 \<and> unat (sent_bandwidth 0x300000001) \<le> unat (0x300000001 :: u64) \<and>
   (unat (0x300000001 :: u64) - unat (sent_bandwidth 0x300000001)) * 2 ^ 31 \<le> unat (0x300000001 :: u64) \<and>
   unat (snd (scale_bandwidth 0x300000001 0)) \<le> 32"
proof -
  have small: "unat (0x12345678 :: u64) < 2 ^ 32" by simp
  show ?thesis
    using bandwidth_error_bounded [of "0x12345678"] small bandwidth_error_bounded [of "0x300000001"] by blast
qed

section \<open>Peers without tool negotiation\<close>

lemma be_nat_zero: "be_nat (replicate n 0) = 0"
proof -
  have "le_nat (replicate n 0) = 0" by (induction n) simp_all
  then show ?thesis by (simp add: be_nat_def)
qed

lemma slice_zero_prefix: "slice 96 16 buf = zero16 \<Longrightarrow> slice 96 4 buf = replicate 4 0"
proof -
  assume "slice 96 16 buf = zero16"
  then have "take 4 (slice 96 16 buf) = take 4 zero16" by simp
  then show ?thesis by (simp add: slice_def zero16_def)
qed

lemma legacy_params_frame:
  assumes "BWLToolUnparseRequestParameters i ctx buf0 ts v t = (BWLErrOK, buf)" "length buf0 = 128"
    and "v < BWL_MODE_PROTOCOL_TESTER_NEGOTIATION_VERSION"
  shows "same_outside ({1} \<union> {4..<8} \<union> {76..<96}) buf buf0"
proof -
  have v: "\<not> BWL_MODE_PROTOCOL_TESTER_NEGOTIATION_VERSION \<le> v" "\<not> BWL_MODE_PROTOCOL_OMIT_VERSION \<le> v"
      "\<not> BWL_MODE_PROTOCOL_MSS_VERSION \<le> v" "\<not> BWL_MODE_PROTOCOL_1_5_VERSION \<le> v"
    using assms(3) by (auto simp: not_le BWL_MODE_PROTOCOL_MSS_VERSION_def BWL_MODE_PROTOCOL_TESTER_NEGOTIATION_VERSION_def
        BWL_MODE_PROTOCOL_OMIT_VERSION_def BWL_MODE_PROTOCOL_1_5_VERSION_def intro: less_trans)
  obtain k where k: "buf = buf0 \<or> unparse_request k buf0 ts v t = (BWLErrOK, buf)"
    using assms(1) by (auto simp: BWLToolUnparseRequestParameters_def split: option.splits)
  show ?thesis
  proof (cases "buf = buf0")
    case True then show ?thesis by (simp add: same_outside_intros)
  next
    case False
    then have u: "unparse_request k buf0 ts v t = (BWLErrOK, buf)" using k by simp
    obtain m e where me: "scale_bandwidth (bandwidth ts) 0 = (m, e)" by fastforce
    show ?thesis
    proof (cases k)
      case ThroughputParams
      let ?b1 = "if udp ts \<noteq> 0 then buf0[1 := buf0 ! 1 OR 0x10] else buf0"
      let ?b2 = "put_net32 (put_net32 (put_net32 (put_net32 ?b1 76 (ucast (m AND 0xFFFFFFFF))) 80 (len_buffer ts)) 84 (window_size ts))
        88 (ucast (report_interval ts div 1000))"
      have "buf = (if dynamic_window_size ts \<noteq> 0 then ?b2[92 := ?b2 ! 92 OR BWL_DYNAMIC_WINDOW_SIZE] else ?b2)"
        using u ThroughputParams v me
        by (simp add: BWLGenericUnparseThroughputParameters_def Let_def split: if_splits)
      then show ?thesis by (simp only:) (intro same_outside_intros; auto simp: assms(2))
    next
      case TracerouteParams
      with u show ?thesis
        by (auto simp: BWLGenericUnparseTracerouteParameters_def Let_def assms(2) split: if_splits intro!: same_outside_intros)
    next
      case PingParams
      with u show ?thesis
        by (auto simp: BWLGenericUnparsePingParameters_def Let_def assms(2) split: if_splits intro!: same_outside_intros)
    qed
  qed
qed

text \<open>
  C35. A client and a server that do not speak tool negotiation: whatever the client manages to send, the server
  rejects, because the client writes the tool into the block that has to be zero in the short form of
  the message. The connection is invalid afterwards.
\<close>

theorem legacy_request_rejected:
  assumes "linked c s" "sock_out c = []" "awaits_request s" "\<not> BWLStateIs BWLStateTest s"
    and "protocol_version c = v" "protocol_version s = v" "v < BWL_MODE_PROTOCOL_TESTER_NEGOTIATION_VERSION"
    and "tool_id (test_spec t) \<noteq> 0" "wf_request t" "BWLWriteTestRequest LE ctx c t = (BWLErrOK, c1)"
  shows "\<exists>s1 s2. BWLReadRequestType (arrive c1 rest s) = (BWLReqTest, s1) \<and>
    BWLReadTestRequest ctx' alloc s1 ts = (BWLErrFATAL, Some BWL_CNTRL_INVALID, ts, s2) \<and> cstate s2 = BWLStateInvalid"
proof -
  let ?ts = "test_spec t"
  have len: "length (msg c) = 128" "length (msg s) = 128" using linked_length [OF assms(1)] by simp_all
  have blocks: "request_blocks v = 7" using assms(7) by (simp add: request_blocks_def)
  have wf: "same_family (client ?ts) (server ?ts)" "length (sid t) = 16" "valid_timestamp (req_time ?ts)"
    using assms(9) by (simp_all add: wf_request_def)
  obtain ver cl sv n where addr: "addr_version (client ?ts) (server ?ts) = Some (ver, cl, sv)" "length cl = n" "length sv = n" "n \<le> 16"
    by (rule same_family_version [OF wf(1)]) (rule that; assumption)
  obtain est where est: "BWLEncodeTimeStampErrEstimate (req_time ?ts) = Some est" "length est = 2"
    using valid_timestamp_wire [OF wf(3)] by blast
  define buf0 where "buf0 = request_options LE (request_fields (request_head (msg c) 7 ver t) est cl sv t) ?ts"
  have k7: "(7 :: nat) \<le> 8" by simp
  note b0 = request_buffer [OF len(1) est(2) addr(2-4) wf(2) k7 refl refl buf0_def]
  obtain buf where un: "BWLToolUnparseRequestParameters (tool_id ?ts) ctx buf0 ?ts v t = (BWLErrOK, buf)"
    and sent: "(let (n, c) = BWLSendBlocks (c\<lparr>msg := buf\<rparr>) 7
       in if n \<noteq> int 7 then (BWLErrFATAL, set_state BWLStateInvalid c) else (BWLErrOK, or_state BWLStateTestAccept c)) = (BWLErrOK, c1)"
    using assms(10) addr(1) est(1) blocks assms(5)
    by (auto simp: BWLWriteTestRequest_def Let_def buf0_def split: if_splits prod.splits)
  note frame = legacy_params_frame [OF un b0(1) assms(7)]
  have lb: "length buf = 128" using frame b0(1) by (simp add: same_outside_def)
  have first: "buf ! 0 = 1" using same_outside_nth [OF frame, of 0] b0(1,2) by simp
  have "slice 96 4 buf = slice 96 4 buf0" by (rule same_outside_slice [OF frame]) (auto simp: b0(1))
  then have tool: "slice 96 4 buf = be_bytes 4 (unat (tool_id ?ts))" using b0(13) by simp
  let ?a = "c\<lparr>msg := buf\<rparr>" and ?m = "memcpy (msg s) 0 (take 112 buf)"
  have pad: "slice 96 16 ?m \<noteq> zero16"
  proof
    assume "slice 96 16 ?m = zero16"
    then have "slice 96 16 buf = zero16" using len(2) lb by (simp add: slice_take_copy)
    then have "slice 96 4 buf = replicate 4 0" by (metis slice_zero_prefix)
    then have "unat (tool_id ?ts) mod 256 ^ 4 = 0" using tool be_nat_be_bytes [of 4 "unat (tool_id ?ts)"] 
      by (simp add: be_nat_zero)
    then show False using assms(8) unat_bound [of "tool_id ?ts"] by (simp add: unat_eq_0)
  qed
  have l: "linked ?a s" by (rule linked_msg(1) [OF assms(1) lb])
  have six: "(6 :: nat) \<le> 7" by simp
  have kind: "request_kind (msg ?a ! 0) BWLReqTest BWLStateTestRequest" using first by simp
  have test: "BWLStateIs BWLStateTest s \<longleftrightarrow> BWLReqTest = BWLReqStopSession" using assms(4) by simp
  obtain w iv m iv' where
    send: "BWLSendBlocksIntr ?a (Suc 6) = (int (Suc 6), ?a\<lparr>writeIV := iv, msg := m, sock_out := sock_out ?a @ w\<rparr>)"
    and recv: "\<forall>rest. \<exists>b1. BWLReadRequestType (s\<lparr>sock_in := w @ rest\<rparr>) = (BWLReqTest, b1) \<and>
       cstate b1 = cstate s OR BWLStateTestRequest \<and> tests b1 = tests s \<and> protocol_version b1 = protocol_version s \<and>
       BWLReceiveBlocksIntr b1 16 6 =
         (int 6, s\<lparr>msg := memcpy (msg s) 0 (take (16 * Suc 6) (msg ?a)), sock_in := rest, readIV := iv',
                   cstate := cstate s OR BWLStateTestRequest\<rparr>)"
    by (rule request_delivered [OF l six assms(3) kind test]) (rule that; assumption)
  obtain s1 where rd: "BWLReadRequestType (s\<lparr>sock_in := w @ rest\<rparr>) = (BWLReqTest, s1)"
      "cstate s1 = cstate s OR BWLStateTestRequest" "protocol_version s1 = v"
    and rcv: "BWLReceiveBlocksIntr s1 16 6 = (6, s\<lparr>msg := ?m, sock_in := rest, readIV := iv', cstate := cstate s OR BWLStateTestRequest\<rparr>)"
    using recv assms(6) by auto
  have "sock_out c1 = w" using sent send assms(2) by (auto simp: BWLSendBlocks_def or_state_def)
  then have "BWLReadRequestType (arrive c1 rest s) = (BWLReqTest, s1)" using rd(1) by (simp add: arrive_def)
  moreover have "BWLReadTestRequest ctx' alloc s1 ts = request_error BWLErrFATAL BWL_CNTRL_INVALID ts
      (s\<lparr>msg := ?m, sock_in := rest, readIV := iv', cstate := cstate s OR BWLStateTestRequest\<rparr>)"
    using rd(2,3) rcv pad by (simp add: BWLReadTestRequest_def bits blocks Let_def)
  ultimately show ?thesis by (simp add: request_error_def less_BWLErrSeverity_def)
qed

definition sample_legacy :: BWLTestSession where
  "sample_legacy = sample_request\<lparr>conf_client := False, conf_server := True,
     test_spec := (test_spec sample_request)\<lparr>bandwidth := 0\<rparr>\<rparr>"

lemma sample_legacy_ok: "wf_request sample_legacy" "tool_id (test_spec sample_legacy) \<noteq> 0"
  using sample_request_ok(1) by (simp_all add: sample_legacy_def wf_request_def sample_request_def BWL_TOOL_IPERF_def)

lemma legacy_zero: "0 < BWL_MODE_PROTOCOL_TESTER_NEGOTIATION_VERSION"
  by (simp add: BWL_MODE_PROTOCOL_TESTER_NEGOTIATION_VERSION_def unat_less_iff)

lemma sample_legacy_written: "\<exists>c1. BWLWriteTestRequest LE sample_ctx (sample_peer 0) sample_legacy = (BWLErrOK, c1)"
proof -
  let ?c = "sample_peer 0" and ?ts = "test_spec sample_legacy"
  have scale: "scale_bandwidth 0 0 = (0, 0)" by (simp add: scale_bandwidth.simps)
  have ver: "\<not> BWL_MODE_PROTOCOL_TESTER_NEGOTIATION_VERSION \<le> 0" "\<not> BWL_MODE_PROTOCOL_OMIT_VERSION \<le> 0"
      "\<not> BWL_MODE_PROTOCOL_MSS_VERSION \<le> 0" "\<not> BWL_MODE_PROTOCOL_1_5_VERSION \<le> 0"
    by (simp_all add: BWL_MODE_PROTOCOL_TESTER_NEGOTIATION_VERSION_def BWL_MODE_PROTOCOL_OMIT_VERSION_def
        BWL_MODE_PROTOCOL_MSS_VERSION_def BWL_MODE_PROTOCOL_1_5_VERSION_def)
  have spec: "bandwidth ?ts = 0" "parallel_streams ?ts = 0" "units ?ts = 0" "mss ?ts = 0" "omit ?ts = 0" "outformat ?ts = 0"
      "server_sends ?ts = 0" "tool_id ?ts = BWL_TOOL_IPERF"
    by (simp_all add: sample_legacy_def sample_request_def sample_session_def)
  have wf: "same_family (client ?ts) (server ?ts)" "valid_timestamp (req_time ?ts)"
    using sample_legacy_ok by (simp_all add: wf_request_def)
  obtain v cl sv where addr: "addr_version (client ?ts) (server ?ts) = Some (v, cl, sv)"
    by (rule same_family_version [OF wf(1)]) (rule that; assumption)
  obtain est where est: "BWLEncodeTimeStampErrEstimate (req_time ?ts) = Some est"
    using valid_timestamp_wire [OF wf(2)] by blast
  define buf0 where "buf0 = request_options LE (request_fields (request_head (msg ?c) 7 v sample_legacy) est cl sv sample_legacy) ?ts"
  have "\<exists>buf. BWLToolUnparseRequestParameters (tool_id ?ts) sample_ctx buf0 ?ts 0 sample_legacy = (BWLErrOK, buf)"
    by (simp add: BWLToolUnparseRequestParameters_def sample_ctx_def spec BWLToolIperf_def
        BWLGenericUnparseThroughputParameters_def Let_def scale ver)
  then obtain buf where un: "BWLToolUnparseRequestParameters (tool_id ?ts) sample_ctx buf0 ?ts 0 sample_legacy = (BWLErrOK, buf)" by blast
  have "fst (BWLSendBlocks (?c\<lparr>msg := buf\<rparr>) 7) = 7"
    by (simp add: BWLSendBlocks_def BWLSendBlocksIntr_def Let_def I2Writeni_def BWLEncryptBlocks_def sample_peer_def sample_end_def
        BWLMakeKey_def BWLControlAlloc_def split: prod.splits)
  then obtain c2 where "BWLSendBlocks (?c\<lparr>msg := buf\<rparr>) 7 = (7, c2)" by (metis prod.collapse)
  then show ?thesis
    using un addr est ver spec
    by (auto simp: BWLWriteTestRequest_def request_blocks_def Let_def buf0_def [symmetric] BWLStateIs_def BWLStateRequest_def
        BWLStateUptime_def BWLStateSetup_def sample_simps split: prod.splits)
qed

theorem legacy_request_rejected_witness:
  "\<exists>c1 s1 s2. BWLWriteTestRequest LE sample_ctx (sample_peer 0) sample_legacy = (BWLErrOK, c1) \<and>
    BWLReadRequestType (arrive c1 [] (sample_peer 0)) = (BWLReqTest, s1) \<and>
    BWLReadTestRequest sample_ctx True s1 None = (BWLErrFATAL, Some BWL_CNTRL_INVALID, None, s2) \<and> cstate s2 = BWLStateInvalid"
proof -
  obtain c1 where c1: "BWLWriteTestRequest LE sample_ctx (sample_peer 0) sample_legacy = (BWLErrOK, c1)"
    using sample_legacy_written by blast
  have "\<exists>s1 s2. BWLReadRequestType (arrive c1 [] (sample_peer 0)) = (BWLReqTest, s1) \<and>
    BWLReadTestRequest sample_ctx True s1 None = (BWLErrFATAL, Some BWL_CNTRL_INVALID, None, s2) \<and> cstate s2 = BWLStateInvalid"
    by (rule legacy_request_rejected [OF sample_peer_linked _ _ _ _ _ legacy_zero sample_legacy_ok(2,1) c1])
      (simp_all add: sample_simps)
  with c1 show ?thesis by blast
qed

end
