(* ===== verification/Timeslots.thy ===== *)
theory Timeslots
  imports Tools PolicyTree
begin

text \<open>
  The test scheduler of \<open>bwctld/bwctld.c\<close> (\<open>TimeSlotAddReservation\<close> to
  \<open>ChldReservationComplete\<close>). The daemon keeps a list of disjoint time slots at second
  granularity; a granted reservation occupies every slot its window overlaps.

  The \<open>TAILQ\<close> of slots is a list in queue order. The walk of \<open>ChldReservationDemand\<close> over it is
  \<open>find_slot\<close>, whose first argument holds the slots already passed; the pointers \<open>first_slot\<close>
  and \<open>last_slot\<close> of the code are the ends of the list of overlapped slots that
  \<open>extend_overlap\<close> returns. \<open>time_t\<close> is \<open>int\<close>; the \<open>BWLNum64\<close> fields of a reservation wrap as
  in C. What \<open>BWLGetTimeStamp\<close> answered is the argument \<open>currtime\<close>. Allocation failures and
  the two logging functions (\<open>DisplayReservationStatus\<close>, \<open>DisplayTimeSlots\<close>) are left out.
\<close>

section \<open>Slots and reservations (bwctldP.h)\<close>

datatype time_slot_types = SLOT_ANY | SLOT_BANDWIDTH | SLOT_LATENCY

record TimeSlot =
  slot_type :: time_slot_types
  slot_start :: int
  slot_end :: int
  num_reservations :: int
  max_reservations :: int

type_synonym BWLSID = "u8 list"

record Reservation =
  r_tool :: u32
  r_sid :: BWLSID
  r_restime :: BWLNum64
  r_start :: BWLNum64
  r_end :: BWLNum64
  r_fuzz :: BWLNum64
  r_sender :: string
  r_receiver :: string
  r_duration :: u32
  r_toolport :: u16

record ChldState =
  ch_pid :: int
  ch_fd :: int
  ch_node :: "nat option"
  ch_res :: "Reservation option"

section \<open>Operations on one slot\<close>

definition TimeSlotAddReservation :: "BWLContext \<Rightarrow> TimeSlot \<Rightarrow> Reservation \<Rightarrow> TimeSlot" where
  "TimeSlotAddReservation ctx slot res =
    (let test_type = BWLToolGetTestTypesByID ctx (r_tool res);
         slot1 = (if test_type = BWL_TEST_THROUGHPUT then slot\<lparr>slot_type := SLOT_BANDWIDTH\<rparr>
                  else if test_type = BWL_TEST_LATENCY then slot\<lparr>slot_type := SLOT_LATENCY\<rparr>
                  else slot)
     in slot1\<lparr>num_reservations := num_reservations slot + 1\<rparr>)"

definition TimeSlotCreate :: "BWLContext \<Rightarrow> Reservation \<Rightarrow> int \<Rightarrow> int \<Rightarrow> TimeSlot" where
  "TimeSlotCreate ctx res s e =
    TimeSlotAddReservation ctx
      \<lparr>slot_type = SLOT_ANY, slot_start = s, slot_end = e,
       num_reservations = 0, max_reservations = 30\<rparr> res"

text \<open>
  \<open>TimeSlotSplit\<close> cuts a slot in two at \<open>time\<close> and returns both parts. The second is calloc'ed
  and its \<open>type\<close> never assigned, so it is \<open>SLOT_ANY\<close> whatever the type of the first.
\<close>

definition TimeSlotSplit :: "TimeSlot \<Rightarrow> int \<Rightarrow> TimeSlot \<times> TimeSlot" where
  "TimeSlotSplit slot time =
    (slot\<lparr>slot_end := time - 1\<rparr>,
     \<lparr>slot_type = SLOT_ANY, slot_start = time, slot_end = slot_end slot,
      num_reservations = num_reservations slot, max_reservations = max_reservations slot\<rparr>)"

text \<open>The window of a reservation in whole seconds.\<close>

definition res_first :: "Reservation \<Rightarrow> int" where
  "res_first res = BWLNum64ToTimestamp (r_start res)"

definition res_last :: "Reservation \<Rightarrow> int" where
  "res_last res = BWLNum64ToTimestamp (r_end res) + 1"

definition TimeSlotHasReservation :: "TimeSlot \<Rightarrow> Reservation \<Rightarrow> bool" where
  "TimeSlotHasReservation slot res =
    (if slot_start slot - res_last res > 0 then False
     else if slot_end slot - res_first res < 0 then False else True)"

definition TimeSlotRemoveReservation :: "TimeSlot \<Rightarrow> TimeSlot" where
  "TimeSlotRemoveReservation slot = slot\<lparr>num_reservations := num_reservations slot - 1\<rparr>"

definition ReservationCanUseSlot :: "BWLContext \<Rightarrow> Reservation \<Rightarrow> TimeSlot \<Rightarrow> bool" where
  "ReservationCanUseSlot ctx res slot =
    (let test_type = BWLToolGetTestTypesByID ctx (r_tool res) in
     if test_type = BWL_TEST_THROUGHPUT \<and>
        (slot_type slot = SLOT_BANDWIDTH \<or> slot_type slot = SLOT_LATENCY) then False
     else if test_type \<noteq> BWL_TEST_THROUGHPUT \<and> test_type = BWL_TEST_LATENCY \<and>
        slot_type slot = SLOT_BANDWIDTH then False
     else if num_reservations slot = max_reservations slot then False
     else True)"

section \<open>Removing and allocating reservations\<close>

fun ResRemove :: "TimeSlot list \<Rightarrow> Reservation \<Rightarrow> TimeSlot list" where
  "ResRemove [] res = []"
| "ResRemove (slot # rest) res =
    (if \<not> TimeSlotHasReservation slot res then slot # ResRemove rest res
     else let slot' = TimeSlotRemoveReservation slot in
       if num_reservations slot' = 0 then ResRemove rest res else slot' # ResRemove rest res)"

definition DeleteReservation :: "TimeSlot list \<Rightarrow> ChldState \<Rightarrow> TimeSlot list \<times> ChldState" where
  "DeleteReservation slots cstate =
    (case ch_res cstate of None \<Rightarrow> (slots, cstate)
     | Some res \<Rightarrow> (ResRemove slots res, cstate\<lparr>ch_res := None\<rparr>))"

text \<open>
  \<open>AllocReservation\<close>: the outer option is the call returning at all (the port search of a tool
  may loop), the inner one its success.
\<close>

definition AllocReservation ::
  "u16 option \<Rightarrow> BWLContext \<Rightarrow> ChldState \<Rightarrow> BWLSID \<Rightarrow> u32 \<Rightarrow> u16 \<Rightarrow> string \<Rightarrow> string \<Rightarrow>
   (Reservation \<times> BWLContext) option option" where
  "AllocReservation rnd ctx cstate sid tool toolport sender receiver =
    (if ch_res cstate \<noteq> None then Some None
     else case BWLToolInitTest rnd ctx tool toolport of
       None \<Rightarrow> Some None
     | Some None \<Rightarrow> None
     | Some (Some (port, ctx')) \<Rightarrow> Some (Some
        (\<lparr>r_tool = tool, r_sid = take 16 sid, r_restime = 0, r_start = 0, r_end = 0, r_fuzz = 0,
          r_sender = sender, r_receiver = receiver, r_duration = 0, r_toolport = port\<rparr>, ctx')))"

section \<open>Looking for an open slot\<close>

definition too_late :: "BWLNum64 \<Rightarrow> BWLNum64 \<Rightarrow> bool" where
  "too_late ltime t = (ltime \<noteq> 0 \<and> BWLNum64Cmp t ltime > 0)"

text \<open>The three assignments that derive \<open>restime\<close> and \<open>end\<close> from \<open>start\<close>.\<close>

definition set_start :: "BWLNum64 \<Rightarrow> BWLNum64 \<Rightarrow> Reservation \<Rightarrow> Reservation" where
  "set_start dtime s res =
    res\<lparr>r_start := s, r_restime := BWLNum64Add s (r_fuzz res),
        r_end := BWLNum64Add (BWLNum64Add s (r_fuzz res)) dtime\<rparr>"

definition fixup_end :: "BWLNum64 \<Rightarrow> Reservation \<Rightarrow> Reservation" where
  "fixup_end dtime res =
    (if BWLNum64Cmp (r_end res) (r_start res) \<le> 0 then set_start dtime (r_start res) res else res)"

definition skip_past :: "BWLNum64 \<Rightarrow> TimeSlot \<Rightarrow> Reservation \<Rightarrow> Reservation" where
  "skip_past dtime slot res = set_start dtime (BWLTimestampToNum64 (slot_end slot + 1)) res"

text \<open>
  The inner \<open>while\<close>: from \<open>last\<close> on, collect the slots the reservation still overlaps. \<open>Inl\<close> is
  the conflicting slot; \<open>Inr\<close> the overlapped slots after \<open>last\<close> and what follows them.
\<close>

fun extend_overlap ::
  "BWLContext \<Rightarrow> Reservation \<Rightarrow> TimeSlot \<Rightarrow> TimeSlot list \<Rightarrow> TimeSlot + (TimeSlot list \<times> TimeSlot list)" where
  "extend_overlap ctx res last_slot [] = Inr ([], [])"
| "extend_overlap ctx res last_slot (next_slot # rest) =
    (if slot_end last_slot - res_last res \<le> 0 then
       if res_last res - slot_start next_slot < 0 then Inr ([], next_slot # rest)
       else if \<not> ReservationCanUseSlot ctx res next_slot then Inl next_slot
       else (case extend_overlap ctx res next_slot rest of
           Inl c \<Rightarrow> Inl c
         | Inr (ov, post) \<Rightarrow> Inr (next_slot # ov, post))
     else Inr ([], next_slot # rest))"

text \<open>Splitting at, or filling up to, the two ends of the window.\<close>

definition cut_first ::
  "BWLContext \<Rightarrow> Reservation \<Rightarrow> TimeSlot list \<Rightarrow> TimeSlot list \<times> TimeSlot list" where
  "cut_first ctx res ov =
    (let first_slot = hd ov in
     if slot_start first_slot - res_first res < 0 then
       (let (a, b) = TimeSlotSplit first_slot (res_first res) in ([a], b # tl ov))
     else if res_first res - slot_start first_slot < 0 then
       ([TimeSlotCreate ctx res (res_first res) (slot_start first_slot - 1)], ov)
     else ([], ov))"

definition cut_last ::
  "BWLContext \<Rightarrow> Reservation \<Rightarrow> TimeSlot list \<Rightarrow> TimeSlot list \<times> TimeSlot list" where
  "cut_last ctx res ov =
    (let last_slot = last ov in
     if res_last res - slot_end last_slot < 0 then
       (let (a, b) = TimeSlotSplit last_slot (res_last res + 1) in (butlast ov @ [a], [b]))
     else if slot_end last_slot - res_last res < 0 then
       (ov, [TimeSlotCreate ctx res (slot_end last_slot + 1) (res_last res)])
     else (ov, []))"

definition occupy :: "BWLContext \<Rightarrow> Reservation \<Rightarrow> TimeSlot list \<Rightarrow> TimeSlot list" where
  "occupy ctx res ov =
    (let (before, ov1) = cut_first ctx res ov; (ov2, after) = cut_last ctx res ov1
     in before @ map (\<lambda>s. TimeSlotAddReservation ctx s res) ov2 @ after)"

datatype search = Denied Reservation | Added "TimeSlot list" Reservation | NotAdded Reservation

fun find_slot ::
  "BWLContext \<Rightarrow> BWLNum64 \<Rightarrow> BWLNum64 \<Rightarrow> TimeSlot list \<Rightarrow> TimeSlot option \<Rightarrow> TimeSlot list \<Rightarrow>
   Reservation \<Rightarrow> search" where
  "find_slot ctx dtime ltime pre prev_slot [] res = NotAdded res"
| "find_slot ctx dtime ltime pre prev_slot (slot # rest) res0 =
    (let res = fixup_end dtime res0 in
     if too_late ltime (r_restime res) then Denied res
     else if slot_end slot - res_first res < 0 then
       find_slot ctx dtime ltime (pre @ [slot]) (Some slot) rest res
     else if (case prev_slot of None \<Rightarrow> True | Some p \<Rightarrow> slot_end p - res_first res < 0) \<and>
          res_last res - slot_start slot < 0 then
       Added (pre @ TimeSlotCreate ctx res (res_first res) (res_last res) # slot # rest) res
     else if \<not> ReservationCanUseSlot ctx res slot then
       find_slot ctx dtime ltime (pre @ [slot]) (Some slot) rest (skip_past dtime slot res)
     else (case extend_overlap ctx res slot rest of
         Inl c \<Rightarrow> find_slot ctx dtime ltime (pre @ [slot]) prev_slot rest (skip_past dtime c res)
       | Inr (ov, post) \<Rightarrow> Added (pre @ occupy ctx res (slot # ov) @ post) res))"

section \<open>The request handlers\<close>

record demand_reply =
  reply_ok :: bool
  reply_err :: bool
  reply_restime :: BWLNum64
  reply_toolport :: u16

text \<open>
  \<open>initial_reservation\<close>: the fields of the reservation before the search, from the earliest
  time the daemon accepts. \<open>latest_start\<close>: the latest one, with the event horizon applied.
\<close>

definition minstart :: "BWLNum64 \<Rightarrow> BWLNum64 \<Rightarrow> BWLNum64 \<Rightarrow> BWLNum64" where
  "minstart now ftime rtttime =
    BWLNum64Add now (BWLNum64Add ftime (BWLNum64Mult rtttime (BWLULongToNum64 2)))"

definition initial_start :: "BWLNum64 \<Rightarrow> BWLNum64 \<Rightarrow> BWLNum64 \<Rightarrow> BWLNum64 \<Rightarrow> BWLNum64" where
  "initial_start now rtime ftime rtttime =
    (if BWLNum64Cmp (BWLNum64Sub rtime ftime) (minstart now ftime rtttime) < 0
     then BWLNum64Add (minstart now ftime rtttime) (BWLULongToNum64 1)
     else BWLNum64Sub rtime ftime)"

definition initial_reservation ::
  "BWLNum64 \<Rightarrow> BWLNum64 \<Rightarrow> BWLNum64 \<Rightarrow> BWLNum64 \<Rightarrow> u32 \<Rightarrow> Reservation \<Rightarrow> Reservation" where
  "initial_reservation now rtime ftime rtttime dur res =
    (let s = initial_start now rtime ftime rtttime in
     res\<lparr>r_start := s, r_restime := BWLNum64Add s ftime,
       r_end := BWLNum64Add (BWLNum64Add s ftime) (BWLNum64Add (BWLULongToNum64 dur) ftime),
       r_fuzz := ftime, r_duration := dur\<rparr>)"

definition latest_start :: "BWLNum64 \<Rightarrow> I2numT \<Rightarrow> BWLNum64 \<Rightarrow> BWLNum64" where
  "latest_start now hsecs ltime =
    (if hsecs \<noteq> 0 then BWLNum64Min ltime (BWLNum64Add now (BWLI2numTToNum64 hsecs)) else ltime)"

text \<open>From \<open>Open slot too late\<close> to the end: \<open>None\<close> is the label \<open>denied\<close>.\<close>

definition place_reservation ::
  "BWLContext \<Rightarrow> BWLNum64 \<Rightarrow> BWLNum64 \<Rightarrow> TimeSlot list \<Rightarrow> Reservation \<Rightarrow>
   Reservation \<times> TimeSlot list option" where
  "place_reservation ctx dtime ltime slots res =
    (if too_late ltime (r_restime res) then (res, None)
     else case find_slot ctx dtime ltime [] None slots res of
       Denied res' \<Rightarrow> (res', None)
     | Added slots' res' \<Rightarrow> (res', Some slots')
     | NotAdded res' \<Rightarrow>
         if too_late ltime (r_restime res') then (res', None)
         else (res', Some (slots @ [TimeSlotCreate ctx res' (res_first res') (res_last res')])))"

text \<open>
  The comparison \<open>memcmp(sid, cstate->res->sid, sizeof(sid))\<close> of the two handlers takes the size
  of a pointer: it looks at the first eight bytes only.
\<close>

definition same_sid :: "BWLSID \<Rightarrow> BWLSID \<Rightarrow> bool" where
  "same_sid a b = (take 8 a = take 8 b)"

type_synonym sched = "BWLContext \<times> TimeSlot list \<times> ChldState"

definition demand_search ::
  "BWLContext \<Rightarrow> TimeSlot list \<Rightarrow> ChldState \<Rightarrow> Reservation \<Rightarrow> BWLNum64 \<Rightarrow> BWLNum64 \<Rightarrow> BWLNum64 \<Rightarrow>
   BWLNum64 \<Rightarrow> u32 \<Rightarrow> BWLNum64 \<Rightarrow> demand_reply \<times> sched" where
  "demand_search ctx slots cstate res now rtime ftime ltime dur rtttime =
    (case place_reservation ctx (BWLNum64Add (BWLULongToNum64 dur) ftime) ltime slots
        (initial_reservation now rtime ftime rtttime dur res) of
       (res', Some slots') \<Rightarrow>
         (\<lparr>reply_ok = True, reply_err = True, reply_restime = r_restime res',
           reply_toolport = r_toolport res'\<rparr>, ctx, slots', cstate\<lparr>ch_res := Some res'\<rparr>)
     | (res', None) \<Rightarrow>
         (case DeleteReservation slots (cstate\<lparr>ch_res := Some res'\<rparr>) of (slots', cstate') \<Rightarrow>
           (\<lparr>reply_ok = False, reply_err = False, reply_restime = r_restime res',
             reply_toolport = r_toolport res'\<rparr>, ctx, slots', cstate')))"

record reservation_query =
  q_sid :: BWLSID
  q_rtime :: BWLNum64
  q_ftime :: BWLNum64
  q_ltime :: BWLNum64
  q_duration :: u32
  q_rtttime :: BWLNum64
  q_toolport :: u16
  q_tool :: u32
  q_sender :: string
  q_receiver :: string

definition ChldReservationDemand ::
  "u16 option \<Rightarrow> nodes \<Rightarrow> BWLTimeStamp option \<Rightarrow> sched \<Rightarrow> reservation_query \<Rightarrow> BWLNum64 \<Rightarrow>
   (demand_reply \<times> sched) option" where
  "ChldReservationDemand rnd ns currtime s q restime =
    (case s of (ctx, slots, cstate) \<Rightarrow>
     let failed = \<lparr>reply_ok = False, reply_err = True, reply_restime = restime,
           reply_toolport = q_toolport q\<rparr> in
     case BWLDGetFixedLimit ns (the (ch_node cstate)) BWLDLimEventHorizon of
       None \<Rightarrow> Some (failed, s)
     | Some hsecs \<Rightarrow>
       (case (case ch_res cstate of
           Some res \<Rightarrow> if \<not> same_sid (q_sid q) (r_sid res) then Some (Inl s)
             else Some (Inr (res\<lparr>r_toolport := q_toolport q\<rparr>, ctx, ResRemove slots res))
         | None \<Rightarrow> (case AllocReservation rnd ctx cstate (q_sid q) (q_tool q) (q_toolport q)
               (q_sender q) (q_receiver q) of
             None \<Rightarrow> None
           | Some None \<Rightarrow> Some (Inl s)
           | Some (Some (res, ctx')) \<Rightarrow> Some (Inr (res, ctx', slots)))) of
          None \<Rightarrow> None
        | Some (Inl s') \<Rightarrow> Some (failed, s')
        | Some (Inr (res, ctx', slots')) \<Rightarrow>
          (case currtime of
             None \<Rightarrow> Some (failed\<lparr>reply_toolport := r_toolport res\<rparr>, ctx', slots', cstate\<lparr>ch_res := None\<rparr>)
           | Some now \<Rightarrow> Some (demand_search ctx' slots' cstate res (tstamp now) (q_rtime q) (q_ftime q)
               (latest_start (tstamp now) hsecs (q_ltime q)) (q_duration q) (q_rtttime q)))))"

definition ChldReservationComplete :: "TimeSlot list \<Rightarrow> ChldState \<Rightarrow> BWLSID \<Rightarrow> bool \<times> TimeSlot list \<times> ChldState" where
  "ChldReservationComplete slots cstate sid =
    (case ch_res cstate of None \<Rightarrow> (False, slots, cstate)
     | Some res \<Rightarrow> if \<not> same_sid sid (r_sid res) then (False, slots, cstate)
         else (True, DeleteReservation slots cstate))"

section \<open>Well-formed slot lists and what they book\<close>

definition slot_ok :: "TimeSlot \<Rightarrow> bool" where
  "slot_ok s = (slot_start s \<le> slot_end s \<and> 1 \<le> num_reservations s \<and> num_reservations s \<le> max_reservations s)"

definition slots_ok :: "TimeSlot list \<Rightarrow> bool" where
  "slots_ok xs = (sorted_wrt (\<lambda>a b. slot_end a < slot_start b) xs \<and> (\<forall>s \<in> set xs. slot_ok s))"

definition covers :: "TimeSlot \<Rightarrow> int \<Rightarrow> bool" where
  "covers s t = (slot_start s \<le> t \<and> t \<le> slot_end s)"

text \<open>How many reservations a list of slots holds at second \<open>t\<close>.\<close>

definition booked :: "TimeSlot list \<Rightarrow> int \<Rightarrow> int" where
  "booked xs t = sum_list (map (\<lambda>s. if covers s t then num_reservations s else 0) xs)"

lemma slots_ok_simps [simp]:
  "slots_ok []"
  "slots_ok (s # xs) = (slot_ok s \<and> (\<forall>y \<in> set xs. slot_end s < slot_start y) \<and> slots_ok xs)"
  "slots_ok (xs @ ys) = (slots_ok xs \<and> slots_ok ys \<and> (\<forall>x \<in> set xs. \<forall>y \<in> set ys. slot_end x < slot_start y))"
  by (auto simp: slots_ok_def sorted_wrt_append)

lemma booked_simps [simp]:
  "booked [] t = 0"
  "booked (s # xs) t = (if covers s t then num_reservations s else 0) + booked xs t"
  "booked (xs @ ys) t = booked xs t + booked ys t"
  by (simp_all add: booked_def)

lemma booked_none: "\<forall>s \<in> set xs. \<not> covers s t \<Longrightarrow> booked xs t = 0"
  by (induction xs) auto

lemma booked_nonneg: "slots_ok xs \<Longrightarrow> 0 \<le> booked xs t"
  by (induction xs) (auto simp: slot_ok_def)

lemma booked_pos: "slots_ok xs \<Longrightarrow> (0 < booked xs t) = (\<exists>s \<in> set xs. covers s t)"
proof (induction xs)
  case (Cons s xs)
  then show ?case using booked_nonneg [of xs t] by (auto simp: slot_ok_def)
qed simp

lemma add_fields [simp]:
  "slot_start (TimeSlotAddReservation ctx s res) = slot_start s"
  "slot_end (TimeSlotAddReservation ctx s res) = slot_end s"
  "num_reservations (TimeSlotAddReservation ctx s res) = num_reservations s + 1"
  "max_reservations (TimeSlotAddReservation ctx s res) = max_reservations s"
  by (simp_all add: TimeSlotAddReservation_def Let_def)

lemma create_fields [simp]:
  "slot_start (TimeSlotCreate ctx res a b) = a" "slot_end (TimeSlotCreate ctx res a b) = b"
  "num_reservations (TimeSlotCreate ctx res a b) = 1" "max_reservations (TimeSlotCreate ctx res a b) = 30"
  by (simp_all add: TimeSlotCreate_def)

lemma add_covers [simp]: "covers (TimeSlotAddReservation ctx s res) t = covers s t"
  by (simp add: covers_def)

lemma booked_add:
  assumes "slots_ok xs"
  shows "booked (map (\<lambda>s. TimeSlotAddReservation ctx s res) xs) t =
    booked xs t + (if \<exists>s \<in> set xs. covers s t then 1 else 0)"
  using assms
proof (induction xs)
  case (Cons s xs)
  then show ?case by (auto simp: covers_def slot_ok_def)
qed simp

section \<open>Placing a reservation\<close>

text \<open>What \<open>cut_first\<close> leaves before the window and as the first overlapped slot.\<close>

definition head_left :: "BWLContext \<Rightarrow> Reservation \<Rightarrow> TimeSlot \<Rightarrow> TimeSlot list" where
  "head_left ctx res s =
    (if slot_start s < res_first res then [fst (TimeSlotSplit s (res_first res))]
     else if res_first res < slot_start s
       then [TimeSlotCreate ctx res (res_first res) (slot_start s - 1)] else [])"

definition head_slot :: "Reservation \<Rightarrow> TimeSlot \<Rightarrow> TimeSlot" where
  "head_slot res s = (if slot_start s < res_first res then snd (TimeSlotSplit s (res_first res)) else s)"

definition tail_right :: "BWLContext \<Rightarrow> Reservation \<Rightarrow> TimeSlot \<Rightarrow> TimeSlot list" where
  "tail_right ctx res s =
    (if res_last res < slot_end s then [snd (TimeSlotSplit s (res_last res + 1))]
     else if slot_end s < res_last res
       then [TimeSlotCreate ctx res (slot_end s + 1) (res_last res)] else [])"

definition tail_slot :: "Reservation \<Rightarrow> TimeSlot \<Rightarrow> TimeSlot" where
  "tail_slot res s = (if res_last res < slot_end s then fst (TimeSlotSplit s (res_last res + 1)) else s)"

lemma cut_first_Cons: "cut_first ctx res (s # xs) = (head_left ctx res s, head_slot res s # xs)"
  by (simp add: cut_first_def head_left_def head_slot_def case_prod_beta)

lemma cut_last_snoc: "cut_last ctx res (ys @ [z]) = (ys @ [tail_slot res z], tail_right ctx res z)"
  by (simp add: cut_last_def tail_slot_def tail_right_def case_prod_beta)

lemma occupy_eq:
  assumes "head_slot res s # xs = ys @ [z]"
  shows "occupy ctx res (s # xs) = head_left ctx res s @
    map (\<lambda>s. TimeSlotAddReservation ctx s res) (ys @ [tail_slot res z]) @ tail_right ctx res z"
  using assms by (simp add: occupy_def cut_first_Cons cut_last_snoc)

lemma head_slot_fields [simp]:
  "slot_start (head_slot res s) = max (res_first res) (slot_start s)"
  "slot_end (head_slot res s) = slot_end s"
  "num_reservations (head_slot res s) = num_reservations s"
  "max_reservations (head_slot res s) = max_reservations s"
  by (simp_all add: head_slot_def TimeSlotSplit_def)

lemma tail_slot_fields [simp]:
  "slot_start (tail_slot res s) = slot_start s"
  "slot_end (tail_slot res s) = min (res_last res) (slot_end s)"
  "num_reservations (tail_slot res s) = num_reservations s"
  "max_reservations (tail_slot res s) = max_reservations s"
  by (auto simp: tail_slot_def TimeSlotSplit_def)

lemma tail_right_head_slot [simp]: "tail_right ctx res (head_slot res s) = tail_right ctx res s"
  by (simp add: tail_right_def TimeSlotSplit_def)

text \<open>Up to their types, the occupied slots are the overlapped ones clipped to the window.\<close>

definition clip :: "Reservation \<Rightarrow> TimeSlot \<Rightarrow> TimeSlot" where
  "clip res s = s\<lparr>slot_start := max (res_first res) (slot_start s), slot_end := min (res_last res) (slot_end s)\<rparr>"

definition erase :: "TimeSlot \<Rightarrow> TimeSlot" where
  "erase s = s\<lparr>slot_type := SLOT_ANY\<rparr>"

definition clipped :: "Reservation \<Rightarrow> TimeSlot \<Rightarrow> TimeSlot \<Rightarrow> bool" where
  "clipped res y m = (slot_start m = max (res_first res) (slot_start y) \<and>
     slot_end m = min (res_last res) (slot_end y) \<and> num_reservations m = num_reservations y \<and>
     max_reservations m = max_reservations y)"

lemma erase_eqI:
  "slot_start a = slot_start b \<Longrightarrow> slot_end a = slot_end b \<Longrightarrow> num_reservations a = num_reservations b \<Longrightarrow>
   max_reservations a = max_reservations b \<Longrightarrow> erase a = erase b"
  by (simp add: erase_def)

lemma booked_erase [simp]: "booked (map erase xs) t = booked xs t"
  by (induction xs) (simp_all add: erase_def covers_def)

lemma slots_ok_erase [simp]: "slots_ok (map erase xs) = slots_ok xs"
  by (induction xs) (auto simp: erase_def slot_ok_def)

lemma booked_clip:
  "booked (map (clip res) xs) t = (if res_first res \<le> t \<and> t \<le> res_last res then booked xs t else 0)"
  by (induction xs) (auto simp: clip_def covers_def)

lemma booked_below:
  assumes "slots_ok (s # xs)" and "t < a" and "a \<le> slot_end s"
  shows "booked (s # xs) t = (if slot_start s \<le> t then num_reservations s else 0)"
proof -
  have "booked xs t = 0" using assms by (intro booked_none) (force simp: covers_def)
  then show ?thesis using assms by (simp add: covers_def)
qed

lemma booked_above:
  assumes "slots_ok (xs @ [w])" and "b < t" and "slot_start w \<le> b"
  shows "booked (xs @ [w]) t = (if t \<le> slot_end w then num_reservations w else 0)"
proof -
  have "booked xs t = 0" using assms by (intro booked_none) (force simp: covers_def)
  then show ?thesis using assms by (simp add: covers_def)
qed

lemma head_left_facts:
  assumes "slot_ok s"
  shows "slots_ok (head_left ctx res s)"
    and "\<forall>y \<in> set (head_left ctx res s). slot_end y < max (res_first res) (slot_start s) \<and>
      min (res_first res) (slot_start s) \<le> slot_start y"
    and "booked (head_left ctx res s) t =
      (if slot_start s \<le> t \<and> t < res_first res then num_reservations s
       else if res_first res \<le> t \<and> t < slot_start s then 1 else 0)"
  using assms by (auto simp: head_left_def TimeSlotSplit_def slot_ok_def covers_def)

lemma tail_right_facts:
  assumes "slot_ok s"
  shows "slots_ok (tail_right ctx res s)"
    and "\<forall>y \<in> set (tail_right ctx res s). min (res_last res) (slot_end s) < slot_start y \<and>
      slot_end y \<le> max (res_last res) (slot_end s)"
    and "booked (tail_right ctx res s) t =
      (if res_last res < t \<and> t \<le> slot_end s then num_reservations s
       else if slot_end s < t \<and> t \<le> res_last res then 1 else 0)"
  using assms by (auto simp: tail_right_def TimeSlotSplit_def slot_ok_def covers_def)

text \<open>\<open>occupy\<close> as a whole: what is left of the window, the clipped slots, what is right of it.\<close>

lemma occupy_shape:
  assumes "slots_ok ov" and "ov \<noteq> []" and "res_first res \<le> slot_end (hd ov)"
    and "slot_start (last ov) \<le> res_last res"
  obtains mid where "map erase mid = map (\<lambda>y. erase (clip res y)) ov"
    and "occupy ctx res ov = head_left ctx res (hd ov) @
      map (\<lambda>s. TimeSlotAddReservation ctx s res) mid @ tail_right ctx res (last ov)"
proof -
  obtain s xs where ov: "ov = s # xs" using assms(2) by (cases ov) auto
  show ?thesis
  proof (cases xs rule: rev_cases)
    case Nil
    show ?thesis
      using occupy_eq [of res s xs "[]" "head_slot res s" ctx] ov Nil
      by (intro that [of "[tail_slot res (head_slot res s)]"]) (simp_all add: clip_def erase_eqI)
  next
    case (snoc ws w)
    have "\<forall>y \<in> set ws. max (res_first res) (slot_start y) = slot_start y \<and> min (res_last res) (slot_end y) = slot_end y"
      using assms ov snoc by (fastforce simp: slot_ok_def)
    moreover have "min (res_last res) (slot_end s) = slot_end s" "max (res_first res) (slot_start w) = slot_start w"
      using assms ov snoc by auto
    ultimately show ?thesis
      using occupy_eq [of res s xs "head_slot res s # ws" w ctx] ov snoc
      by (intro that [of "head_slot res s # ws @ [tail_slot res w]"])
        (auto simp: clip_def intro!: erase_eqI)
  qed
qed

lemma erase_fields:
  "erase a = erase b \<Longrightarrow> slot_start a = slot_start b \<and> slot_end a = slot_end b \<and>
     num_reservations a = num_reservations b \<and> max_reservations a = max_reservations b"
  by (cases a; cases b) (simp add: erase_def)

lemma map_erase_mem:
  assumes "map erase xs = map (\<lambda>y. erase (f y)) ys" and "x \<in> set xs"
  obtains y where "y \<in> set ys" and "erase x = erase (f y)"
proof -
  have "erase x \<in> set (map erase xs)" using assms(2) by simp
  then have "erase x \<in> (\<lambda>y. erase (f y)) ` set ys" using assms(1) by simp
  then show ?thesis using that by blast
qed

lemma slots_ok_clip:
  assumes "slots_ok xs" and "\<forall>y \<in> set xs. res_first res \<le> slot_end y \<and> slot_start y \<le> res_last res"
    and "res_first res \<le> res_last res"
  shows "slots_ok (map (clip res) xs)"
  using assms by (induction xs) (auto simp: clip_def slot_ok_def)

lemma slots_ok_add:
  assumes "slots_ok xs" and "\<forall>y \<in> set xs. num_reservations y \<noteq> max_reservations y"
  shows "slots_ok (map (\<lambda>s. TimeSlotAddReservation ctx s res) xs)"
  using assms by (induction xs) (fastforce simp: slot_ok_def)+

text \<open>
  The interface the rest of the proof works with: the parts of an occupied window, with the
  bounds of each part and what each books.
\<close>

lemma occupy_parts:
  assumes ok: "slots_ok ov" and ne: "ov \<noteq> []" and win: "res_first res \<le> res_last res"
    and hits: "\<forall>y \<in> set ov. res_first res \<le> slot_end y \<and> slot_start y \<le> res_last res"
  obtains mid where "occupy ctx res ov = head_left ctx res (hd ov) @
      map (\<lambda>s. TimeSlotAddReservation ctx s res) mid @ tail_right ctx res (last ov)"
    and "slots_ok mid" and "\<And>t. booked mid t = booked (map (clip res) ov) t"
    and "\<forall>m \<in> set mid. \<exists>y \<in> set ov. clipped res y m"
proof -
  have "hd ov \<in> set ov" "last ov \<in> set ov" using ne by simp_all
  with hits obtain mid where m: "map erase mid = map (\<lambda>y. erase (clip res y)) ov"
    and o: "occupy ctx res ov = head_left ctx res (hd ov) @
      map (\<lambda>s. TimeSlotAddReservation ctx s res) mid @ tail_right ctx res (last ov)"
    using occupy_shape [OF ok ne, of res ctx] by blast
  have m': "map erase mid = map erase (map (clip res) ov)" using m by simp
  show ?thesis
  proof (rule that [OF o])
    have "slots_ok (map erase mid)" unfolding m' using slots_ok_clip [OF ok hits win] by (simp only: slots_ok_erase)
    then show "slots_ok mid" by simp
    show "booked mid t = booked (map (clip res) ov) t" for t
      using arg_cong [OF m', of "\<lambda>l. booked l t"] by (simp only: booked_erase)
    show "\<forall>m \<in> set mid. \<exists>y \<in> set ov. clipped res y m"
    proof
      fix x assume "x \<in> set mid"
      with m obtain y where y: "y \<in> set ov" "erase x = erase (clip res y)" by (rule map_erase_mem)
      show "\<exists>y \<in> set ov. clipped res y x"
        using erase_fields [OF y(2)] by (intro bexI [OF _ y(1)]) (simp add: clip_def clipped_def)
    qed
  qed
qed

lemma slots_order_hd: "slots_ok ov \<Longrightarrow> y \<in> set ov \<Longrightarrow> slot_start (hd ov) \<le> slot_start y"
  by (cases ov) (auto simp: slot_ok_def intro: order_trans less_imp_le)

lemma slots_order_last: "slots_ok ov \<Longrightarrow> y \<in> set ov \<Longrightarrow> slot_end y \<le> slot_end (last ov)"
  by (cases ov rule: rev_cases) (force simp: slot_ok_def)+

lemma occupy_ok:
  assumes "slots_ok ov" and "ov \<noteq> []" and "res_first res \<le> res_last res"
    and "\<forall>y \<in> set ov. res_first res \<le> slot_end y \<and> slot_start y \<le> res_last res \<and>
      num_reservations y \<noteq> max_reservations y"
  shows "slots_ok (occupy ctx res ov) \<and> (\<forall>y \<in> set (occupy ctx res ov).
    min (res_first res) (slot_start (hd ov)) \<le> slot_start y \<and>
    slot_end y \<le> max (res_last res) (slot_end (last ov)))"
proof -
  have hits: "\<forall>y \<in> set ov. res_first res \<le> slot_end y \<and> slot_start y \<le> res_last res"
    using assms(4) by blast
  obtain mid where o: "occupy ctx res ov = head_left ctx res (hd ov) @
      map (\<lambda>s. TimeSlotAddReservation ctx s res) mid @ tail_right ctx res (last ov)"
    and ok: "slots_ok mid"
    and m: "\<forall>m \<in> set mid. \<exists>y \<in> set ov. clipped res y m"
    using occupy_parts [OF assms(1-3) hits] by metis
  have ends: "hd ov \<in> set ov" "last ov \<in> set ov" using assms(2) by simp_all
  then have so: "slot_ok (hd ov)" "slot_ok (last ov)" using assms(1) by (auto simp: slots_ok_def)
  note L = head_left_facts [OF so(1), of ctx res] and R = tail_right_facts [OF so(2), of ctx res]
  have mid: "max (res_first res) (slot_start (hd ov)) \<le> slot_start x \<and>
      slot_end x \<le> min (res_last res) (slot_end (last ov)) \<and> slot_start x \<le> slot_end x \<and>
      num_reservations x \<noteq> max_reservations x" if x: "x \<in> set mid" for x
  proof -
    obtain y where "y \<in> set ov" "clipped res y x" using m x by blast
    then have y: "y \<in> set ov" "slot_start x = max (res_first res) (slot_start y)"
      "slot_end x = min (res_last res) (slot_end y)" "num_reservations x = num_reservations y"
      "max_reservations x = max_reservations y" by (simp_all add: clipped_def)
    have "slot_start x \<le> slot_end x" using ok x by (simp add: slots_ok_def slot_ok_def)
    moreover have "num_reservations y \<noteq> max_reservations y" using assms(4) y(1) by blast
    moreover have "max (res_first res) (slot_start (hd ov)) \<le> slot_start x"
      unfolding y(2) by (intro max.mono order_refl slots_order_hd [OF assms(1) y(1)])
    moreover have "slot_end x \<le> min (res_last res) (slot_end (last ov))"
      unfolding y(3) by (intro min.mono order_refl slots_order_last [OF assms(1) y(1)])
    ultimately show ?thesis by (simp only: y(4,5)) simp
  qed
  have LR: "max (res_first res) (slot_start (hd ov)) \<le> min (res_last res) (slot_end (last ov))"
    using ends hits assms(3) slots_order_hd [OF assms(1) ends(2)] so by (auto simp: slot_ok_def)
  have "slots_ok (map (\<lambda>s. TimeSlotAddReservation ctx s res) mid)"
    using ok mid by (intro slots_ok_add) auto
  moreover have "\<forall>x \<in> set (head_left ctx res (hd ov)). \<forall>y \<in> set mid. slot_end x < slot_start y"
    using L(2) mid by fastforce
  moreover have "\<forall>x \<in> set mid. \<forall>y \<in> set (tail_right ctx res (last ov)). slot_end x < slot_start y"
    using R(2) mid by fastforce
  moreover have "\<forall>x \<in> set (head_left ctx res (hd ov)). \<forall>y \<in> set (tail_right ctx res (last ov)). slot_end x < slot_start y"
    using L(2) R(2) LR by fastforce
  ultimately have "slots_ok (occupy ctx res ov)" using L(1) R(1) by (auto simp: o)
  moreover have "min (res_first res) (slot_start (hd ov)) \<le> slot_start y \<and>
      slot_end y \<le> max (res_last res) (slot_end (last ov))" if y: "y \<in> set (occupy ctx res ov)" for y
  proof -
    consider "y \<in> set (head_left ctx res (hd ov))"
      | x where "x \<in> set mid" "y = TimeSlotAddReservation ctx x res"
      | "y \<in> set (tail_right ctx res (last ov))"
      using y unfolding o by auto
    then show ?thesis
    proof cases
      case 1
      then show ?thesis using L(2) LR by fastforce
    next
      case 2
      then show ?thesis using mid [of x] by auto
    next
      case 3
      then show ?thesis using R(2) LR by fastforce
    qed
  qed
  ultimately show ?thesis by blast
qed

text \<open>
  The booking after \<open>occupy\<close>: one more at every second of the window that an overlapped slot
  covers, and at those before the first and after the last overlapped slot. A second between
  two overlapped slots that neither covers stays as it was.
\<close>

lemma occupy_booked:
  assumes ok: "slots_ok ov" and ne: "ov \<noteq> []" and win: "res_first res \<le> res_last res"
    and hits: "\<forall>y \<in> set ov. res_first res \<le> slot_end y \<and> slot_start y \<le> res_last res"
  shows "booked (occupy ctx res ov) t = booked ov t +
    (if res_first res \<le> t \<and> t \<le> res_last res \<and>
        ((\<exists>y \<in> set ov. covers y t) \<or> t < slot_start (hd ov) \<or> slot_end (last ov) < t) then 1 else 0)"
proof -
  obtain mid where o: "occupy ctx res ov = head_left ctx res (hd ov) @
      map (\<lambda>s. TimeSlotAddReservation ctx s res) mid @ tail_right ctx res (last ov)"
    and mok: "slots_ok mid" and bm: "\<And>u. booked mid u = booked (map (clip res) ov) u"
    using occupy_parts [OF assms] by metis
  have ends: "hd ov \<in> set ov" "last ov \<in> set ov" using ne by simp_all
  have so: "slot_ok (hd ov)" "slot_ok (last ov)" using ok ends by (auto simp: slots_ok_def)
  have le: "slot_start (hd ov) \<le> slot_end (last ov)"
    using slots_order_hd [OF ok ends(2)] so(2) by (simp add: slot_ok_def)
  have m: "booked mid t = (if res_first res \<le> t \<and> t \<le> res_last res then booked ov t else 0)"
    by (simp add: bm booked_clip)
  have cov: "(\<exists>s \<in> set mid. covers s t) = (res_first res \<le> t \<and> t \<le> res_last res \<and> (\<exists>y \<in> set ov. covers y t))"
    using booked_pos [OF mok, of t] booked_pos [OF ok, of t] unfolding m by (metis less_irrefl)
  have none: "\<not> (\<exists>y \<in> set ov. covers y t)" if "t < slot_start (hd ov) \<or> slot_end (last ov) < t"
    using that slots_order_hd [OF ok] slots_order_last [OF ok] by (fastforce simp: covers_def)
  have below: "booked ov t = (if slot_start (hd ov) \<le> t then num_reservations (hd ov) else 0)"
    if "t < res_first res"
    using booked_below [of "hd ov" "tl ov" t "res_first res"] that ok ne hits ends by simp
  have above: "booked ov t = (if t \<le> slot_end (last ov) then num_reservations (last ov) else 0)"
    if "res_last res < t"
    using booked_above [of "butlast ov" "last ov" "res_last res" t] that ok ne hits ends by simp
  note parts = head_left_facts(3) [OF so(1), of ctx res t] tail_right_facts(3) [OF so(2), of ctx res t]
    booked_add [OF mok, of ctx res t]
  consider "t < res_first res" | "res_last res < t" | "res_first res \<le> t" "t \<le> res_last res" by linarith
  then show ?thesis
  proof cases
    case 1
    then show ?thesis using parts below win le cov m ends hits by (auto simp: o)
  next
    case 2
    then show ?thesis using parts above win le cov m ends hits by (auto simp: o)
  next
    case 3
    then show ?thesis using parts cov m none le by (auto simp: o)
  qed
qed

section \<open>Removing what was placed\<close>

lemma ResRemove_append [simp]: "ResRemove (xs @ ys) res = ResRemove xs res @ ResRemove ys res"
  by (induction xs) (simp_all add: Let_def)

lemma ResRemove_outside:
  "\<forall>s \<in> set xs. res_last res < slot_start s \<or> slot_end s < res_first res \<Longrightarrow> ResRemove xs res = xs"
  by (induction xs) (auto simp: TimeSlotHasReservation_def)

lemma booked_ResRemove_added:
  assumes "\<forall>s \<in> set xs. slot_start s \<le> res_last res \<and> res_first res \<le> slot_end s \<and> num_reservations s \<noteq> 0"
  shows "booked (ResRemove (map (\<lambda>s. TimeSlotAddReservation ctx s res) xs) res) t = booked xs t"
  using assms
  by (induction xs)
    (auto simp: TimeSlotHasReservation_def TimeSlotRemoveReservation_def covers_def)

lemma booked_ResRemove_head:
  assumes "slot_ok s" and "res_first res \<le> slot_end s" and "slot_start s \<le> res_last res"
  shows "booked (ResRemove (head_left ctx res s) res) t =
      (if slot_start s \<le> t \<and> t < res_first res then num_reservations s else 0)"
  using assms
  by (auto simp: head_left_def TimeSlotSplit_def TimeSlotHasReservation_def
      TimeSlotRemoveReservation_def covers_def slot_ok_def)

lemma booked_ResRemove_tail:
  assumes "slot_ok s" and "res_first res \<le> slot_end s" and "slot_start s \<le> res_last res"
  shows "booked (ResRemove (tail_right ctx res s) res) t =
      (if res_last res < t \<and> t \<le> slot_end s then num_reservations s else 0)"
  using assms
  by (auto simp: tail_right_def TimeSlotSplit_def TimeSlotHasReservation_def
      TimeSlotRemoveReservation_def covers_def slot_ok_def)

lemma occupy_removed:
  assumes ok: "slots_ok ov" and ne: "ov \<noteq> []" and win: "res_first res \<le> res_last res"
    and hits: "\<forall>y \<in> set ov. res_first res \<le> slot_end y \<and> slot_start y \<le> res_last res"
  shows "booked (ResRemove (occupy ctx res ov) res) t = booked ov t"
proof -
  obtain mid where o: "occupy ctx res ov = head_left ctx res (hd ov) @
      map (\<lambda>s. TimeSlotAddReservation ctx s res) mid @ tail_right ctx res (last ov)"
    and mok: "slots_ok mid" and bm: "\<And>u. booked mid u = booked (map (clip res) ov) u"
    and cl: "\<forall>m \<in> set mid. \<exists>y \<in> set ov. clipped res y m"
    using occupy_parts [OF assms] by metis
  have ends: "hd ov \<in> set ov" "last ov \<in> set ov" using ne by simp_all
  have so: "slot_ok (hd ov)" "slot_ok (last ov)" using ok ends by (auto simp: slots_ok_def)
  have inside: "\<forall>s \<in> set mid. slot_start s \<le> res_last res \<and> res_first res \<le> slot_end s \<and> num_reservations s \<noteq> 0"
  proof
    fix s assume "s \<in> set mid"
    then obtain y where "y \<in> set ov" "clipped res y s" "slot_ok s" using cl mok by (auto simp: slots_ok_def)
    then show "slot_start s \<le> res_last res \<and> res_first res \<le> slot_end s \<and> num_reservations s \<noteq> 0"
      using hits win by (simp add: clipped_def slot_ok_def)
  qed
  have "booked (ResRemove (occupy ctx res ov) res) t =
      (if slot_start (hd ov) \<le> t \<and> t < res_first res then num_reservations (hd ov) else 0)
    + (if res_first res \<le> t \<and> t \<le> res_last res then booked ov t else 0)
    + (if res_last res < t \<and> t \<le> slot_end (last ov) then num_reservations (last ov) else 0)"
    using booked_ResRemove_head [OF so(1)] booked_ResRemove_tail [OF so(2)] hits ends
      booked_ResRemove_added [OF inside] bm
    by (simp add: o booked_clip)
  also have "\<dots> = booked ov t"
    using booked_below [of "hd ov" "tl ov" t "res_first res"]
      booked_above [of "butlast ov" "last ov" "res_last res" t] ok ne hits ends win
    by auto
  finally show ?thesis .
qed

section \<open>A placed reservation\<close>

text \<open>
  \<open>placed ctx res slots slots'\<close>: the list \<open>slots'\<close> is \<open>slots\<close> with \<open>res\<close> added, all slots it overlaps
  having room for it.
\<close>

definition overlaps :: "Reservation \<Rightarrow> TimeSlot \<Rightarrow> bool" where
  "overlaps res s = (res_first res \<le> slot_end s \<and> slot_start s \<le> res_last res)"

definition placed :: "BWLContext \<Rightarrow> Reservation \<Rightarrow> TimeSlot list \<Rightarrow> TimeSlot list \<Rightarrow> bool" where
  "placed ctx res slots slots' = (\<exists>pre ov post.
     slots = pre @ ov @ post \<and> (\<forall>s \<in> set pre. slot_end s < res_first res) \<and>
     (\<forall>s \<in> set ov. overlaps res s \<and> ReservationCanUseSlot ctx res s) \<and>
     (\<forall>s \<in> set post. res_last res < slot_start s) \<and>
     slots' = pre @ (if ov = [] then [TimeSlotCreate ctx res (res_first res) (res_last res)]
                     else occupy ctx res ov) @ post)"

lemma can_use_room: "ReservationCanUseSlot ctx res s \<Longrightarrow> num_reservations s \<noteq> max_reservations s"
  by (auto simp: ReservationCanUseSlot_def Let_def split: if_splits)

lemma placed_free:
  assumes "slots_ok slots" and "placed ctx res slots slots'" and "s \<in> set slots" and "overlaps res s"
  shows "ReservationCanUseSlot ctx res s"
  using assms(2-4) by (fastforce simp: placed_def overlaps_def)

lemma placed_ok:
  assumes "slots_ok slots" and "res_first res \<le> res_last res" and "placed ctx res slots slots'"
  shows "slots_ok slots'"
proof -
  obtain pre ov post where s: "slots = pre @ ov @ post" and pre: "\<forall>s \<in> set pre. slot_end s < res_first res"
    and ov: "\<forall>s \<in> set ov. overlaps res s \<and> ReservationCanUseSlot ctx res s"
    and post: "\<forall>s \<in> set post. res_last res < slot_start s"
    and s': "slots' = pre @ (if ov = [] then [TimeSlotCreate ctx res (res_first res) (res_last res)]
      else occupy ctx res ov) @ post"
    using assms(3) unfolding placed_def by blast
  show ?thesis
  proof (cases "ov = []")
    case True
    then show ?thesis using assms s s' pre post by (simp add: slot_ok_def)
  next
    case False
    have bounds: "slots_ok (occupy ctx res ov) \<and> (\<forall>y \<in> set (occupy ctx res ov).
        min (res_first res) (slot_start (hd ov)) \<le> slot_start y \<and>
        slot_end y \<le> max (res_last res) (slot_end (last ov)))"
      using assms s ov False can_use_room by (intro occupy_ok) (auto simp: overlaps_def)
    have "slot_end x < min (res_first res) (slot_start (hd ov))" if "x \<in> set pre" for x
      using that assms(1) s pre False by auto
    moreover have "max (res_last res) (slot_end (last ov)) < slot_start x" if "x \<in> set post" for x
      using that assms(1) s post False by auto
    ultimately have
      "\<forall>x \<in> set pre. \<forall>y \<in> set (occupy ctx res ov). slot_end x < slot_start y"
      "\<forall>x \<in> set (occupy ctx res ov). \<forall>y \<in> set post. slot_end x < slot_start y"
      using bounds by (meson less_le_trans, meson le_less_trans)
    then show ?thesis using bounds assms(1) s False by (simp add: s' ball_Un)
  qed
qed

text \<open>A second of the window that lies between two overlapped slots and in none.\<close>

definition interior_gap :: "TimeSlot list \<Rightarrow> Reservation \<Rightarrow> int \<Rightarrow> bool" where
  "interior_gap slots res t = ((\<forall>s \<in> set slots. \<not> covers s t) \<and>
     (\<exists>a \<in> set slots. res_first res \<le> slot_end a \<and> slot_end a < t) \<and>
     (\<exists>b \<in> set slots. t < slot_start b \<and> slot_start b \<le> res_last res))"

lemma gap_between:
  assumes ok: "slots_ok ov" and ne: "ov \<noteq> []"
  shows "((\<forall>y \<in> set ov. \<not> covers y t) \<and> (\<exists>a \<in> set ov. slot_end a < t) \<and> (\<exists>b \<in> set ov. t < slot_start b)) =
    (\<not> ((\<exists>y \<in> set ov. covers y t) \<or> t < slot_start (hd ov) \<or> slot_end (last ov) < t))"
proof -
  have ends: "hd ov \<in> set ov" "last ov \<in> set ov" using ne by simp_all
  have le: "slot_start y \<le> slot_end y" if "y \<in> set ov" for y
    using ok that by (simp add: slots_ok_def slot_ok_def)
  have "(\<exists>a \<in> set ov. slot_end a < t) = (slot_end (hd ov) < t)"
  proof
    assume "\<exists>a \<in> set ov. slot_end a < t"
    then obtain a where "a \<in> set ov" "slot_end a < t" by blast
    moreover have "slot_end (hd ov) \<le> slot_end a"
      using ok \<open>a \<in> set ov\<close> le by (cases ov) fastforce+
    ultimately show "slot_end (hd ov) < t" by simp
  qed (use ends in blast)
  moreover have "(\<exists>b \<in> set ov. t < slot_start b) = (t < slot_start (last ov))"
  proof
    assume "\<exists>b \<in> set ov. t < slot_start b"
    then obtain b where "b \<in> set ov" "t < slot_start b" by blast
    moreover have "slot_start b \<le> slot_start (last ov)"
      using ok \<open>b \<in> set ov\<close> le by (cases ov rule: rev_cases) fastforce+
    ultimately show "t < slot_start (last ov)" by simp
  qed (use ends in blast)
  moreover have "slot_start (hd ov) \<le> slot_end (hd ov)" "slot_start (last ov) \<le> slot_end (last ov)"
    using le ends by simp_all
  moreover have "\<not> covers (hd ov) t \<and> \<not> covers (last ov) t" if "\<forall>y \<in> set ov. \<not> covers y t"
    using that ends by blast
  ultimately show ?thesis by (auto simp: covers_def)
qed

lemma placed_booked:
  assumes "slots_ok slots" and "res_first res \<le> res_last res" and "placed ctx res slots slots'"
  shows "booked slots' t = booked slots t +
    (if res_first res \<le> t \<and> t \<le> res_last res \<and> \<not> interior_gap slots res t then 1 else 0)"
proof -
  obtain pre ov post where s: "slots = pre @ ov @ post" and pre: "\<forall>s \<in> set pre. slot_end s < res_first res"
    and ov: "\<forall>s \<in> set ov. overlaps res s \<and> ReservationCanUseSlot ctx res s"
    and post: "\<forall>s \<in> set post. res_last res < slot_start s"
    and s': "slots' = pre @ (if ov = [] then [TimeSlotCreate ctx res (res_first res) (res_last res)]
      else occupy ctx res ov) @ post"
    using assms(3) unfolding placed_def by blast
  have post': "res_last res < slot_end x" if "x \<in> set post" for x
    using that post assms(1) by (force simp: s slots_ok_def slot_ok_def)
  show ?thesis
  proof (cases "ov = []")
    case True
    have "\<not> interior_gap slots res t" if "t \<le> res_last res"
      using that pre post' True by (force simp: interior_gap_def s)
    then show ?thesis using True by (auto simp: s s' covers_def)
  next
    case False
    have ok: "slots_ok ov" using assms(1) s by simp
    have hits: "\<forall>y \<in> set ov. res_first res \<le> slot_end y \<and> slot_start y \<le> res_last res"
      using ov by (simp add: overlaps_def)
    have gap: "interior_gap slots res t = (\<not> ((\<exists>y \<in> set ov. covers y t) \<or> t < slot_start (hd ov) \<or> slot_end (last ov) < t))"
      if t: "res_first res \<le> t" "t \<le> res_last res"
    proof -
      have ends: "hd ov \<in> set ov" "last ov \<in> set ov" using False by simp_all
      have a: "(\<exists>a \<in> set slots. res_first res \<le> slot_end a \<and> slot_end a < t) = (\<exists>a \<in> set ov. slot_end a < t)"
        using hits pre post' t by (force simp: s)
      have b: "(\<exists>b \<in> set slots. t < slot_start b \<and> slot_start b \<le> res_last res) = (\<exists>b \<in> set ov. t < slot_start b)"
        using hits pre post t assms(1) by (force simp: s slots_ok_def slot_ok_def)
      have c: "(\<forall>y \<in> set slots. \<not> covers y t) = (\<forall>y \<in> set ov. \<not> covers y t)"
        using pre post t by (force simp: s covers_def)
      show ?thesis unfolding interior_gap_def a b c by (rule gap_between [OF ok False])
    qed
    show ?thesis
      using occupy_booked [OF ok False assms(2) hits, of ctx t] gap False by (auto simp: s s')
  qed
qed

lemma placed_removed:
  assumes "slots_ok slots" and "res_first res \<le> res_last res" and "placed ctx res slots slots'"
  shows "booked (ResRemove slots' res) t = booked slots t"
proof -
  obtain pre ov post where s: "slots = pre @ ov @ post" and pre: "\<forall>s \<in> set pre. slot_end s < res_first res"
    and ov: "\<forall>s \<in> set ov. overlaps res s \<and> ReservationCanUseSlot ctx res s"
    and post: "\<forall>s \<in> set post. res_last res < slot_start s"
    and s': "slots' = pre @ (if ov = [] then [TimeSlotCreate ctx res (res_first res) (res_last res)]
      else occupy ctx res ov) @ post"
    using assms(3) unfolding placed_def by blast
  have out: "ResRemove pre res = pre" "ResRemove post res = post"
    using pre post by (simp_all add: ResRemove_outside)
  show ?thesis
  proof (cases "ov = []")
    case True
    then show ?thesis
      using out assms(2) by (simp add: s s' TimeSlotHasReservation_def TimeSlotRemoveReservation_def)
  next
    case False
    have "booked (ResRemove (occupy ctx res ov) res) t = booked ov t"
      using assms(1) s ov False assms(2) by (intro occupy_removed) (auto simp: overlaps_def)
    then show ?thesis using False out by (simp add: s s')
  qed
qed

section \<open>The search\<close>

text \<open>
  The window, in seconds, of a reservation of total length \<open>len\<close> that starts at instant \<open>x\<close>; both
  in units of \<open>2 ^ -32\<close> seconds since 1900.
\<close>

definition win_first :: "nat \<Rightarrow> int" where
  "win_first x = int (x div 2 ^ 32) - int BWLJAN_1970"

definition win_last :: "nat \<Rightarrow> nat \<Rightarrow> int" where
  "win_last len x = int ((x + len) div 2 ^ 32) - int BWLJAN_1970 + 1"

text \<open>An instant is free when every slot its window overlaps can take the reservation.\<close>

definition free_at :: "BWLContext \<Rightarrow> Reservation \<Rightarrow> TimeSlot list \<Rightarrow> nat \<Rightarrow> nat \<Rightarrow> bool" where
  "free_at ctx res slots len x = (\<forall>s \<in> set slots.
     win_first x \<le> slot_end s \<and> slot_start s \<le> win_last len x \<longrightarrow> ReservationCanUseSlot ctx res s)"

text \<open>No time involved leaves the current NTP era.\<close>

definition in_era :: "nat \<Rightarrow> nat \<Rightarrow> bool" where
  "in_era len x = (BWLJAN_1970 * 2 ^ 32 \<le> x \<and> x + len < 2 ^ 64)"

definition slots_in_era :: "nat \<Rightarrow> TimeSlot list \<Rightarrow> bool" where
  "slots_in_era len slots = (\<forall>s \<in> set slots.
     0 \<le> slot_start s \<and> nat (slot_end s + 1 + int BWLJAN_1970) * 2 ^ 32 + len < 2 ^ 64)"

lemma set_start_simps [simp]:
  "r_start (set_start d s r) = s" "r_restime (set_start d s r) = BWLNum64Add s (r_fuzz r)"
  "r_end (set_start d s r) = BWLNum64Add (BWLNum64Add s (r_fuzz r)) d"
  "r_fuzz (set_start d s r) = r_fuzz r" "r_tool (set_start d s r) = r_tool r"
  "r_toolport (set_start d s r) = r_toolport r" "r_sid (set_start d s r) = r_sid r"
  "set_start d s (set_start d s' r) = set_start d s r"
  "fixup_end d (set_start d s r) = set_start d s r"
  by (simp_all add: set_start_def fixup_end_def)

lemma skip_past_eq [simp]:
  "skip_past d c (set_start d s r) = set_start d (BWLTimestampToNum64 (slot_end c + 1)) r"
  by (simp add: skip_past_def)

lemma can_use_set_start [simp]: "ReservationCanUseSlot ctx (set_start d s r) = ReservationCanUseSlot ctx r"
  by (rule ext) (simp add: ReservationCanUseSlot_def)

lemma window_of:
  assumes "in_era (unat (r_fuzz r) + unat d) (unat s)"
  shows "res_first (set_start d s r) = win_first (unat s)"
    and "res_last (set_start d s r) = win_last (unat (r_fuzz r) + unat d) (unat s)"
proof -
  show "res_first (set_start d s r) = win_first (unat s)"
    using assms by (simp add: res_first_def win_first_def in_era_def BWLNum64ToTimestamp_eq)
  have "unat (s + r_fuzz r) = unat s + unat (r_fuzz r)"
    using assms by (intro unat_plus_noov) (simp add: in_era_def)
  then have e: "unat (s + r_fuzz r + d) = unat s + (unat (r_fuzz r) + unat d)"
    using assms by (subst unat_plus_noov) (simp_all add: in_era_def)
  have "BWLJAN_1970 * 2 ^ 32 \<le> unat (s + r_fuzz r + d)" using assms by (simp add: e in_era_def)
  then show "res_last (set_start d s r) = win_last (unat (r_fuzz r) + unat d) (unat s)"
    by (simp add: res_last_def win_last_def BWLNum64Add_def BWLNum64ToTimestamp_eq e)
qed

lemma win_mono: "x \<le> y \<Longrightarrow> win_first x \<le> win_first y" "x \<le> y \<Longrightarrow> win_last len x \<le> win_last len y"
  by (simp_all add: win_first_def win_last_def div_le_mono)

lemma win_nonempty: "win_first x < win_last len x"
  by (simp add: win_first_def win_last_def div_le_mono less_add_one le_less_trans)

lemma after_slot:
  assumes "slots_in_era len slots" and "slots_ok slots" and "c \<in> set slots"
  defines "s' \<equiv> BWLTimestampToNum64 (slot_end c + 1)"
  shows "in_era len (unat s')" and "win_first (unat s') = slot_end c + 1"
    and "x < unat s' \<Longrightarrow> win_first x \<le> slot_end c"
    and "win_first x \<le> slot_end c \<Longrightarrow> x < unat s'"
proof -
  have "slot_start c \<le> slot_end c" using assms(2,3) by (simp add: slots_ok_def slot_ok_def)
  then have c: "0 \<le> slot_end c" and e: "nat (slot_end c + 1 + int BWLJAN_1970) * 2 ^ 32 + len < 2 ^ 64"
    using assms(1,3) by (force simp: slots_in_era_def)+
  then have "nat (slot_end c + 1 + int BWLJAN_1970) < 2 ^ 32" by simp
  then have u: "unat s' = nat (slot_end c + 1 + int BWLJAN_1970) * 2 ^ 32"
    unfolding s'_def using c by (intro unat_BWLTimestampToNum64) simp_all
  show "in_era len (unat s')" using c e by (simp add: in_era_def u nat_le_eq_zle)
  show "win_first (unat s') = slot_end c + 1" using c by (simp add: win_first_def u)
  show "win_first x \<le> slot_end c" if "x < unat s'"
  proof -
    have "x div 2 ^ 32 < nat (slot_end c + 1 + int BWLJAN_1970)"
      using that by (intro less_mult_imp_div_less) (simp add: u)
    then show ?thesis using c by (simp add: win_first_def)
  qed
  show "x < unat s'" if "win_first x \<le> slot_end c"
  proof (rule ccontr)
    assume "\<not> x < unat s'"
    then have "win_first (unat s') \<le> win_first x" by (intro win_mono) simp
    then show False using that \<open>win_first (unat s') = slot_end c + 1\<close> by simp
  qed
qed

lemma skip_blocked:
  assumes "slots_in_era len slots" and "slots_ok slots" and "c \<in> set slots"
    and "\<not> ReservationCanUseSlot ctx r c" and "slot_start c \<le> win_last len (unat s)"
    and "\<forall>x. s0 \<le> x \<and> x < unat s \<longrightarrow> \<not> free_at ctx r slots len x"
  shows "\<forall>x. s0 \<le> x \<and> x < unat (BWLTimestampToNum64 (slot_end c + 1)) \<longrightarrow> \<not> free_at ctx r slots len x"
proof (intro allI impI)
  fix x assume x: "s0 \<le> x \<and> x < unat (BWLTimestampToNum64 (slot_end c + 1))"
  show "\<not> free_at ctx r slots len x"
  proof (cases "x < unat s")
    case False
    then have "slot_start c \<le> win_last len x"
      using assms(5) win_mono(2) [of "unat s" x len] by simp
    moreover have "win_first x \<le> slot_end c" using after_slot(3) [OF assms(1-3)] x by simp
    ultimately show ?thesis using assms(3,4) by (auto simp: free_at_def)
  qed (use assms(6) x in simp)
qed

lemma extend_overlap_spec:
  "slots_ok (l # rest) \<Longrightarrow> case extend_overlap ctx res l rest of
     Inl c \<Rightarrow> c \<in> set rest \<and> slot_start c \<le> res_last res \<and> \<not> ReservationCanUseSlot ctx res c
   | Inr (ov, post) \<Rightarrow> rest = ov @ post \<and>
       (\<forall>y \<in> set ov. slot_start y \<le> res_last res \<and> ReservationCanUseSlot ctx res y) \<and>
       (\<forall>y \<in> set post. res_last res < slot_start y)"
proof (induction rest arbitrary: l)
  case (Cons n rest)
  have later: "slot_start n \<le> slot_end n" "\<forall>y \<in> set rest. slot_end n < slot_start y" "slot_end l < slot_start n"
    using Cons.prems by (auto simp: slot_ok_def)
  have ih: "case extend_overlap ctx res n rest of
     Inl c \<Rightarrow> c \<in> set rest \<and> slot_start c \<le> res_last res \<and> \<not> ReservationCanUseSlot ctx res c
   | Inr (ov, post) \<Rightarrow> rest = ov @ post \<and>
       (\<forall>y \<in> set ov. slot_start y \<le> res_last res \<and> ReservationCanUseSlot ctx res y) \<and>
       (\<forall>y \<in> set post. res_last res < slot_start y)"
    using Cons.prems by (intro Cons.IH) simp
  show ?case
  proof (cases "slot_end l \<le> res_last res \<and> slot_start n \<le> res_last res")
    case True
    then show ?thesis using ih by (auto split: sum.splits)
  next
    case False
    then have n: "res_last res < slot_start n" using later(3) by linarith
    moreover have "extend_overlap ctx res l (n # rest) = Inr ([], n # rest)" using n by simp
    moreover have "\<forall>y \<in> set rest. res_last res < slot_start y" using n later by fastforce
    ultimately show ?thesis by simp
  qed
qed simp

lemma overlap_placed:
  assumes "slots_ok slots" and "slots = pre @ slot # rest"
    and "\<forall>p \<in> set pre. slot_end p < res_first res" and "res_first res \<le> slot_end slot"
    and "slot_start slot \<le> res_last res" and "ReservationCanUseSlot ctx res slot"
    and "extend_overlap ctx res slot rest = Inr (ov, post)"
  shows "placed ctx res slots (pre @ occupy ctx res (slot # ov) @ post)"
proof -
  have "slots_ok (slot # rest)" using assms(1,2) by simp
  with extend_overlap_spec [OF this, where ctx = ctx and res = res] assms(7)
  have x: "rest = ov @ post" "\<forall>y \<in> set ov. slot_start y \<le> res_last res \<and> ReservationCanUseSlot ctx res y"
    "\<forall>y \<in> set post. res_last res < slot_start y" by simp_all
  moreover have "res_first res \<le> slot_end y" if "y \<in> set ov" for y
    using that assms(1,2,4) x(1) by (force simp: slots_ok_def slot_ok_def sorted_wrt_append)
  ultimately show ?thesis
    using assms(2-6) unfolding placed_def overlaps_def
    by (intro exI [of _ pre] exI [of _ "slot # ov"] exI [of _ post]) simp
qed

text \<open>What the search may answer, for a request that could start at \<open>s0\<close> at the earliest.\<close>

definition found ::
  "BWLContext \<Rightarrow> BWLNum64 \<Rightarrow> BWLNum64 \<Rightarrow> TimeSlot list \<Rightarrow> Reservation \<Rightarrow> nat \<Rightarrow> search \<Rightarrow> bool" where
  "found ctx dtime ltime slots r s0 outcome = (\<exists>s.
     in_era (unat (r_fuzz r) + unat dtime) (unat s) \<and> s0 \<le> unat s \<and>
     (\<forall>x. s0 \<le> x \<and> x < unat s \<longrightarrow> \<not> free_at ctx r slots (unat (r_fuzz r) + unat dtime) x) \<and>
     (case outcome of
        Denied r' \<Rightarrow> r' = set_start dtime s r \<and> too_late ltime (r_restime r')
      | Added slots' r' \<Rightarrow> r' = set_start dtime s r \<and> \<not> too_late ltime (r_restime r') \<and> placed ctx r' slots slots'
      | NotAdded r' \<Rightarrow> r' = set_start dtime s r \<and> (\<forall>p \<in> set slots. slot_end p < res_first r')))"

lemma find_slot_spec:
  assumes ok: "slots_ok slots" and era: "slots_in_era (unat (r_fuzz r) + unat dtime) slots"
  shows "slots = pre @ rest \<Longrightarrow> in_era (unat (r_fuzz r) + unat dtime) (unat s) \<Longrightarrow>
    \<forall>p \<in> set pre. slot_end p < win_first (unat s) \<Longrightarrow>
    (case prev of None \<Rightarrow> True | Some p \<Rightarrow> p \<in> set pre) \<Longrightarrow> s0 \<le> unat s \<Longrightarrow>
    \<forall>x. s0 \<le> x \<and> x < unat s \<longrightarrow> \<not> free_at ctx r slots (unat (r_fuzz r) + unat dtime) x \<Longrightarrow>
    found ctx dtime ltime slots r s0 (find_slot ctx dtime ltime pre prev rest (set_start dtime s r))"
proof (induction rest arbitrary: pre prev s)
  case Nil
  then show ?case
    unfolding found_def by (intro exI [of _ s]) (simp add: window_of)
next
  case (Cons slot rest)
  let ?len = "unat (r_fuzz r) + unat dtime"
  let ?r = "set_start dtime s r"
  let ?next = "\<lambda>c. BWLTimestampToNum64 (slot_end c + 1)"
  note win = window_of [OF Cons.prems(2)]
  have mem: "slot \<in> set slots" using Cons.prems(1) by simp
  have sorted: "slots_ok (slot # rest)" "\<forall>p \<in> set pre. slot_end p < slot_start slot"
    using ok Cons.prems(1) by auto
  have prev: "(case prev of None \<Rightarrow> True | Some p \<Rightarrow> slot_end p - res_first ?r < 0)"
    using Cons.prems(3,4) win by (auto split: option.splits)
  have skip: "found ctx dtime ltime slots r s0
      (find_slot ctx dtime ltime (pre @ [slot]) pv rest (set_start dtime (?next c) r))"
    if c: "c \<in> set slots" "\<not> ReservationCanUseSlot ctx r c" "slot_start c \<le> win_last ?len (unat s)"
      "win_first (unat s) \<le> slot_end c" "slot_end slot \<le> slot_end c"
      and pv: "case pv of None \<Rightarrow> True | Some p \<Rightarrow> p \<in> set (pre @ [slot])" for c pv
  proof (rule Cons.IH)
    note a = after_slot [OF era ok c(1)]
    show "slots = (pre @ [slot]) @ rest" using Cons.prems(1) by simp
    show "in_era ?len (unat (?next c))" by (rule a(1))
    show "\<forall>p \<in> set (pre @ [slot]). slot_end p < win_first (unat (?next c))"
      using a(2) c Cons.prems(3) by auto
    show "s0 \<le> unat (?next c)" using a(4) [OF c(4)] Cons.prems(5) by simp
    show "\<forall>x. s0 \<le> x \<and> x < unat (?next c) \<longrightarrow> \<not> free_at ctx r slots ?len x"
      by (rule skip_blocked [OF era ok c(1-3) Cons.prems(6)])
  qed (fact pv)
  consider (late) "too_late ltime (r_restime ?r)"
    | (passed) "\<not> too_late ltime (r_restime ?r)" "slot_end slot < win_first (unat s)"
    | (gap) "\<not> too_late ltime (r_restime ?r)" "win_first (unat s) \<le> slot_end slot"
        "win_last ?len (unat s) < slot_start slot"
    | (full) "\<not> too_late ltime (r_restime ?r)" "win_first (unat s) \<le> slot_end slot"
        "slot_start slot \<le> win_last ?len (unat s)" "\<not> ReservationCanUseSlot ctx r slot"
    | (overlap) "\<not> too_late ltime (r_restime ?r)" "win_first (unat s) \<le> slot_end slot"
        "slot_start slot \<le> win_last ?len (unat s)" "ReservationCanUseSlot ctx r slot"
    by linarith
  then show ?case
  proof cases
    case late
    then show ?thesis using Cons.prems unfolding found_def by (intro exI [of _ s]) (simp add: Let_def)
  next
    case passed
    then have "found ctx dtime ltime slots r s0 (find_slot ctx dtime ltime (pre @ [slot]) (Some slot) rest ?r)"
      using Cons.prems by (intro Cons.IH) auto
    then show ?thesis using passed win by (simp add: Let_def)
  next
    case gap
    let ?slots = "pre @ TimeSlotCreate ctx ?r (res_first ?r) (res_last ?r) # slot # rest"
    have "placed ctx ?r slots ?slots"
      unfolding placed_def using gap Cons.prems(1,3) win sorted(1)
      by (intro exI [of _ pre] exI [of _ "[]"] exI [of _ "slot # rest"]) (auto simp: slot_ok_def)
    moreover have "find_slot ctx dtime ltime pre prev (slot # rest) ?r = Added ?slots ?r"
      using gap win prev by (simp add: Let_def)
    ultimately show ?thesis
      using gap(1) Cons.prems unfolding found_def by (intro exI [of _ s]) simp
  next
    case full
    then show ?thesis using skip [of slot "Some slot"] mem win prev by (simp add: Let_def)
  next
    case overlap
    show ?thesis
    proof (cases "extend_overlap ctx ?r slot rest")
      case (Inl c)
      then have c: "c \<in> set rest" "slot_start c \<le> win_last ?len (unat s)" "\<not> ReservationCanUseSlot ctx r c"
        using extend_overlap_spec [OF sorted(1), where ctx = ctx and res = ?r] win by auto
      then have "slot_end slot < slot_start c" "slot_start c \<le> slot_end c"
        using sorted(1) by (auto simp: slots_ok_def slot_ok_def)
      then have "found ctx dtime ltime slots r s0
          (find_slot ctx dtime ltime (pre @ [slot]) prev rest (set_start dtime (?next c) r))"
        using c overlap Cons.prems(1,4) by (intro skip) (auto split: option.splits)
      then show ?thesis using overlap win Inl prev by (simp add: Let_def)
    next
      case (Inr p)
      then obtain ov post where e: "extend_overlap ctx ?r slot rest = Inr (ov, post)" by (cases p) auto
      have "placed ctx ?r slots (pre @ occupy ctx ?r (slot # ov) @ post)"
        using overlap win Cons.prems(1,3) by (intro overlap_placed [OF ok _ _ _ _ _ e]) auto
      moreover have "find_slot ctx dtime ltime pre prev (slot # rest) ?r =
          Added (pre @ occupy ctx ?r (slot # ov) @ post) ?r"
        using overlap win e prev by (simp add: Let_def)
      ultimately show ?thesis
        using overlap(1) Cons.prems unfolding found_def by (intro exI [of _ s]) simp
    qed
  qed
qed

section \<open>The request handler\<close>

text \<open>The length of a reservation, fuzz on both sides, and the slots left when the child's own are taken out.\<close>

definition res_length :: "BWLNum64 \<Rightarrow> u32 \<Rightarrow> nat" where
  "res_length ftime dur = unat ftime + unat (BWLNum64Add (BWLULongToNum64 dur) ftime)"

definition open_slots :: "TimeSlot list \<Rightarrow> ChldState \<Rightarrow> TimeSlot list" where
  "open_slots slots cstate = (case ch_res cstate of None \<Rightarrow> slots | Some r \<Rightarrow> ResRemove slots r)"

lemma initial_reservation_eq:
  "initial_reservation now rtime ftime rtttime dur res =
   set_start (BWLNum64Add (BWLULongToNum64 dur) ftime) (initial_start now rtime ftime rtttime)
     (res\<lparr>r_fuzz := ftime, r_duration := dur\<rparr>)"
  by (simp add: initial_reservation_def set_start_def Let_def)

lemma place_spec:
  assumes ok: "slots_ok slots" and era: "slots_in_era (unat (r_fuzz r) + unat d) slots"
    and s0: "in_era (unat (r_fuzz r) + unat d) (unat s0)"
  obtains s where "in_era (unat (r_fuzz r) + unat d) (unat s)" and "unat s0 \<le> unat s"
    and "\<forall>x. unat s0 \<le> x \<and> x < unat s \<longrightarrow> \<not> free_at ctx r slots (unat (r_fuzz r) + unat d) x"
    and "fst (place_reservation ctx d ltime slots (set_start d s0 r)) = set_start d s r"
    and "case snd (place_reservation ctx d ltime slots (set_start d s0 r)) of
        None \<Rightarrow> too_late ltime (BWLNum64Add s (r_fuzz r))
      | Some slots' \<Rightarrow> \<not> too_late ltime (BWLNum64Add s (r_fuzz r)) \<and> placed ctx (set_start d s r) slots slots'"
proof (cases "too_late ltime (BWLNum64Add s0 (r_fuzz r))")
  case True
  have "\<forall>x. unat s0 \<le> x \<and> x < unat s0 \<longrightarrow> \<not> free_at ctx r slots (unat (r_fuzz r) + unat d) x"
    by (metis not_less)
  then show ?thesis by (intro that [OF s0]) (simp_all add: place_reservation_def True)
next
  case False
  let ?f = "find_slot ctx d ltime [] None slots (set_start d s0 r)"
  have "found ctx d ltime slots r (unat s0) ?f"
    by (rule find_slot_spec [OF ok era _ s0]) (simp_all, metis not_less)
  then obtain s where s: "in_era (unat (r_fuzz r) + unat d) (unat s)" "unat s0 \<le> unat s"
      "\<forall>x. unat s0 \<le> x \<and> x < unat s \<longrightarrow> \<not> free_at ctx r slots (unat (r_fuzz r) + unat d) x"
    and f: "case ?f of
        Denied r' \<Rightarrow> r' = set_start d s r \<and> too_late ltime (r_restime r')
      | Added slots' r' \<Rightarrow> r' = set_start d s r \<and> \<not> too_late ltime (r_restime r') \<and> placed ctx r' slots slots'
      | NotAdded r' \<Rightarrow> r' = set_start d s r \<and> (\<forall>p \<in> set slots. slot_end p < res_first r')"
    unfolding found_def by blast
  have app: "placed ctx r' slots (slots @ [TimeSlotCreate ctx r' (res_first r') (res_last r')])"
    if "\<forall>p \<in> set slots. slot_end p < res_first r'" for r'
    unfolding placed_def using that
    by (intro exI [of _ slots] exI [of _ "[]"] exI [of _ "[]"]) simp
  show ?thesis
    by (rule that [OF s]; cases ?f) (use f app False in \<open>auto simp: place_reservation_def\<close>)
qed

lemma placed_overlaps_free:
  assumes "slots_ok slots" and "placed ctx (set_start d s r) slots slots'"
    and "in_era (unat (r_fuzz r) + unat d) (unat s)"
  shows "free_at ctx r slots (unat (r_fuzz r) + unat d) (unat s)"
  using placed_free [OF assms(1,2)] window_of [OF assms(3)] by (simp add: free_at_def overlaps_def)

text \<open>Every answer but a failure comes out of \<open>demand_search\<close>.\<close>

definition requested_tool :: "reservation_query \<Rightarrow> ChldState \<Rightarrow> u32" where
  "requested_tool q cstate = (case ch_res cstate of None \<Rightarrow> q_tool q | Some r \<Rightarrow> r_tool r)"

lemma event_horizon_limit:
  "BWLDGetFixedLimit ns n BWLDLimEventHorizon = Some (GetLimit (ns ! n) BWLDLimEventHorizon)"
  by (simp add: BWLDGetFixedLimit_def limkind_of_def find_limkey_def limkeys_def limdesc_of_def)

lemma demand_search_of:
  assumes run: "ChldReservationDemand rnd ns currtime (ctx, slots, cstate) q restime = Some (reply, s')"
    and ans: "reply_ok reply \<or> \<not> reply_err reply"
  obtains now res ctx1 where "currtime = Some now"
    and "r_tool res = requested_tool q cstate"
    and "take 8 (r_sid res) = take 8 (q_sid q)"
    and "demand_search ctx1 (open_slots slots cstate) cstate res (tstamp now) (q_rtime q) (q_ftime q)
        (latest_start (tstamp now) (GetLimit (ns ! the (ch_node cstate)) BWLDLimEventHorizon) (q_ltime q))
        (q_duration q) (q_rtttime q) = (reply, s')"
proof (cases "ch_res cstate")
  case None
  then obtain res ctx1 where a: "AllocReservation rnd ctx cstate (q_sid q) (q_tool q) (q_toolport q)
      (q_sender q) (q_receiver q) = Some (Some (res, ctx1))"
    using run ans by (auto simp: ChldReservationDemand_def event_horizon_limit Let_def split: option.splits)
  have "r_tool res = q_tool q" "r_sid res = take 16 (q_sid q)"
    using a by (auto simp: AllocReservation_def split: option.splits if_splits)
  then show ?thesis
    using run ans None a that [of _ res ctx1]
    by (auto simp: ChldReservationDemand_def event_horizon_limit Let_def open_slots_def requested_tool_def split: option.splits)
next
  case (Some r)
  then have "same_sid (q_sid q) (r_sid r)"
    using run ans by (auto simp: ChldReservationDemand_def event_horizon_limit Let_def split: if_splits)
  then show ?thesis
    using run ans Some that [of _ "r\<lparr>r_toolport := q_toolport q\<rparr>" ctx]
    by (auto simp: ChldReservationDemand_def event_horizon_limit Let_def open_slots_def requested_tool_def same_sid_def
        split: option.splits)
qed

lemma not_too_late: "(\<not> too_late ltime t) = (ltime = 0 \<or> t \<le> ltime)"
  by (auto simp: too_late_def BWLNum64Cmp_def not_less)

text \<open>The earliest start the daemon would give a request, and when its times stay in the era.\<close>

definition earliest :: "BWLTimeStamp \<Rightarrow> reservation_query \<Rightarrow> BWLNum64" where
  "earliest now q = initial_start (tstamp now) (q_rtime q) (q_ftime q) (q_rtttime q)"

definition query_length :: "reservation_query \<Rightarrow> nat" where
  "query_length q = unat (q_ftime q) + unat (BWLNum64Add (BWLULongToNum64 (q_duration q)) (q_ftime q))"

definition schedulable :: "BWLTimeStamp \<Rightarrow> reservation_query \<Rightarrow> TimeSlot list \<Rightarrow> bool" where
  "schedulable now q slots = (slots_ok slots \<and> slots_in_era (query_length q) slots \<and>
     in_era (query_length q) (unat (earliest now q)))"

definition latest :: "nodes \<Rightarrow> BWLTimeStamp \<Rightarrow> reservation_query \<Rightarrow> ChldState \<Rightarrow> BWLNum64" where
  "latest ns now q cstate =
    latest_start (tstamp now) (GetLimit (ns ! the (ch_node cstate)) BWLDLimEventHorizon) (q_ltime q)"

text \<open>The outcome of a demand that did not fail, in the terms of the search.\<close>

lemma demand_outcome:
  assumes run: "ChldReservationDemand rnd ns (Some now) (ctx, slots, cstate) q restime =
      Some (reply, ctx', slots', cstate')"
    and ans: "reply_ok reply \<or> \<not> reply_err reply"
    and sched: "schedulable now q (open_slots slots cstate)"
  obtains res where "in_era (query_length q) (unat (r_start res))"
    and "unat (earliest now q) \<le> unat (r_start res)"
    and "\<forall>x. unat (earliest now q) \<le> x \<and> x < unat (r_start res) \<longrightarrow>
        \<not> free_at ctx' res (open_slots slots cstate) (query_length q) x"
    and "r_restime res = BWLNum64Add (r_start res) (q_ftime q)" and "reply_restime reply = r_restime res"
    and "res_first res = win_first (unat (r_start res))"
    and "res_last res = win_last (query_length q) (unat (r_start res))"
    and "take 8 (r_sid res) = take 8 (q_sid q)" and "r_tool res = requested_tool q cstate"
    and "if reply_ok reply
      then placed ctx' res (open_slots slots cstate) slots' \<and> ch_res cstate' = Some res \<and>
        \<not> too_late (latest ns now q cstate) (r_restime res) \<and>
        free_at ctx' res (open_slots slots cstate) (query_length q) (unat (r_start res))
      else too_late (latest ns now q cstate) (r_restime res) \<and> ch_res cstate' = None \<and>
        slots' = ResRemove (open_slots slots cstate) res"
proof -
  obtain res0 ctx1 where sid: "take 8 (r_sid res0) = take 8 (q_sid q)" "r_tool res0 = requested_tool q cstate"
    and search: "demand_search ctx1 (open_slots slots cstate) cstate res0 (tstamp now) (q_rtime q) (q_ftime q)
        (latest ns now q cstate) (q_duration q) (q_rtttime q) = (reply, ctx', slots', cstate')"
    by (rule demand_search_of [OF run ans]) (simp add: latest_def)
  define r where "r = res0\<lparr>r_fuzz := q_ftime q, r_duration := q_duration q\<rparr>"
  define d where "d = BWLNum64Add (BWLULongToNum64 (q_duration q)) (q_ftime q)"
  have len: "unat (r_fuzz r) + unat d = query_length q" by (simp add: r_def d_def query_length_def)
  have rf: "r_fuzz r = q_ftime q" "take 8 (r_sid r) = take 8 (q_sid q)"
    "r_tool r = requested_tool q cstate" using sid by (simp_all add: r_def)
  have ctx1: "ctx1 = ctx'"
    using search by (auto simp: demand_search_def split: prod.splits option.splits)
  have p: "slots_ok (open_slots slots cstate)" "slots_in_era (unat (r_fuzz r) + unat d) (open_slots slots cstate)"
    "in_era (unat (r_fuzz r) + unat d) (unat (earliest now q))"
    using sched len by (simp_all add: schedulable_def)
  obtain s where s: "in_era (unat (r_fuzz r) + unat d) (unat s)" "unat (earliest now q) \<le> unat s"
      "\<forall>x. unat (earliest now q) \<le> x \<and> x < unat s \<longrightarrow>
        \<not> free_at ctx' r (open_slots slots cstate) (unat (r_fuzz r) + unat d) x"
    and res: "fst (place_reservation ctx' d (latest ns now q cstate) (open_slots slots cstate)
        (set_start d (earliest now q) r)) = set_start d s r"
    and out: "case snd (place_reservation ctx' d (latest ns now q cstate) (open_slots slots cstate)
        (set_start d (earliest now q) r)) of
        None \<Rightarrow> too_late (latest ns now q cstate) (BWLNum64Add s (r_fuzz r))
      | Some slots2 \<Rightarrow> \<not> too_late (latest ns now q cstate) (BWLNum64Add s (r_fuzz r)) \<and>
          placed ctx' (set_start d s r) (open_slots slots cstate) slots2"
    by (rule place_spec [OF p, where ctx = ctx' and ltime = "latest ns now q cstate"])
  have init: "initial_reservation (tstamp now) (q_rtime q) (q_ftime q) (q_rtttime q) (q_duration q) res0 =
      set_start d (earliest now q) r"
    by (simp add: initial_reservation_eq earliest_def r_def d_def)
  let ?place = "place_reservation ctx' d (latest ns now q cstate) (open_slots slots cstate)
        (set_start d (earliest now q) r)"
  have search': "(case ?place of
       (res', Some slots2) \<Rightarrow>
         (\<lparr>reply_ok = True, reply_err = True, reply_restime = r_restime res',
           reply_toolport = r_toolport res'\<rparr>, ctx', slots2, cstate\<lparr>ch_res := Some res'\<rparr>)
     | (res', None) \<Rightarrow>
         (\<lparr>reply_ok = False, reply_err = False, reply_restime = r_restime res',
           reply_toolport = r_toolport res'\<rparr>, ctx', ResRemove (open_slots slots cstate) res',
           cstate\<lparr>ch_res := None\<rparr>)) = (reply, ctx', slots', cstate')"
    using search unfolding demand_search_def init ctx1 d_def [symmetric]
    by (simp add: DeleteReservation_def)
  have free: "free_at ctx' (set_start d s r) = free_at ctx' r"
    by (intro ext) (simp add: free_at_def)
  show ?thesis
  proof (rule that [of "set_start d s r"])
    show "if reply_ok reply
      then placed ctx' (set_start d s r) (open_slots slots cstate) slots' \<and> ch_res cstate' = Some (set_start d s r) \<and>
        \<not> too_late (latest ns now q cstate) (r_restime (set_start d s r)) \<and>
        free_at ctx' (set_start d s r) (open_slots slots cstate) (query_length q) (unat (r_start (set_start d s r)))
      else too_late (latest ns now q cstate) (r_restime (set_start d s r)) \<and> ch_res cstate' = None \<and>
        slots' = ResRemove (open_slots slots cstate) (set_start d s r)"
      using search' res out placed_overlaps_free [OF p(1) _ s(1), of ctx'] free
      by (cases ?place) (auto simp: len split: option.splits)
    show "reply_restime reply = r_restime (set_start d s r)"
      using search' res by (cases ?place) (auto split: option.splits)
  qed (use s [unfolded len] window_of [OF s(1), unfolded len] free rf in simp_all)
qed

section \<open>A concrete daemon\<close>

text \<open>
  The states the theorems of this theory are applied to: a daemon with the \<open>ping\<close> tool, a child
  of the guest class, a request for ten seconds at second 1000 while it is second 200, and a
  slot that another client holds from second 1005 to 1020.
\<close>

definition sample_ctx :: BWLContext where
  "sample_ctx = \<lparr>tool_list = [(BWL_TOOL_PING, BWLToolPing)], tool_avail = BWL_TOOL_PING,
     port_ranges = Map.empty, config = Map.empty\<rparr>"

definition sample_child :: ChldState where
  "sample_child = \<lparr>ch_pid = 100, ch_fd = 5, ch_node = Some 1, ch_res = None\<rparr>"

definition sample_time :: "u32 \<Rightarrow> BWLTimeStamp" where
  "sample_time t = \<lparr>tstamp = BWLULongToNum64 (2208988800 + t), sync = 1, multiplier = 1, scale = 0\<rparr>"

definition sample_query :: "BWLNum64 \<Rightarrow> reservation_query" where
  "sample_query l = \<lparr>q_sid = [1, 2, 3, 4, 5, 6, 7, 8], q_rtime = BWLULongToNum64 (2208988800 + 1000),
     q_ftime = 0, q_ltime = l, q_duration = 10, q_rtttime = 0, q_toolport = 0,
     q_tool = BWL_TOOL_PING, q_sender = ''a'', q_receiver = ''b''\<rparr>"

definition sample_slot :: TimeSlot where
  "sample_slot = \<lparr>slot_type = SLOT_ANY, slot_start = 1005, slot_end = 1020,
     num_reservations = 1, max_reservations = 30\<rparr>"

abbreviation sample_demand :: "TimeSlot list \<Rightarrow> BWLNum64 \<Rightarrow> (demand_reply \<times> sched) option" where
  "sample_demand slots l \<equiv> ChldReservationDemand None sample_tree (Some (sample_time 200))
     (sample_ctx, slots, sample_child) (sample_query l) 0"

lemma sample_earliest: "earliest (sample_time 200) (sample_query l) = BWLULongToNum64 (2208988800 + 1000)"
  by (simp add: earliest_def sample_time_def sample_query_def initial_start_def minstart_def) code_simp

lemma sample_horizon: "GetLimit (sample_tree ! Suc 0) BWLDLimEventHorizon = 0"
  by (simp add: sample_tree_def GetLimit_def GetDefLimit_def find_limkey_def limkeys_def limdesc_of_def)

lemma sample_length: "query_length (sample_query l) = 10 * 2 ^ 32"
  by (simp add: query_length_def sample_query_def BWLNum64Add_def unat_BWLULongToNum64)

lemma sample_schedulable: "schedulable (sample_time 200) (sample_query l) (open_slots [sample_slot] sample_child)"
  by (simp add: schedulable_def slots_in_era_def in_era_def sample_earliest sample_length
      unat_BWLULongToNum64 BWLJAN_1970_def sample_slot_def slot_ok_def open_slots_def sample_child_def)

text \<open>The handler for this request over any tree of classes: only the event horizon matters.\<close>

lemma tree_search:
  assumes "GetLimit (ns ! Suc 0) BWLDLimEventHorizon = h"
  shows "ChldReservationDemand None ns (Some (sample_time 200)) (sample_ctx, slots, sample_child) (sample_query l) 0 =
    Some (demand_search sample_ctx slots sample_child
     \<lparr>r_tool = BWL_TOOL_PING, r_sid = [1, 2, 3, 4, 5, 6, 7, 8], r_restime = 0, r_start = 0, r_end = 0,
       r_fuzz = 0, r_sender = ''a'', r_receiver = ''b'', r_duration = 0, r_toolport = 0\<rparr>
     (tstamp (sample_time 200)) (q_rtime (sample_query l)) 0 (latest_start (tstamp (sample_time 200)) h l) 10 0)"
  by (simp add: ChldReservationDemand_def event_horizon_limit Let_def)
    (simp add: sample_child_def sample_query_def AllocReservation_def BWLToolInitTest_def sample_ctx_def
      BWLToolPing_def assms)

lemmas sample_search = tree_search [OF sample_horizon]

lemma sample_start:
  "initial_start (tstamp (sample_time 200)) (q_rtime (sample_query l)) 0 0 = BWLULongToNum64 (2208988800 + 1000)"
  using sample_earliest [of l] by (simp add: earliest_def sample_query_def)

text \<open>Without a latest time the request is granted; with second 500 as the latest it is denied.\<close>

lemma find_slot_no_limit: "find_slot ctx d 0 pre prev rest res \<noteq> Denied r"
  by (induction rest arbitrary: pre prev res)
    (auto simp: Let_def too_late_def split: sum.split prod.split)

lemma sample_granted:
  "\<exists>reply slots' cstate'. sample_demand [sample_slot] 0 = Some (reply, sample_ctx, slots', cstate') \<and> reply_ok reply"
  by (simp add: sample_search latest_start_def demand_search_def place_reservation_def too_late_def find_slot_no_limit
      del: find_slot.simps split: search.split)

lemma sample_denied:
  "\<exists>reply slots'. sample_demand [sample_slot] (BWLULongToNum64 (2208988800 + 500)) =
     Some (reply, sample_ctx, slots', sample_child) \<and> \<not> reply_ok reply \<and> \<not> reply_err reply \<and>
     reply_restime reply = BWLULongToNum64 (2208988800 + 1000)"
proof -
  have "too_late (BWLULongToNum64 (2208988800 + 500)) (BWLULongToNum64 (2208988800 + 1000))" by code_simp
  moreover have "sample_child\<lparr>ch_res := None\<rparr> = sample_child" by (simp add: sample_child_def)
  ultimately show ?thesis
    by (simp add: sample_search latest_start_def demand_search_def place_reservation_def initial_reservation_def
        sample_start Let_def BWLNum64Add_def DeleteReservation_def)
qed

section \<open>Properties of the scheduler\<close>

lemma window_nonempty:
  assumes "res_first res = win_first x" and "res_last res = win_last len x"
  shows "res_first res \<le> res_last res"
  using assms win_nonempty [of x len] by simp

text \<open>
  C3. A granted reservation is the first fit. It starts no earlier than the earliest start the
  daemon computed for the request; every slot its window overlaps can take it; and no earlier
  instant has that property. The answer carries the start of the test, one fuzz after the start
  of the window.
\<close>

theorem granted_first_fit:
  assumes "ChldReservationDemand rnd ns (Some now) (ctx, slots, cstate) q restime =
      Some (reply, ctx', slots', cstate')"
    and "reply_ok reply" and "schedulable now q (open_slots slots cstate)"
  shows "\<exists>res. ch_res cstate' = Some res \<and>
    reply_restime reply = BWLNum64Add (r_start res) (q_ftime q) \<and>
    unat (earliest now q) \<le> unat (r_start res) \<and>
    free_at ctx' res (open_slots slots cstate) (query_length q) (unat (r_start res)) \<and>
    (\<forall>x. unat (earliest now q) \<le> x \<and> x < unat (r_start res) \<longrightarrow>
      \<not> free_at ctx' res (open_slots slots cstate) (query_length q) x)"
  by (rule demand_outcome [OF assms(1) disjI1 [OF assms(2)] assms(3)]) (use assms(2) in auto)

theorem granted_first_fit_witness:
  "\<exists>reply ctx' slots' cstate' res. sample_demand [sample_slot] 0 = Some (reply, ctx', slots', cstate') \<and>
    ch_res cstate' = Some res \<and> free_at ctx' res [sample_slot] (10 * 2 ^ 32) (unat (r_start res))"
proof -
  obtain reply slots' cstate' where d: "sample_demand [sample_slot] 0 = Some (reply, sample_ctx, slots', cstate')"
    "reply_ok reply" using sample_granted by blast
  have "open_slots [sample_slot] sample_child = [sample_slot]" by (simp add: open_slots_def sample_child_def)
  then show ?thesis
    using d granted_first_fit [OF d sample_schedulable] by (fastforce simp: sample_length)
qed

lemma earliest_after_minstart:
  assumes "unat (minstart (tstamp now) (q_ftime q) (q_rtttime q)) + 2 ^ 32 < 2 ^ 64"
  shows "minstart (tstamp now) (q_ftime q) (q_rtttime q) \<le> earliest now q"
proof -
  let ?m = "minstart (tstamp now) (q_ftime q) (q_rtttime q)"
  have "unat (BWLULongToNum64 1) = 2 ^ 32" by (simp add: unat_BWLULongToNum64)
  then have "unat (?m + BWLULongToNum64 1) = unat ?m + 2 ^ 32"
    using assms by (simp add: unat_plus_noov)
  then have "?m \<le> ?m + BWLULongToNum64 1" by (simp add: word_le_nat_alt)
  then show ?thesis
    by (simp add: earliest_def initial_start_def BWLNum64Cmp_def BWLNum64Add_def not_less)
qed

text \<open>
  C8. A granted test starts no earlier than the minimum the handler computes (now, plus the fuzz, plus
  twice the round trip). When the request has a latest time, the test starts no later than that, and no
  later than the event horizon of the usage class when it has one; the exception is a horizon whose time
  wraps around to zero. A request with latest time zero has no such bound, and the event horizon is then
  not applied either (\<open>horizon_not_applied\<close>), contrary to the manual.
\<close>

theorem granted_within_time:
  assumes "ChldReservationDemand rnd ns (Some now) (ctx, slots, cstate) q restime =
      Some (reply, ctx', slots', cstate')"
    and "reply_ok reply" and "schedulable now q (open_slots slots cstate)"
    and "unat (minstart (tstamp now) (q_ftime q) (q_rtttime q)) + 2 ^ 32 < 2 ^ 64"
  shows "\<exists>res. ch_res cstate' = Some res \<and>
    minstart (tstamp now) (q_ftime q) (q_rtttime q) \<le> r_start res \<and>
    (let h = GetLimit (ns ! the (ch_node cstate)) BWLDLimEventHorizon;
         horizon = BWLNum64Add (tstamp now) (BWLI2numTToNum64 h) in
     q_ltime q \<noteq> 0 \<and> (h = 0 \<or> horizon \<noteq> 0) \<longrightarrow>
       r_restime res \<le> q_ltime q \<and> (h \<noteq> 0 \<longrightarrow> r_restime res \<le> horizon))"
proof (rule demand_outcome [OF assms(1) disjI1 [OF assms(2)] assms(3)])
  fix res
  assume e: "unat (earliest now q) \<le> unat (r_start res)"
    and o: "if reply_ok reply
      then placed ctx' res (open_slots slots cstate) slots' \<and> ch_res cstate' = Some res \<and>
        \<not> too_late (latest ns now q cstate) (r_restime res) \<and>
        free_at ctx' res (open_slots slots cstate) (query_length q) (unat (r_start res))
      else too_late (latest ns now q cstate) (r_restime res) \<and> ch_res cstate' = None \<and>
        slots' = ResRemove (open_slots slots cstate) res"
  have l: "latest ns now q cstate = 0 \<or> r_restime res \<le> latest ns now q cstate"
    using o assms(2) by (simp add: not_too_late)
  have "minstart (tstamp now) (q_ftime q) (q_rtttime q) \<le> r_start res"
    using earliest_after_minstart [OF assms(4)] e by (simp add: word_le_nat_alt)
  then show ?thesis
    using o assms(2) l
    by (auto simp: Let_def latest_def latest_start_def BWLNum64Min_def split: if_splits)
qed

text \<open>
  The guest class with an event horizon of 900 and of 300 seconds. It is second 200 and the test is asked
  for second 1000, with second 1500 as the latest start or without one.
\<close>

definition horizon_tree :: "BWLDLimitT \<Rightarrow> nodes" where
  "horizon_tree h = [sample_tree ! 0, (sample_tree ! 1)\<lparr>limits := [LimRec BWLDLimEventHorizon h], used := [LimRec BWLDLimEventHorizon 0]\<rparr>]"

lemma horizon_tree_limit: "GetLimit (horizon_tree h ! Suc 0) BWLDLimEventHorizon = h"
  by (simp add: horizon_tree_def GetLimit_def)

abbreviation horizon_demand :: "BWLDLimitT \<Rightarrow> BWLNum64 \<Rightarrow> (demand_reply \<times> sched) option" where
  "horizon_demand h l \<equiv> ChldReservationDemand None (horizon_tree h) (Some (sample_time 200))
     (sample_ctx, [], sample_child) (sample_query l) 0"

lemma horizon_granted:
  assumes "\<not> too_late (latest_start (tstamp (sample_time 200)) h l) (BWLULongToNum64 (2208988800 + 1000))"
  shows "\<exists>reply slots' cstate'. horizon_demand h l = Some (reply, sample_ctx, slots', cstate') \<and> reply_ok reply \<and>
    reply_restime reply = BWLULongToNum64 (2208988800 + 1000)"
  using assms
  by (simp add: tree_search [OF horizon_tree_limit] demand_search_def place_reservation_def initial_reservation_def
      sample_start Let_def BWLNum64Add_def)

lemma sample_schedulable_empty: "schedulable (sample_time 200) (sample_query l) (open_slots [] sample_child)"
  using sample_schedulable [of l] by (simp add: schedulable_def slots_in_era_def slots_ok_def open_slots_def sample_child_def)

lemma horizon_not_applied:
  "\<exists>reply slots' cstate'. horizon_demand 300 0 = Some (reply, sample_ctx, slots', cstate') \<and> reply_ok reply \<and>
     BWLNum64Add (tstamp (sample_time 200)) (BWLI2numTToNum64 300) < reply_restime reply"
proof -
  have "\<not> too_late (latest_start (tstamp (sample_time 200)) 300 0) (BWLULongToNum64 (2208988800 + 1000))"
    "BWLNum64Add (tstamp (sample_time 200)) (BWLI2numTToNum64 300) < BWLULongToNum64 (2208988800 + 1000)" by code_simp+
  then show ?thesis using horizon_granted [of 300 0] by auto
qed

theorem granted_within_time_witness:
  "\<exists>reply ctx' slots' cstate' res. horizon_demand 900 (BWLULongToNum64 (2208988800 + 1500)) = Some (reply, ctx', slots', cstate') \<and>
    ch_res cstate' = Some res \<and> minstart (tstamp (sample_time 200)) 0 0 \<le> r_start res \<and>
    r_restime res \<le> BWLULongToNum64 (2208988800 + 1500) \<and>
    r_restime res \<le> BWLNum64Add (tstamp (sample_time 200)) (BWLI2numTToNum64 900)"
proof -
  let ?l = "BWLULongToNum64 (2208988800 + 1500)"
  have n: "\<not> too_late (latest_start (tstamp (sample_time 200)) 900 ?l) (BWLULongToNum64 (2208988800 + 1000))"
    "BWLNum64Add (tstamp (sample_time 200)) (BWLI2numTToNum64 900) \<noteq> 0" "?l \<noteq> 0" by code_simp+
  obtain reply slots' cstate' where d: "horizon_demand 900 ?l = Some (reply, sample_ctx, slots', cstate')" "reply_ok reply"
    using horizon_granted [OF n(1)] by blast
  have q: "q_ftime (sample_query l) = 0" "q_rtttime (sample_query l) = 0" "q_ltime (sample_query l) = l" for l
    by (simp_all add: sample_query_def)
  have c: "the (ch_node sample_child) = Suc 0" by (simp add: sample_child_def)
  have "minstart (tstamp (sample_time 200)) 0 0 = BWLULongToNum64 (2208988800 + 200)" by code_simp
  then have m: "unat (minstart (tstamp (sample_time 200)) 0 0) + 2 ^ 32 < 2 ^ 64"
    by (simp add: unat_BWLULongToNum64)
  show ?thesis
    using granted_within_time [OF d sample_schedulable_empty, unfolded q c horizon_tree_limit Let_def, OF m] n d(1)
    by auto
qed

text \<open>
  C4. What a granted reservation books. The slots stay sorted, disjoint and within their
  capacity, and every second of the window gets one more reservation, no other second changes.
  The exception is a second that lies strictly between two overlapped slots and in none of
  them: the code fills the window before the first and after the last overlapped slot, but not
  in between, so there the reservation is not recorded.
\<close>

theorem granted_books_window:
  assumes "ChldReservationDemand rnd ns (Some now) (ctx, slots, cstate) q restime =
      Some (reply, ctx', slots', cstate')"
    and "reply_ok reply" and "schedulable now q (open_slots slots cstate)"
  shows "\<exists>res. ch_res cstate' = Some res \<and> slots_ok slots' \<and>
    (\<forall>t. booked slots' t = booked (open_slots slots cstate) t +
      (if res_first res \<le> t \<and> t \<le> res_last res \<and> \<not> interior_gap (open_slots slots cstate) res t
       then 1 else 0))"
proof (rule demand_outcome [OF assms(1) disjI1 [OF assms(2)] assms(3)])
  fix res
  assume w: "res_first res = win_first (unat (r_start res))"
      "res_last res = win_last (query_length q) (unat (r_start res))"
    and "if reply_ok reply
      then placed ctx' res (open_slots slots cstate) slots' \<and> ch_res cstate' = Some res \<and>
        \<not> too_late (latest ns now q cstate) (r_restime res) \<and>
        free_at ctx' res (open_slots slots cstate) (query_length q) (unat (r_start res))
      else too_late (latest ns now q cstate) (r_restime res) \<and> ch_res cstate' = None \<and>
        slots' = ResRemove (open_slots slots cstate) res"
  then have p: "placed ctx' res (open_slots slots cstate) slots'" "ch_res cstate' = Some res"
    using assms(2) by simp_all
  have ok: "slots_ok (open_slots slots cstate)" using assms(3) by (simp add: schedulable_def)
  note w' = window_nonempty [OF w]
  show ?thesis
    using p(2) placed_ok [OF ok w' p(1)] placed_booked [OF ok w' p(1)] by auto
qed

theorem granted_books_window_witness:
  "\<exists>reply ctx' slots' cstate'. sample_demand [sample_slot] 0 = Some (reply, ctx', slots', cstate') \<and>
    slots_ok slots'"
proof -
  obtain reply slots' cstate' where d: "sample_demand [sample_slot] 0 = Some (reply, sample_ctx, slots', cstate')"
    "reply_ok reply" using sample_granted by blast
  then show ?thesis using granted_books_window [OF d sample_schedulable] by blast
qed

text \<open>
  C5. A request is denied only when it cannot be met: no start from the earliest one on is both
  free and early enough for the test to begin by the latest time.
\<close>

theorem denied_only_if_no_start_fits:
  assumes "ChldReservationDemand rnd ns (Some now) (ctx, slots, cstate) q restime =
      Some (reply, ctx', slots', cstate')"
    and "\<not> reply_ok reply" and "\<not> reply_err reply" and "schedulable now q (open_slots slots cstate)"
  shows "latest ns now q cstate \<noteq> 0 \<and>
    (\<forall>res x. r_tool res = requested_tool q cstate \<and> unat (earliest now q) \<le> x \<and>
      free_at ctx' res (open_slots slots cstate) (query_length q) x \<longrightarrow>
      unat (latest ns now q cstate) < x + unat (q_ftime q))"
proof (rule demand_outcome [OF assms(1) disjI2 [OF assms(3)] assms(4)])
  fix res
  assume era: "in_era (query_length q) (unat (r_start res))"
    and b: "\<forall>x. unat (earliest now q) \<le> x \<and> x < unat (r_start res) \<longrightarrow>
        \<not> free_at ctx' res (open_slots slots cstate) (query_length q) x"
    and rt: "r_restime res = BWLNum64Add (r_start res) (q_ftime q)"
    and tool: "r_tool res = requested_tool q cstate"
    and "if reply_ok reply
      then placed ctx' res (open_slots slots cstate) slots' \<and> ch_res cstate' = Some res \<and>
        \<not> too_late (latest ns now q cstate) (r_restime res) \<and>
        free_at ctx' res (open_slots slots cstate) (query_length q) (unat (r_start res))
      else too_late (latest ns now q cstate) (r_restime res) \<and> ch_res cstate' = None \<and>
        slots' = ResRemove (open_slots slots cstate) res"
  then have late: "latest ns now q cstate \<noteq> 0" "latest ns now q cstate < r_restime res"
    using assms(2) not_too_late [of "latest ns now q cstate" "r_restime res"] by auto
  have "unat (r_restime res) = unat (r_start res) + unat (q_ftime q)"
    unfolding rt BWLNum64Add_def using era
    by (intro unat_plus_noov) (simp add: in_era_def query_length_def)
  then have "unat (latest ns now q cstate) < unat (r_start res) + unat (q_ftime q)"
    using late(2) by (simp add: word_less_nat_alt)
  moreover have same: "free_at ctx' r = free_at ctx' res" if "r_tool r = r_tool res" for r
    using that by (intro ext) (simp add: free_at_def ReservationCanUseSlot_def)
  ultimately have "unat (latest ns now q cstate) < x + unat (q_ftime q)"
    if "r_tool r = r_tool res" "unat (earliest now q) \<le> x"
      "free_at ctx' r (open_slots slots cstate) (query_length q) x" for r x
    using b that by (metis add_le_mono1 le_less_trans not_le order_less_le_trans)
  then show ?thesis using late(1) tool by auto
qed

theorem denied_only_if_no_start_fits_witness:
  "\<exists>reply ctx' slots' cstate'. sample_demand [sample_slot] (BWLULongToNum64 (2208988800 + 500)) =
      Some (reply, ctx', slots', cstate') \<and>
    latest sample_tree (sample_time 200) (sample_query (BWLULongToNum64 (2208988800 + 500))) sample_child \<noteq> 0"
proof -
  obtain reply slots' where d: "sample_demand [sample_slot] (BWLULongToNum64 (2208988800 + 500)) =
      Some (reply, sample_ctx, slots', sample_child)" "\<not> reply_ok reply" "\<not> reply_err reply"
    using sample_denied by blast
  then show ?thesis using denied_only_if_no_start_fits [OF d sample_schedulable] by blast
qed

text \<open>
  Completing a test undoes its reservation: after a grant, the completion message with the
  same session identifier is accepted, the child holds no reservation any more, and every second
  is booked as before the grant.
\<close>

lemma complete_restores_booking:
  assumes "ChldReservationDemand rnd ns (Some now) (ctx, slots, cstate) q restime =
      Some (reply, ctx', slots', cstate')"
    and "reply_ok reply" and "schedulable now q (open_slots slots cstate)"
  shows "\<exists>slots2. ChldReservationComplete slots' cstate' (q_sid q) = (True, slots2, cstate'\<lparr>ch_res := None\<rparr>) \<and>
    (\<forall>t. booked slots2 t = booked (open_slots slots cstate) t)"
proof (rule demand_outcome [OF assms(1) disjI1 [OF assms(2)] assms(3)])
  fix res
  assume w: "res_first res = win_first (unat (r_start res))"
      "res_last res = win_last (query_length q) (unat (r_start res))"
    and sid: "take 8 (r_sid res) = take 8 (q_sid q)"
    and "if reply_ok reply
      then placed ctx' res (open_slots slots cstate) slots' \<and> ch_res cstate' = Some res \<and>
        \<not> too_late (latest ns now q cstate) (r_restime res) \<and>
        free_at ctx' res (open_slots slots cstate) (query_length q) (unat (r_start res))
      else too_late (latest ns now q cstate) (r_restime res) \<and> ch_res cstate' = None \<and>
        slots' = ResRemove (open_slots slots cstate) res"
  then have p: "placed ctx' res (open_slots slots cstate) slots'" "ch_res cstate' = Some res"
    using assms(2) by simp_all
  have ok: "slots_ok (open_slots slots cstate)" using assms(3) by (simp add: schedulable_def)
  have "ChldReservationComplete slots' cstate' (q_sid q) = (True, ResRemove slots' res, cstate'\<lparr>ch_res := None\<rparr>)"
    using p(2) sid by (simp add: ChldReservationComplete_def DeleteReservation_def same_sid_def)
  then show ?thesis using placed_removed [OF ok window_nonempty [OF w] p(1)] by auto
qed

lemma complete_restores_booking_example:
  "\<exists>reply ctx' slots' cstate' slots2. sample_demand [sample_slot] 0 = Some (reply, ctx', slots', cstate') \<and>
    ChldReservationComplete slots' cstate' [1, 2, 3, 4, 5, 6, 7, 8] = (True, slots2, cstate'\<lparr>ch_res := None\<rparr>) \<and>
    booked slots2 1010 = 1"
proof -
  obtain reply slots' cstate' where d: "sample_demand [sample_slot] 0 = Some (reply, sample_ctx, slots', cstate')"
    "reply_ok reply" using sample_granted by blast
  have "q_sid (sample_query 0) = [1, 2, 3, 4, 5, 6, 7, 8]" by (simp add: sample_query_def)
  moreover have "booked (open_slots [sample_slot] sample_child) 1010 = 1"
    by (simp add: open_slots_def sample_child_def sample_slot_def covers_def)
  ultimately show ?thesis
    using d complete_restores_booking [OF d sample_schedulable] by fastforce
qed

text \<open>
  C10. A denied request takes a booking away from others. The code reaches \<open>denied\<close> before the
  reservation is in any slot, yet calls \<open>DeleteReservation\<close>, which removes it from every slot its
  window overlaps: each of those, booked by other clients, loses one reservation, and a slot that
  held just one disappears.
\<close>

lemma overlaps_has: "TimeSlotHasReservation s res = overlaps res s"
  by (auto simp: TimeSlotHasReservation_def overlaps_def)

lemma ResRemove_subset:
  "s \<in> set (ResRemove slots res) \<Longrightarrow> \<exists>s0 \<in> set slots. slot_start s = slot_start s0 \<and> slot_end s = slot_end s0"
  by (induction slots) (auto simp: Let_def TimeSlotRemoveReservation_def split: if_splits)

lemma ResRemove_ok: "slots_ok slots \<Longrightarrow> slots_ok (ResRemove slots res)"
proof (induction slots)
  case (Cons s slots)
  have "\<forall>y \<in> set (ResRemove slots res). slot_end s < slot_start y"
    using Cons.prems ResRemove_subset by fastforce
  then show ?case using Cons by (auto simp: Let_def TimeSlotRemoveReservation_def slot_ok_def)
qed simp

lemma booked_ResRemove:
  "slots_ok slots \<Longrightarrow> booked (ResRemove slots res) t = booked slots t -
    (if \<exists>s \<in> set slots. overlaps res s \<and> covers s t then 1 else 0)"
proof (induction slots)
  case (Cons s slots)
  have "\<not> (\<exists>y \<in> set slots. covers y t)" if "covers s t"
    using that Cons.prems by (fastforce simp: covers_def)
  then have excl: "covers s t \<Longrightarrow> \<not> (\<exists>y \<in> set slots. overlaps res y \<and> covers y t)" by blast
  show ?case
  proof (cases "covers s t")
    case True
    then show ?thesis using Cons excl
      by (auto simp: Let_def overlaps_has TimeSlotRemoveReservation_def covers_def)
  next
    case False
    then show ?thesis using Cons
      by (auto simp: Let_def overlaps_has TimeSlotRemoveReservation_def covers_def)
  qed
qed simp

theorem denied_removes_bookings:
  assumes "ChldReservationDemand rnd ns (Some now) (ctx, slots, cstate) q restime =
      Some (reply, ctx', slots', cstate')"
    and "\<not> reply_ok reply" and "\<not> reply_err reply" and "schedulable now q (open_slots slots cstate)"
  shows "let x = unat (reply_restime reply) - unat (q_ftime q) in
    \<forall>t. booked slots' t = booked (open_slots slots cstate) t -
      (if \<exists>s \<in> set (open_slots slots cstate). win_first x \<le> slot_end s \<and>
          slot_start s \<le> win_last (query_length q) x \<and> covers s t then 1 else 0)"
proof (rule demand_outcome [OF assms(1) disjI2 [OF assms(3)] assms(4)])
  fix res
  assume w: "res_first res = win_first (unat (r_start res))"
      "res_last res = win_last (query_length q) (unat (r_start res))"
    and era: "in_era (query_length q) (unat (r_start res))"
    and rt: "r_restime res = BWLNum64Add (r_start res) (q_ftime q)" "reply_restime reply = r_restime res"
    and "if reply_ok reply
      then placed ctx' res (open_slots slots cstate) slots' \<and> ch_res cstate' = Some res \<and>
        \<not> too_late (latest ns now q cstate) (r_restime res) \<and>
        free_at ctx' res (open_slots slots cstate) (query_length q) (unat (r_start res))
      else too_late (latest ns now q cstate) (r_restime res) \<and> ch_res cstate' = None \<and>
        slots' = ResRemove (open_slots slots cstate) res"
  then have s': "slots' = ResRemove (open_slots slots cstate) res" using assms(2) by simp
  have "unat (reply_restime reply) - unat (q_ftime q) = unat (r_start res)"
    using era unfolding rt BWLNum64Add_def
    by (subst unat_plus_noov) (simp_all add: in_era_def query_length_def)
  moreover have "slots_ok (open_slots slots cstate)" using assms(4) by (simp add: schedulable_def)
  note booked_ResRemove [OF this, of res]
  ultimately show ?thesis by (simp add: Let_def s' overlaps_def w conj_assoc)
qed

theorem denied_removes_bookings_witness:
  "\<exists>reply ctx' slots' cstate'. sample_demand [sample_slot] (BWLULongToNum64 (2208988800 + 500)) =
      Some (reply, ctx', slots', cstate') \<and> \<not> reply_ok reply \<and>
    booked [sample_slot] 1010 = 1 \<and> booked slots' 1010 = 0"
proof -
  obtain reply slots' where d: "sample_demand [sample_slot] (BWLULongToNum64 (2208988800 + 500)) =
      Some (reply, sample_ctx, slots', sample_child)" "\<not> reply_ok reply" "\<not> reply_err reply"
    and r: "reply_restime reply = BWLULongToNum64 (2208988800 + 1000)"
    using sample_denied by blast
  let ?x = "(2208988800 + 1000) * 2 ^ 32 :: nat"
  have x: "unat (reply_restime reply) - unat (q_ftime (sample_query l)) = ?x" for l
    by (simp add: r sample_query_def unat_BWLULongToNum64)
  have "win_first ?x = 1000" "win_last (10 * 2 ^ 32) ?x = 1011"
    by (simp_all add: win_first_def win_last_def BWLJAN_1970_def)
  moreover have "open_slots [sample_slot] sample_child = [sample_slot]" by (simp add: open_slots_def sample_child_def)
  ultimately have "booked slots' 1010 = booked [sample_slot] 1010 - 1"
    using denied_removes_bookings [OF d sample_schedulable, unfolded x Let_def sample_length]
    by (simp add: sample_slot_def covers_def)
  moreover have "booked [sample_slot] 1010 = 1" by (simp add: sample_slot_def covers_def)
  ultimately show ?thesis using d(1,2) by simp
qed

text \<open>
  C11. Splitting a slot forgets what kind of test it holds. When a test that is neither throughput
  nor latency (a traceroute) is placed in the middle of a slot that a throughput test occupies,
  the part after it can be used by a second throughput test, although the slot it was cut from
  could not.
\<close>

theorem split_forgets_throughput:
  assumes "slot_ok slot" and "slot_type slot = SLOT_BANDWIDTH"
    and "num_reservations slot < max_reservations slot"
    and "BWLToolGetTestTypesByID ctx (r_tool res) = BWL_TEST_TRACEROUTE"
    and "BWLToolGetTestTypesByID ctx (r_tool other) = BWL_TEST_THROUGHPUT"
    and "slot_start slot < res_first res" and "res_first res \<le> res_last res"
    and "res_last res < slot_end slot"
    and "res_last res < res_first other" and "res_last other \<le> slot_end slot"
  shows "placed ctx res [slot] (occupy ctx res [slot]) \<and> \<not> ReservationCanUseSlot ctx other slot \<and>
    (\<forall>s \<in> set (occupy ctx res [slot]). overlaps other s \<longrightarrow> ReservationCanUseSlot ctx other s)"
proof (intro conjI)
  show "placed ctx res [slot] (occupy ctx res [slot])"
    unfolding placed_def using assms
    by (intro exI [of _ "[]"] exI [of _ "[slot]"])
      (auto simp: overlaps_def ReservationCanUseSlot_def test_type_defs)
  show "\<not> ReservationCanUseSlot ctx other slot"
    using assms by (simp add: ReservationCanUseSlot_def)
  show "\<forall>s \<in> set (occupy ctx res [slot]). overlaps other s \<longrightarrow> ReservationCanUseSlot ctx other s"
    using assms
    by (auto simp: occupy_def cut_first_def cut_last_def TimeSlotSplit_def overlaps_def
        ReservationCanUseSlot_def)
qed

theorem split_forgets_throughput_witness:
  "\<exists>ctx res other slot. slot_type slot = SLOT_BANDWIDTH \<and> \<not> ReservationCanUseSlot ctx other slot \<and>
    (\<forall>s \<in> set (occupy ctx res [slot]). overlaps other s \<longrightarrow> ReservationCanUseSlot ctx other s)"
proof -
  let ?ctx = "sample_ctx\<lparr>tool_list := [(BWL_TOOL_IPERF, BWLToolIperf), (BWL_TOOL_TRACEROUTE, BWLToolTraceroute)]\<rparr>"
  let ?slot = "sample_slot\<lparr>slot_type := SLOT_BANDWIDTH, slot_start := 100, slot_end := 200\<rparr>"
  let ?at = "\<lambda>tool a b. \<lparr>r_tool = tool, r_sid = [], r_restime = 0, r_start = BWLTimestampToNum64 a,
    r_end = BWLTimestampToNum64 b, r_fuzz = 0, r_sender = [], r_receiver = [], r_duration = 0, r_toolport = 0\<rparr>"
  have t: "BWLNum64ToTimestamp (BWLTimestampToNum64 150) = 150" "BWLNum64ToTimestamp (BWLTimestampToNum64 160) = 160"
    "BWLNum64ToTimestamp (BWLTimestampToNum64 170) = 170" "BWLNum64ToTimestamp (BWLTimestampToNum64 180) = 180"
    by (simp_all add: BWLNum64ToTimestamp_eq unat_BWLTimestampToNum64 BWLJAN_1970_def)
  have "\<not> ReservationCanUseSlot ?ctx (?at BWL_TOOL_IPERF 170 180) ?slot \<and>
    (\<forall>s \<in> set (occupy ?ctx (?at BWL_TOOL_TRACEROUTE 150 160) [?slot]).
       overlaps (?at BWL_TOOL_IPERF 170 180) s \<longrightarrow> ReservationCanUseSlot ?ctx (?at BWL_TOOL_IPERF 170 180) s)"
    using split_forgets_throughput [of ?slot ?ctx "?at BWL_TOOL_TRACEROUTE 150 160" "?at BWL_TOOL_IPERF 170 180"]
    by (simp add: res_first_def res_last_def t slot_ok_def sample_slot_def BWLToolGetTestTypesByID_def
        tool_id_defs BWLToolIperf_def BWLToolTraceroute_def)
  then show ?thesis by (intro exI) auto
qed

end
