(* ===== verification/PolicyIpc.thy ===== *)
theory PolicyIpc
  imports Timeslots
begin

text \<open>
  The messages between a child process and the resource broker in the parent
  (\<open>BWLDSendResponse\<close> to \<open>BWLDSendTestComplete\<close> of \<open>bwctld/policy.c\<close>). All integers are in host
  byte order, the parameter \<open>e\<close>. A writer is a function to bytes (its buffer is filled completely,
  so the buffer is the concatenation of its fields); a reader takes the bytes available on the
  socket and returns what it read and the bytes left. The last part of a writer, waiting for the
  answer, is \<open>BWLDReadResponse\<close> or \<open>BWLDReadReservationResponse\<close> on the parent's answer.
  Failing writes are left out.
\<close>

section \<open>Fields\<close>

abbreviation (input) BWLDMESGMARK :: BWLDMesgT where "BWLDMESGMARK \<equiv> 0xfefefefe"
abbreviation (input) BWLDMESGCLASS :: BWLDMesgT where "BWLDMESGCLASS \<equiv> 0xcdef"
abbreviation (input) BWLDMESGRESOURCE :: BWLDMesgT where "BWLDMESGRESOURCE \<equiv> 0xbeef"
abbreviation (input) BWLDMESGRESERVATION :: BWLDMesgT where "BWLDMESGRESERVATION \<equiv> 0xdeadbeef"
abbreviation (input) BWLDMESGCOMPLETE :: BWLDMesgT where "BWLDMESGCOMPLETE \<equiv> 0xabcdefab"
abbreviation (input) BWLDMESGINVALID :: BWLDMesgT where "BWLDMESGINVALID \<equiv> 0"
abbreviation (input) BWLDMESGOK :: BWLDMesgT where "BWLDMESGOK \<equiv> 1"
abbreviation (input) BWLDMESGDENIED :: BWLDMesgT where "BWLDMESGDENIED \<equiv> 2"

definition BWLDMAXCLASSLEN :: nat where "BWLDMAXCLASSLEN = 80"

definition put16 :: "endian \<Rightarrow> u16 \<Rightarrow> u8 list" where "put16 e w = host_bytes e 2 (unat w)"
definition put32 :: "endian \<Rightarrow> u32 \<Rightarrow> u8 list" where "put32 e w = host_bytes e 4 (unat w)"
definition put64 :: "endian \<Rightarrow> u64 \<Rightarrow> u8 list" where "put64 e w = host_bytes e 8 (unat w)"

definition get16 :: "endian \<Rightarrow> nat \<Rightarrow> u8 list \<Rightarrow> u16" where
  "get16 e off buf = of_nat (host_nat e (slice off 2 buf))"
definition get32 :: "endian \<Rightarrow> nat \<Rightarrow> u8 list \<Rightarrow> u32" where
  "get32 e off buf = of_nat (host_nat e (slice off 4 buf))"
definition get64 :: "endian \<Rightarrow> nat \<Rightarrow> u8 list \<Rightarrow> u64" where
  "get64 e off buf = of_nat (host_nat e (slice off 8 buf))"

text \<open>C strings in a field of fixed size, and read back up to the first NUL.\<close>

definition char_byte :: "char \<Rightarrow> u8" where "char_byte c = of_nat (of_char c)"
definition byte_char :: "u8 \<Rightarrow> char" where "byte_char b = char_of (unat b)"

definition put_cstr :: "nat \<Rightarrow> string \<Rightarrow> u8 list" where
  "put_cstr n s = map char_byte (take (n - 1) s) @ replicate (n - length (take (n - 1) s)) 0"

definition get_cstr :: "u8 list \<Rightarrow> string" where
  "get_cstr bs = map byte_char (takeWhile (\<lambda>b. b \<noteq> 0) bs)"

definition cstr_ok :: "nat \<Rightarrow> string \<Rightarrow> bool" where
  "cstr_ok n s = (length s < n \<and> (\<forall>c \<in> set s. char_byte c \<noteq> 0))"

section \<open>Answers of the parent\<close>

definition BWLDSendResponse :: "endian \<Rightarrow> BWLDMesgT \<Rightarrow> u8 list" where
  "BWLDSendResponse e mesg = put32 e BWLDMESGMARK @ put32 e mesg @ put32 e BWLDMESGMARK"

definition parse_response :: "endian \<Rightarrow> u8 list \<Rightarrow> BWLDMesgT" where
  "parse_response e buf =
    (if get32 e 0 buf \<noteq> BWLDMESGMARK \<or> get32 e 8 buf \<noteq> BWLDMESGMARK then BWLDMESGINVALID
     else get32 e 4 buf)"

definition BWLDReadResponse :: "endian \<Rightarrow> u8 list \<Rightarrow> BWLDMesgT \<times> u8 list" where
  "BWLDReadResponse e s = (case read_n 12 s of None \<Rightarrow> (BWLDMESGINVALID, [])
     | Some (buf, rest) \<Rightarrow> (parse_response e buf, rest))"

definition BWLDSendReservationResponse :: "endian \<Rightarrow> BWLDMesgT \<times> BWLNum64 \<times> u16 \<Rightarrow> u8 list" where
  "BWLDSendReservationResponse e r = (case r of (mesg, reservation, toolport) \<Rightarrow>
     put32 e BWLDMESGMARK @ put32 e mesg @ put64 e reservation @ put16 e toolport @ [0, 0] @
     put32 e BWLDMESGMARK)"

definition parse_reservation_response :: "endian \<Rightarrow> u8 list \<Rightarrow> (BWLDMesgT \<times> BWLNum64 \<times> u16) option" where
  "parse_reservation_response e buf =
    (if get32 e 0 buf \<noteq> BWLDMESGMARK \<or> get32 e 20 buf \<noteq> BWLDMESGMARK then None
     else Some (get32 e 4 buf, get64 e 8 buf, get16 e 16 buf))"

text \<open>A bad or short answer leaves the two output parameters as they were.\<close>

definition BWLDReadReservationResponse ::
  "endian \<Rightarrow> u8 list \<Rightarrow> BWLNum64 \<Rightarrow> u16 \<Rightarrow> (BWLDMesgT \<times> BWLNum64 \<times> u16) \<times> u8 list" where
  "BWLDReadReservationResponse e s restime port = (case read_n 24 s of
       None \<Rightarrow> ((BWLDMESGINVALID, restime, port), [])
     | Some (buf, rest) \<Rightarrow>
         (case parse_reservation_response e buf of
            None \<Rightarrow> ((BWLDMESGINVALID, restime, port), rest)
          | Some r \<Rightarrow> (r, rest)))"

section \<open>The class of a connection\<close>

definition BWLDSendClass :: "endian \<Rightarrow> string \<Rightarrow> u8 list" where
  "BWLDSendClass e name =
    put32 e BWLDMESGMARK @ put32 e BWLDMESGCLASS @ map char_byte name @ [0] @ put32 e BWLDMESGMARK"

text \<open>Bytes up to and including a NUL; \<open>None\<close> when the stream ends or \<open>k\<close> bytes have none.\<close>

fun read_name :: "nat \<Rightarrow> u8 list \<Rightarrow> (u8 list \<times> u8 list) option" where
  "read_name 0 s = None"
| "read_name (Suc k) [] = None"
| "read_name (Suc k) (b # s) =
    (if b = 0 then Some ([], s) else map_option (\<lambda>(n, r). (b # n, r)) (read_name k s))"

record class_reply =
  cr_node :: "nat option"
  cr_err :: bool
  cr_sent :: "u8 list"
  cr_rest :: "u8 list"

definition BWLDReadClass :: "endian \<Rightarrow> (string \<rightharpoonup> nat) \<Rightarrow> u8 list \<Rightarrow> class_reply" where
  "BWLDReadClass e limits_tab s =
    (let failed = \<lambda>rest. \<lparr>cr_node = None, cr_err = True, cr_sent = [], cr_rest = rest\<rparr> in
     case read_n 8 s of
       None \<Rightarrow> \<lparr>cr_node = None, cr_err = (s \<noteq> []), cr_sent = [], cr_rest = []\<rparr>
     | Some (hdr, s1) \<Rightarrow>
       if get32 e 0 hdr \<noteq> BWLDMESGMARK \<or> get32 e 4 hdr \<noteq> BWLDMESGCLASS then failed s1
       else (case read_name (BWLDMAXCLASSLEN + 1) s1 of
          None \<Rightarrow> failed []
        | Some (name, s2) \<Rightarrow>
          (case read_n 4 s2 of
             None \<Rightarrow> failed []
           | Some (trl, s3) \<Rightarrow>
             if get32 e 0 trl \<noteq> BWLDMESGMARK then failed s3
             else (case limits_tab (map byte_char name) of
                Some n \<Rightarrow> \<lparr>cr_node = Some n, cr_err = False, cr_sent = BWLDSendResponse e BWLDMESGOK, cr_rest = s3\<rparr>
              | None \<Rightarrow> \<lparr>cr_node = None, cr_err = True, cr_sent = BWLDSendResponse e BWLDMESGDENIED, cr_rest = s3\<rparr>))))"

section \<open>Requests of the child\<close>

text \<open>The result of \<open>BWLDReadReqType\<close>: \<open>*err\<close>, the request type or 0, the rest of the stream.\<close>

definition BWLDReadReqType :: "endian \<Rightarrow> u8 list \<Rightarrow> bool \<times> BWLDMesgT \<times> u8 list" where
  "BWLDReadReqType e s = (case read_n 8 s of
       None \<Rightarrow> (s \<noteq> [], 0, [])
     | Some (buf, rest) \<Rightarrow>
         if get32 e 0 buf \<noteq> BWLDMESGMARK then (True, 0, rest) else (False, get32 e 4 buf, rest))"

definition query_body :: "endian \<Rightarrow> BWLDMesgT \<times> BWLDLimRec \<Rightarrow> u8 list" where
  "query_body e q = (case q of (mesg, lm) \<Rightarrow>
     put32 e mesg @ put32 e (lim_limit lm) @ put64 e (lim_value lm) @ put32 e BWLDMESGMARK)"

definition BWLDQuery :: "endian \<Rightarrow> BWLDMesgT \<Rightarrow> BWLDLimRec \<Rightarrow> u8 list" where
  "BWLDQuery e mesg lm = put32 e BWLDMESGMARK @ put32 e BWLDMESGRESOURCE @ query_body e (mesg, lm)"

definition parse_query :: "endian \<Rightarrow> u8 list \<Rightarrow> (BWLDMesgT \<times> BWLDLimRec) option" where
  "parse_query e buf =
    (if get32 e 16 buf \<noteq> BWLDMESGMARK then None
     else if get32 e 0 buf \<in> {BWLDMESGREQUEST, BWLDMESGRELEASE, BWLDMESGCLAIM}
     then Some (get32 e 0 buf, LimRec (get32 e 4 buf) (get64 e 8 buf)) else None)"

definition read_body :: "nat \<Rightarrow> (u8 list \<Rightarrow> 'a option) \<Rightarrow> u8 list \<Rightarrow> 'a option \<times> u8 list" where
  "read_body n p s = (case read_n n s of None \<Rightarrow> (None, []) | Some (buf, rest) \<Rightarrow> (p buf, rest))"

definition BWLDReadQuery :: "endian \<Rightarrow> u8 list \<Rightarrow> (BWLDMesgT \<times> BWLDLimRec) option \<times> u8 list" where
  "BWLDReadQuery e = read_body 20 (parse_query e)"

definition reservation_body :: "endian \<Rightarrow> reservation_query \<Rightarrow> u8 list" where
  "reservation_body e q =
    q_sid q @ put64 e (q_rtime q) @ put64 e (q_ftime q) @ put64 e (q_ltime q) @
    put32 e (q_duration q) @ put64 e (q_rtttime q) @ put16 e (q_toolport q) @ [0, 0] @
    put32 e (q_tool q) @ put_cstr 46 (q_sender q) @ put_cstr 46 (q_receiver q) @ put32 e BWLDMESGMARK"

definition BWLDReservationQuery :: "endian \<Rightarrow> reservation_query \<Rightarrow> u8 list" where
  "BWLDReservationQuery e q =
    put32 e BWLDMESGMARK @ put32 e BWLDMESGRESERVATION @ reservation_body e q"

definition parse_reservation :: "endian \<Rightarrow> u8 list \<Rightarrow> reservation_query option" where
  "parse_reservation e buf =
    (if get32 e 152 buf \<noteq> BWLDMESGMARK then None
     else Some \<lparr>q_sid = slice 0 16 buf, q_rtime = get64 e 16 buf, q_ftime = get64 e 24 buf,
       q_ltime = get64 e 32 buf, q_duration = get32 e 40 buf, q_rtttime = get64 e 44 buf,
       q_toolport = get16 e 52 buf, q_tool = get32 e 56 buf,
       q_sender = get_cstr (slice 60 46 buf), q_receiver = get_cstr (slice 106 46 buf)\<rparr>)"

definition BWLDReadReservationQuery :: "endian \<Rightarrow> u8 list \<Rightarrow> reservation_query option \<times> u8 list" where
  "BWLDReadReservationQuery e = read_body 156 (parse_reservation e)"

type_synonym BWLAcceptType = u32

definition complete_body :: "endian \<Rightarrow> BWLSID \<times> BWLAcceptType \<Rightarrow> u8 list" where
  "complete_body e c = (case c of (sid, aval) \<Rightarrow> sid @ put32 e aval @ put32 e BWLDMESGMARK)"

definition BWLDSendTestComplete :: "endian \<Rightarrow> BWLSID \<Rightarrow> BWLAcceptType \<Rightarrow> u8 list" where
  "BWLDSendTestComplete e sid aval =
    put32 e BWLDMESGMARK @ put32 e BWLDMESGCOMPLETE @ complete_body e (sid, aval)"

definition parse_complete :: "endian \<Rightarrow> u8 list \<Rightarrow> (BWLSID \<times> BWLAcceptType) option" where
  "parse_complete e buf =
    (if get32 e 20 buf \<noteq> BWLDMESGMARK then None else Some (slice 0 16 buf, get32 e 16 buf))"

definition BWLDReadTestComplete :: "endian \<Rightarrow> u8 list \<Rightarrow> (BWLSID \<times> BWLAcceptType) option \<times> u8 list" where
  "BWLDReadTestComplete e = read_body 24 (parse_complete e)"

section \<open>Fields read back\<close>

lemma length_put [simp]: "length (put16 e a) = 2" "length (put32 e b) = 4" "length (put64 e c) = 8"
  by (simp_all add: put16_def put32_def put64_def)

lemma length_put_cstr [simp]: "0 < n \<Longrightarrow> length (put_cstr n s) = n"
  by (simp add: put_cstr_def)

lemma host_nat_put [simp]:
  "host_nat e (put16 e a) = unat a" "host_nat e (put32 e b) = unat b" "host_nat e (put64 e c) = unat c"
  by (simp_all add: put16_def put32_def put64_def buf_simps)

lemma char_byte_inv [simp]: "byte_char (char_byte c) = c"
  by (simp add: char_byte_def byte_char_def unat_of_nat)

lemma byte_char_inv [simp]: "char_byte (byte_char b) = b"
  using unat_u8_bound [of b] by (simp add: char_byte_def byte_char_def)

lemma get_put_cstr [simp]: "0 < n \<Longrightarrow> cstr_ok n s \<Longrightarrow> get_cstr (put_cstr n s) = s"
proof -
  assume "0 < n" and s: "cstr_ok n s"
  then have l: "length s \<le> n - 1" unfolding cstr_ok_def by linarith
  have "takeWhile (\<lambda>b. b \<noteq> 0) (map char_byte s @ replicate (n - length s) 0) = map char_byte s"
    using s by (subst takeWhile_append2) (auto simp: cstr_ok_def takeWhile_eq_Nil_iff)
  then show ?thesis using l by (simp add: get_cstr_def put_cstr_def comp_def)
qed

lemmas get_defs = get16_def get32_def get64_def

text \<open>The three kinds of answers and requests as codecs of fixed width.\<close>

interpretation response: fixed_codec "BWLDSendResponse e" "\<lambda>buf. Some (parse_response e buf)" 12 "\<lambda>x. x" "\<lambda>_. True" for e
  by unfold_locales (simp_all add: BWLDSendResponse_def parse_response_def get_defs buf_simps)

interpretation reservation_response: fixed_codec "BWLDSendReservationResponse e" "parse_reservation_response e" 24
  "\<lambda>x. x" "\<lambda>_. True" for e
  by unfold_locales
    (auto simp: BWLDSendReservationResponse_def parse_reservation_response_def get_defs buf_simps
      split: prod.split)

definition query_ok :: "BWLDMesgT \<times> BWLDLimRec \<Rightarrow> bool" where
  "query_ok q = (fst q \<in> {BWLDMESGREQUEST, BWLDMESGRELEASE, BWLDMESGCLAIM})"

interpretation query: fixed_codec "query_body e" "parse_query e" 20 "\<lambda>x. x" query_ok for e
  by unfold_locales
    (auto simp: query_ok_def query_body_def parse_query_def get_defs buf_simps split: prod.split)

definition reservation_ok :: "reservation_query \<Rightarrow> bool" where
  "reservation_ok q = (length (q_sid q) = 16 \<and> cstr_ok 46 (q_sender q) \<and> cstr_ok 46 (q_receiver q))"

interpretation reservation: fixed_codec "reservation_body e" "parse_reservation e" 156 "\<lambda>x. x" reservation_ok for e
  by unfold_locales
    (simp_all add: reservation_ok_def reservation_body_def parse_reservation_def get_defs buf_simps)

interpretation complete: fixed_codec "complete_body e" "parse_complete e" 24 "\<lambda>x. x" "\<lambda>c. length (fst c) = 16" for e
  by unfold_locales
    (auto simp: complete_body_def parse_complete_def get_defs buf_simps split: prod.split)

end
