(* ===== verification/Broker.thy ===== *)
theory Broker
  imports PolicyIpc
begin

text \<open>
  The resource broker in the parent daemon (\<open>AllocChldState\<close> to \<open>ClosePipes\<close> of
  \<open>bwctld/bwctld.c\<close>): the two hash tables of child records, the dispatch of one message of a
  child (\<open>CheckFD\<close>) and the clean-up after a child's exit.

  A child record is an entry of a store, \<open>heap\<close>; \<open>fdtable\<close> and \<open>pidtable\<close> hold the addresses, as
  the C tables hold the pointer. The hash table of I2util is a finite map: storing under a
  key replaces, deleting removes. \<open>select\<close>, \<open>fork\<close> and the descriptor sets are left out: a
  step is one message arriving from one child, one new child, or one exited child.
  \<open>broker_ledger\<close> has the same steps with the ledger of theory \<open>PolicyTree\<close> beside the state.
\<close>

section \<open>State\<close>

record broker =
  b_ctx :: BWLContext
  b_slots :: "TimeSlot list"
  b_nodes :: nodes
  b_classes :: "string \<rightharpoonup> nat"
  heap :: "nat \<rightharpoonup> ChldState"
  fdtable :: "int \<rightharpoonup> nat"
  pidtable :: "int \<rightharpoonup> nat"

definition AllocChldState :: "broker \<Rightarrow> nat \<Rightarrow> int \<Rightarrow> int \<Rightarrow> broker" where
  "AllocChldState b a pid fd =
    b\<lparr>heap := (heap b)(a \<mapsto> \<lparr>ch_pid = pid, ch_fd = fd, ch_node = None, ch_res = None\<rparr>),
      pidtable := (pidtable b)(pid \<mapsto> a), fdtable := (fdtable b)(fd \<mapsto> a)\<rparr>"

definition FreeChldState :: "broker \<Rightarrow> nat \<Rightarrow> ChldState \<Rightarrow> broker" where
  "FreeChldState b a cstate =
    (let b1 = (if 0 \<le> ch_fd cstate then b\<lparr>fdtable := (fdtable b)(ch_fd cstate := None)\<rparr> else b);
         b2 = b1\<lparr>pidtable := (pidtable b1)(ch_pid cstate := None)\<rparr>
     in b2\<lparr>b_slots := fst (DeleteReservation (b_slots b2) cstate), heap := (heap b2)(a := None)\<rparr>)"

text \<open>
  One round of the \<open>waitpid\<close> loop of \<open>ReapChildren\<close>. For a pid that is not in the table the code
  logs and goes on with an unset pointer: that is \<open>None\<close>.
\<close>

definition reap_one :: "broker \<Rightarrow> int \<Rightarrow> broker option" where
  "reap_one b child =
    (case pidtable b child of None \<Rightarrow> None
     | Some a \<Rightarrow> (case heap b a of None \<Rightarrow> None | Some cstate \<Rightarrow> Some (FreeChldState b a cstate)))"

fun ReapChildren :: "broker \<Rightarrow> int list \<Rightarrow> broker option" where
  "ReapChildren b [] = Some b"
| "ReapChildren b (child # rest) =
    (case reap_one b child of None \<Rightarrow> None | Some b' \<Rightarrow> ReapChildren b' rest)"

definition ClosePipes :: "broker \<Rightarrow> int \<Rightarrow> nat \<Rightarrow> ChldState \<Rightarrow> broker" where
  "ClosePipes b key a cstate =
    b\<lparr>fdtable := (fdtable b)(key := None), heap := (heap b)(a \<mapsto> cstate\<lparr>ch_fd := -1\<rparr>)\<rparr>"

section \<open>One message of a child\<close>

record outcome =
  o_ctx :: BWLContext
  o_slots :: "TimeSlot list"
  o_nodes :: nodes
  o_child :: ChldState
  o_sent :: "u8 list"
  o_rest :: "u8 list"
  o_kill :: bool

text \<open>
  \<open>CheckFD\<close> for a descriptor that is ready. \<open>None\<close> is the daemon not returning (the port search
  of a tool) or its \<open>assert\<close>; \<open>o_kill\<close> is the final \<open>if(err)\<close>, which sends \<open>SIGTERM\<close>.
\<close>

definition CheckFD ::
  "endian \<Rightarrow> u16 option \<Rightarrow> BWLTimeStamp option \<Rightarrow> broker \<Rightarrow> ChldState \<Rightarrow> u8 list \<Rightarrow> outcome option" where
  "CheckFD e rnd currtime b cstate s =
    (let out = \<lambda>cs sent rest err. \<lparr>o_ctx = b_ctx b, o_slots = b_slots b, o_nodes = b_nodes b,
           o_child = cs, o_sent = sent, o_rest = rest, o_kill = err\<rparr> in
     if ch_node cstate = None then
       (let r = BWLDReadClass e (b_classes b) s
        in Some (out (cstate\<lparr>ch_node := cr_node r\<rparr>) (cr_sent r) (cr_rest r) (cr_err r)))
     else (case BWLDReadReqType e s of (err, req, s1) \<Rightarrow>
       if req = BWLDMESGRESOURCE then
         (case BWLDReadQuery e s1 of
            (None, rest) \<Rightarrow> Some (out cstate [] rest True)
          | (Some (query, lm), rest) \<Rightarrow>
            (case BWLDResourceDemand (b_nodes b) (the (ch_node cstate)) query lm of
               None \<Rightarrow> None
             | Some (ok, ns) \<Rightarrow> Some ((out cstate
                 (BWLDSendResponse e (if ok then BWLDMESGOK else BWLDMESGDENIED)) rest False)
                 \<lparr>o_nodes := ns\<rparr>)))
       else if req = BWLDMESGRESERVATION then
         (case BWLDReadReservationQuery e s1 of
            (None, rest) \<Rightarrow> Some (out cstate [] rest True)
          | (Some q, rest) \<Rightarrow>
            (case ChldReservationDemand rnd (b_nodes b) currtime (b_ctx b, b_slots b, cstate) q 0 of
               None \<Rightarrow> None
             | Some (reply, ctx', slots', cstate') \<Rightarrow>
               let o1 = (\<lambda>sent err. (out cstate' sent rest err)\<lparr>o_ctx := ctx', o_slots := slots'\<rparr>);
                   answer = (\<lambda>m. BWLDSendReservationResponse e (m, reply_restime reply, reply_toolport reply))
               in if reply_ok reply then Some (o1 (answer BWLDMESGOK) False)
                  else if reply_err reply then Some (o1 [] True)
                  else Some (o1 (answer BWLDMESGDENIED) False)))
       else if req = BWLDMESGCOMPLETE then
         (case BWLDReadTestComplete e s1 of
            (None, rest) \<Rightarrow> Some (out cstate [] rest True)
          | (Some (sid, aval), rest) \<Rightarrow>
            (case ChldReservationComplete (b_slots b) cstate sid of
               (True, slots', cstate') \<Rightarrow> Some ((out cstate' (BWLDSendResponse e BWLDMESGOK) rest False)
                 \<lparr>o_slots := slots'\<rparr>)
             | (False, slots', cstate') \<Rightarrow> Some (out cstate' [] rest True)))
       else Some (out cstate [] s1 err)))"

text \<open>The query of a resource message, for a child whose class is known.\<close>

definition resource_asked :: "endian \<Rightarrow> u8 list \<Rightarrow> (BWLDMesgT \<times> BWLDLimRec) option" where
  "resource_asked e s = (case BWLDReadReqType e s of (err, req, s1) \<Rightarrow>
     if req = BWLDMESGRESOURCE then fst (BWLDReadQuery e s1) else None)"

definition commit :: "broker \<Rightarrow> nat \<Rightarrow> outcome \<Rightarrow> broker" where
  "commit b a oc = b\<lparr>b_ctx := o_ctx oc, b_slots := o_slots oc, b_nodes := o_nodes oc,
     heap := (heap b)(a \<mapsto> o_child oc)\<rparr>"

section \<open>The broker as a state machine\<close>

inductive broker_step :: "endian \<Rightarrow> broker \<Rightarrow> broker \<Rightarrow> bool" for e where
  new_child: "heap b a = None \<Longrightarrow> pidtable b pid = None \<Longrightarrow> fdtable b fd = None \<Longrightarrow> 0 \<le> fd \<Longrightarrow>
    broker_step e b (AllocChldState b a pid fd)"
| message: "fdtable b fd = Some a \<Longrightarrow> heap b a = Some cstate \<Longrightarrow>
    CheckFD e rnd currtime b cstate s = Some oc \<Longrightarrow> broker_step e b (commit b a oc)"
| exited: "pidtable b pid \<noteq> None \<Longrightarrow> reap_one b pid = Some b' \<Longrightarrow> broker_step e b b'"
| shutdown: "fdtable b fd = Some a \<Longrightarrow> heap b a = Some cstate \<Longrightarrow>
    broker_step e b (ClosePipes b fd a cstate)"

inductive_cases broker_stepE: "broker_step e b b'"

definition children_ok :: "broker \<Rightarrow> bool" where
  "children_ok b = (
     (\<forall>fd a. fdtable b fd = Some a \<longrightarrow> 0 \<le> fd \<and> (\<exists>cs. heap b a = Some cs \<and> ch_fd cs = fd)) \<and>
     (\<forall>pid a. pidtable b pid = Some a \<longrightarrow> (\<exists>cs. heap b a = Some cs \<and> ch_pid cs = pid)) \<and>
     (\<forall>a cs. heap b a = Some cs \<longrightarrow> pidtable b (ch_pid cs) = Some a \<and>
        (0 \<le> ch_fd cs \<longrightarrow> fdtable b (ch_fd cs) = Some a) \<and>
        (\<forall>n. ch_node cs = Some n \<longrightarrow> n < length (b_nodes b))))"

definition policy_ok :: "broker \<Rightarrow> bool" where
  "policy_ok b = (tree_ok (b_nodes b) \<and> within_limits (b_nodes b) \<and>
     (\<forall>name n. b_classes b name = Some n \<longrightarrow> n < length (b_nodes b)))"

section \<open>What one message can change\<close>

lemma demand_child:
  assumes "ChldReservationDemand rnd ns currtime (ctx, slots, cs) q restime = Some (reply, ctx', slots', cs')"
  shows "ch_pid cs' = ch_pid cs \<and> ch_fd cs' = ch_fd cs \<and> ch_node cs' = ch_node cs"
  using assms
  by (auto simp: ChldReservationDemand_def event_horizon_limit Let_def demand_search_def DeleteReservation_def
      split: option.splits if_splits prod.splits)

lemma complete_child:
  assumes "ChldReservationComplete slots cs sid = (ok, slots', cs')"
  shows "ch_pid cs' = ch_pid cs \<and> ch_fd cs' = ch_fd cs \<and> ch_node cs' = ch_node cs"
  using assms
  by (auto simp: ChldReservationComplete_def DeleteReservation_def split: option.splits if_splits)

text \<open>The cases of a message, with the call of the policy or the scheduler it leads to.\<close>

lemma CheckFD_cases:
  assumes "CheckFD e rnd currtime b cs s = Some oc"
  obtains (class_msg) "ch_node cs = None" "o_child oc = cs\<lparr>ch_node := cr_node (BWLDReadClass e (b_classes b) s)\<rparr>"
      "o_nodes oc = b_nodes b" "o_slots oc = b_slots b" "o_ctx oc = b_ctx b"
  | (resource) query lm r where "ch_node cs \<noteq> None"
      "BWLDResourceDemand (b_nodes b) (the (ch_node cs)) query lm = Some (r, o_nodes oc)"
      "o_child oc = cs" "o_slots oc = b_slots b" "o_ctx oc = b_ctx b" "resource_asked e s = Some (query, lm)"
  | (reservation) q reply where "ch_node cs \<noteq> None"
      "ChldReservationDemand rnd (b_nodes b) currtime (b_ctx b, b_slots b, cs) q 0 =
         Some (reply, o_ctx oc, o_slots oc, o_child oc)" "o_nodes oc = b_nodes b" "resource_asked e s = None"
  | (complete) sid ok where "ch_node cs \<noteq> None"
      "ChldReservationComplete (b_slots b) cs sid = (ok, o_slots oc, o_child oc)"
      "o_nodes oc = b_nodes b" "o_ctx oc = b_ctx b" "resource_asked e s = None"
  | (ignored) "ch_node cs \<noteq> None" "o_child oc = cs" "o_nodes oc = b_nodes b" "o_slots oc = b_slots b"
      "o_ctx oc = b_ctx b" "resource_asked e s = None"
proof (cases "ch_node cs = None")
  case True
  then show ?thesis using assms by (intro class_msg) (auto simp: CheckFD_def Let_def)
next
  case False
  obtain err req s1 where r: "BWLDReadReqType e s = (err, req, s1)" by (cases "BWLDReadReqType e s") auto
  have "(\<exists>query lm ok. BWLDResourceDemand (b_nodes b) (the (ch_node cs)) query lm = Some (ok, o_nodes oc) \<and>
        o_child oc = cs \<and> o_slots oc = b_slots b \<and> o_ctx oc = b_ctx b \<and> resource_asked e s = Some (query, lm)) \<or>
      (\<exists>q reply. ChldReservationDemand rnd (b_nodes b) currtime (b_ctx b, b_slots b, cs) q 0 =
         Some (reply, o_ctx oc, o_slots oc, o_child oc) \<and> o_nodes oc = b_nodes b \<and> resource_asked e s = None) \<or>
      (\<exists>sid ok. ChldReservationComplete (b_slots b) cs sid = (ok, o_slots oc, o_child oc) \<and>
         o_nodes oc = b_nodes b \<and> o_ctx oc = b_ctx b \<and> resource_asked e s = None) \<or>
      (o_child oc = cs \<and> o_nodes oc = b_nodes b \<and> o_slots oc = b_slots b \<and> o_ctx oc = b_ctx b \<and>
         resource_asked e s = None)"
  proof -
    consider "req = BWLDMESGRESOURCE" | "req = BWLDMESGRESERVATION" | "req = BWLDMESGCOMPLETE"
      | "req \<notin> {BWLDMESGRESOURCE, BWLDMESGRESERVATION, BWLDMESGCOMPLETE}" by blast
    then show ?thesis
    proof cases
      case 1
      then show ?thesis using assms False r
        by (cases "BWLDReadQuery e s1") (auto simp: CheckFD_def Let_def resource_asked_def split: option.splits)
    next
      case 2
      then show ?thesis using assms False r
        by (cases "BWLDReadReservationQuery e s1")
          (auto simp: CheckFD_def Let_def resource_asked_def split: option.splits if_splits)
    next
      case 3
      have f: "slots' = b_slots b \<and> cs' = cs"
        if "ChldReservationComplete (b_slots b) cs sid = (False, slots', cs')" for sid slots' cs'
        using that by (auto simp: ChldReservationComplete_def split: option.splits if_splits)
      show ?thesis using assms False r 3
        by (cases "BWLDReadTestComplete e s1")
          (auto simp: CheckFD_def Let_def resource_asked_def split: option.splits bool.splits prod.splits dest!: f)
    next
      case 4
      then show ?thesis using assms False r by (auto simp: CheckFD_def Let_def resource_asked_def)
    qed
  qed
  then show ?thesis
    by (elim disjE exE conjE)
      ((rule resource [OF False]; assumption) | (rule reservation [OF False]; assumption)
        | (rule complete [OF False]; assumption) | (rule ignored [OF False]; assumption))+
qed

lemma ReadClass_node: "cr_node (BWLDReadClass e tab s) = Some n \<Longrightarrow> \<exists>name. tab name = Some n"
  by (auto simp: BWLDReadClass_def Let_def split: option.splits if_splits) blast

lemma CheckFD_child:
  assumes "CheckFD e rnd currtime b cs s = Some oc"
  shows "ch_pid (o_child oc) = ch_pid cs" and "ch_fd (o_child oc) = ch_fd cs"
    and "ch_node (o_child oc) = Some n \<Longrightarrow> ch_node cs = Some n \<or> (\<exists>name. b_classes b name = Some n)"
  using assms
  by (cases rule: CheckFD_cases; auto dest: demand_child complete_child ReadClass_node)+

section \<open>Invariants\<close>

lemma children_okD:
  assumes "children_ok b"
  shows "fdtable b fd = Some a \<Longrightarrow> 0 \<le> fd \<and> (\<exists>cs. heap b a = Some cs \<and> ch_fd cs = fd)"
    and "pidtable b pid = Some a \<Longrightarrow> (\<exists>cs. heap b a = Some cs \<and> ch_pid cs = pid)"
    and "heap b a = Some cs \<Longrightarrow> pidtable b (ch_pid cs) = Some a"
    and "heap b a = Some cs \<Longrightarrow> 0 \<le> ch_fd cs \<Longrightarrow> fdtable b (ch_fd cs) = Some a"
    and "heap b a = Some cs \<Longrightarrow> ch_node cs = Some n \<Longrightarrow> n < length (b_nodes b)"
  using assms unfolding children_ok_def by blast+

lemma children_okI:
  assumes "\<And>fd a. fdtable b fd = Some a \<Longrightarrow> 0 \<le> fd \<and> (\<exists>cs. heap b a = Some cs \<and> ch_fd cs = fd)"
    and "\<And>pid a. pidtable b pid = Some a \<Longrightarrow> (\<exists>cs. heap b a = Some cs \<and> ch_pid cs = pid)"
    and "\<And>a cs. heap b a = Some cs \<Longrightarrow> pidtable b (ch_pid cs) = Some a \<and>
      (0 \<le> ch_fd cs \<longrightarrow> fdtable b (ch_fd cs) = Some a) \<and> (\<forall>n. ch_node cs = Some n \<longrightarrow> n < length (b_nodes b))"
  shows "children_ok b"
  using assms unfolding children_ok_def by blast

lemma new_child_ok:
  assumes c: "children_ok b" and "heap b a = None" and "pidtable b pid = None"
    and "fdtable b fd = None" and "0 \<le> fd"
  shows "children_ok (AllocChldState b a pid fd)"
proof (rule children_okI)
  fix a' cs assume h: "heap (AllocChldState b a pid fd) a' = Some cs"
  show "pidtable (AllocChldState b a pid fd) (ch_pid cs) = Some a' \<and>
      (0 \<le> ch_fd cs \<longrightarrow> fdtable (AllocChldState b a pid fd) (ch_fd cs) = Some a') \<and>
      (\<forall>n. ch_node cs = Some n \<longrightarrow> n < length (b_nodes (AllocChldState b a pid fd)))"
  proof (cases "a' = a")
    case True
    then show ?thesis using h by (auto simp: AllocChldState_def)
  next
    case False
    then have "heap b a' = Some cs" using h by (simp add: AllocChldState_def)
    then have "pidtable b (ch_pid cs) = Some a'" "0 \<le> ch_fd cs \<Longrightarrow> fdtable b (ch_fd cs) = Some a'"
      "\<And>n. ch_node cs = Some n \<Longrightarrow> n < length (b_nodes b)"
      using children_okD [OF c] by blast+
    then show ?thesis using assms(3,4) by (auto simp: AllocChldState_def)
  qed
qed (use assms children_okD(1,2) [OF c] in \<open>force simp: AllocChldState_def split: if_splits\<close>)+

lemma message_ok:
  assumes c: "children_ok b" and p: "policy_ok b" and h: "heap b a = Some cs"
    and run: "CheckFD e rnd currtime b cs s = Some oc"
    and len: "length (o_nodes oc) = length (b_nodes b)"
  shows "children_ok (commit b a oc)"
proof (rule children_okI)
  note k = CheckFD_child [OF run]
  show "0 \<le> fd \<and> (\<exists>cs. heap (commit b a oc) a' = Some cs \<and> ch_fd cs = fd)"
    if "fdtable (commit b a oc) fd = Some a'" for fd a'
    using that children_okD(1) [OF c, of fd a'] h k by (auto simp: commit_def)
  show "\<exists>cs. heap (commit b a oc) a' = Some cs \<and> ch_pid cs = pid"
    if "pidtable (commit b a oc) pid = Some a'" for pid a'
    using that children_okD(2) [OF c, of pid a'] h k by (auto simp: commit_def)
  show "pidtable (commit b a oc) (ch_pid cs') = Some a' \<and>
      (0 \<le> ch_fd cs' \<longrightarrow> fdtable (commit b a oc) (ch_fd cs') = Some a') \<and>
      (\<forall>n. ch_node cs' = Some n \<longrightarrow> n < length (b_nodes (commit b a oc)))"
    if h': "heap (commit b a oc) a' = Some cs'" for a' cs'
  proof (cases "a' = a")
    case True
    then have "cs' = o_child oc" using h' by (simp add: commit_def)
    moreover have "n < length (b_nodes b)" if "ch_node (o_child oc) = Some n" for n
      using k(3) [OF that] children_okD(5) [OF c h] p by (auto simp: policy_ok_def)
    ultimately show ?thesis
      using True children_okD(3,4) [OF c h] k(1,2) len by (auto simp: commit_def)
  next
    case False
    then have "heap b a' = Some cs'" using h' by (simp add: commit_def)
    then show ?thesis using children_okD(3-5) [OF c] len by (auto simp: commit_def)
  qed
qed

lemma reap_ok:
  assumes c: "children_ok b" and "reap_one b pid = Some b'"
  shows "children_ok b'"
proof -
  obtain a cs where a: "pidtable b pid = Some a" "heap b a = Some cs" "b' = FreeChldState b a cs"
    using assms(2) by (auto simp: reap_one_def split: option.splits)
  have pid: "ch_pid cs = pid" using children_okD(2) [OF c a(1)] a(2) by auto
  have f: "fdtable b' = (if 0 \<le> ch_fd cs then (fdtable b)(ch_fd cs := None) else fdtable b)"
    "pidtable b' = (pidtable b)(pid := None)" "heap b' = (heap b)(a := None)" "b_nodes b' = b_nodes b"
    using a(3) pid by (auto simp: FreeChldState_def Let_def)
  show ?thesis
  proof (rule children_okI)
    show "0 \<le> fd \<and> (\<exists>cs. heap b' a' = Some cs \<and> ch_fd cs = fd)" if t: "fdtable b' fd = Some a'" for fd a'
    proof -
      have t': "fdtable b fd = Some a'" "fd \<noteq> ch_fd cs \<or> \<not> 0 \<le> ch_fd cs"
        using t by (auto simp: f split: if_splits)
      then have "a' \<noteq> a" using children_okD(1) [OF c t'(1)] a(2) by auto
      then show ?thesis using children_okD(1) [OF c t'(1)] by (simp add: f)
    qed
    show "\<exists>cs. heap b' a' = Some cs \<and> ch_pid cs = pid'" if t: "pidtable b' pid' = Some a'" for pid' a'
    proof -
      have t': "pidtable b pid' = Some a'" "pid' \<noteq> pid" using t by (auto simp: f split: if_splits)
      then have "a' \<noteq> a" using children_okD(2) [OF c t'(1)] a(2) pid by auto
      then show ?thesis using children_okD(2) [OF c t'(1)] by (simp add: f)
    qed
    show "pidtable b' (ch_pid cs') = Some a' \<and> (0 \<le> ch_fd cs' \<longrightarrow> fdtable b' (ch_fd cs') = Some a') \<and>
        (\<forall>n. ch_node cs' = Some n \<longrightarrow> n < length (b_nodes b'))" if h: "heap b' a' = Some cs'" for a' cs'
    proof -
      have h': "heap b a' = Some cs'" "a' \<noteq> a" using h by (auto simp: f split: if_splits)
      have "ch_pid cs' \<noteq> pid" using children_okD(3) [OF c h'(1)] a(1) h'(2) by auto
      moreover have "ch_fd cs' \<noteq> ch_fd cs" if "0 \<le> ch_fd cs'"
        using children_okD(4) [OF c h'(1) that] children_okD(4) [OF c a(2)] that h'(2) by auto
      ultimately show ?thesis
        using children_okD(3-5) [OF c h'(1)] by (auto simp: f)
    qed
  qed
qed

lemma shutdown_ok:
  assumes c: "children_ok b" and "fdtable b fd = Some a" and h: "heap b a = Some cs"
  shows "children_ok (ClosePipes b fd a cs)"
proof -
  have fd: "ch_fd cs = fd" "0 \<le> fd" using children_okD(1) [OF c assms(2)] h by auto
  have f: "fdtable (ClosePipes b fd a cs) = (fdtable b)(fd := None)"
    "heap (ClosePipes b fd a cs) = (heap b)(a \<mapsto> cs\<lparr>ch_fd := -1\<rparr>)"
    "pidtable (ClosePipes b fd a cs) = pidtable b" "b_nodes (ClosePipes b fd a cs) = b_nodes b"
    by (simp_all add: ClosePipes_def)
  show ?thesis
  proof (rule children_okI, unfold f)
    show "0 \<le> fd' \<and> (\<exists>csa. ((heap b)(a \<mapsto> cs\<lparr>ch_fd := -1\<rparr>)) a' = Some csa \<and> ch_fd csa = fd')"
      if t: "((fdtable b)(fd := None)) fd' = Some a'" for fd' a'
    proof -
      have t': "fdtable b fd' = Some a'" "fd' \<noteq> fd" using t by (auto split: if_splits)
      then have "a' \<noteq> a" using children_okD(1) [OF c t'(1)] h fd by auto
      then show ?thesis using children_okD(1) [OF c t'(1)] by simp
    qed
    show "\<exists>csa. ((heap b)(a \<mapsto> cs\<lparr>ch_fd := -1\<rparr>)) a' = Some csa \<and> ch_pid csa = pid"
      if "pidtable b pid = Some a'" for pid a'
      using children_okD(2) [OF c that] h by auto
    show "pidtable b (ch_pid cs') = Some a' \<and> (0 \<le> ch_fd cs' \<longrightarrow> ((fdtable b)(fd := None)) (ch_fd cs') = Some a') \<and>
        (\<forall>n. ch_node cs' = Some n \<longrightarrow> n < length (b_nodes b))"
      if t: "((heap b)(a \<mapsto> cs\<lparr>ch_fd := -1\<rparr>)) a' = Some cs'" for a' cs'
    proof (cases "a' = a")
      case True
      then show ?thesis using t children_okD(3,5) [OF c h] by auto
    next
      case False
      then have h': "heap b a' = Some cs'" using t by simp
      then have "ch_fd cs' \<noteq> fd" if "0 \<le> ch_fd cs'" using children_okD(4) [OF c h' that] assms(2) False by auto
      then show ?thesis using children_okD(3-5) [OF c h'] by auto
    qed
  qed
qed

lemma message_nodes:
  assumes c: "children_ok b" and p: "policy_ok b" and h: "heap b a = Some cs"
    and run: "CheckFD e rnd currtime b cs s = Some oc"
  shows "tree_ok (o_nodes oc) \<and> within_limits (o_nodes oc) \<and> length (o_nodes oc) = length (b_nodes b)"
  using run
proof (cases rule: CheckFD_cases)
  case (resource query lm r)
  obtain n where n: "ch_node cs = Some n" "n < length (b_nodes b)"
    using resource(1) children_okD(5) [OF c h] by auto
  obtain l v where lm: "lm = LimRec l v" by (cases lm) simp
  then show ?thesis
    using demand_keeps [of "b_nodes b" n query l v r "o_nodes oc"] resource(2) p n
    by (simp add: policy_ok_def)
qed (use p in \<open>simp_all add: policy_ok_def\<close>)

lemma broker_step_ok:
  assumes "broker_step e b b'" and "children_ok b" and "policy_ok b"
  shows "children_ok b' \<and> policy_ok b'"
  using assms(1)
proof (cases rule: broker_step.cases)
  case (new_child a pid fd)
  then show ?thesis using new_child_ok assms(2,3) by (simp add: policy_ok_def AllocChldState_def)
next
  case (message fd a cs rnd currtime s oc)
  note m = message_nodes [OF assms(2,3) message(3,4)]
  show ?thesis
    using message_ok [OF assms(2,3) message(3,4)] m assms(3) message(1)
    by (simp add: policy_ok_def commit_def)
next
  case (exited pid)
  have "b_nodes b' = b_nodes b \<and> b_classes b' = b_classes b"
    using exited(2) by (auto simp: reap_one_def FreeChldState_def Let_def split: option.splits)
  then have "policy_ok b'" using assms(3) by (simp add: policy_ok_def)
  then show ?thesis using reap_ok [OF assms(2) exited(2)] by simp
next
  case (shutdown fd a cs)
  then show ?thesis using shutdown_ok [OF assms(2)] assms(3) by (simp add: policy_ok_def ClosePipes_def)
qed

lemma broker_reachable_ok:
  assumes "(broker_step e)\<^sup>*\<^sup>* b b'" and "children_ok b" and "policy_ok b"
  shows "children_ok b' \<and> policy_ok b'"
  using assms by (induction rule: rtranclp_induct) (auto dest: broker_step_ok)

section \<open>Properties of the broker\<close>

definition broker_initial :: "broker \<Rightarrow> bool" where
  "broker_initial b = (heap b = Map.empty \<and> fdtable b = Map.empty \<and> pidtable b = Map.empty \<and>
     tree_ok (b_nodes b) \<and> nothing_used (b_nodes b) \<and>
     (\<forall>name n. b_classes b name = Some n \<longrightarrow> n < length (b_nodes b)))"

lemma broker_initial_ok: "broker_initial b \<Longrightarrow> children_ok b \<and> policy_ok b"
  by (auto simp: broker_initial_def children_ok_def policy_ok_def nothing_used_within)

definition sample_broker :: broker where
  "sample_broker = \<lparr>b_ctx = sample_ctx, b_slots = [], b_nodes = sample_tree,
     b_classes = [''root'' \<mapsto> 0, ''guest'' \<mapsto> 1],
     heap = Map.empty, fdtable = Map.empty, pidtable = Map.empty\<rparr>"

lemma sample_broker_initial: "broker_initial sample_broker"
  by (auto simp: broker_initial_def sample_broker_def sample_tree_ok nothing_used_def sample_tree_def
      tree_ok_def nth_Cons split: if_splits nat.splits)

section \<open>The ledger of the broker\<close>

text \<open>
  The broker with the ledger of theory \<open>PolicyTree\<close> beside it: a resource message that is answered is
  entered there for every class it concerns, whichever child sent it. The exit of a child makes no entry,
  as it releases nothing.
\<close>

definition ledger_message :: "endian \<Rightarrow> broker \<Rightarrow> ChldState \<Rightarrow> u8 list \<Rightarrow> ledger \<Rightarrow> ledger" where
  "ledger_message e b cstate s L = (case ch_node cstate of None \<Rightarrow> L
     | Some n \<Rightarrow> (case resource_asked e s of None \<Rightarrow> L
     | Some (query, lm) \<Rightarrow> (case BWLDResourceDemand (b_nodes b) n query lm of None \<Rightarrow> L
     | Some (granted, ns) \<Rightarrow> ledger_entry (b_nodes b) n query lm granted L)))"

inductive broker_ledger :: "endian \<Rightarrow> nat \<Rightarrow> broker \<times> ledger \<Rightarrow> broker \<times> ledger \<Rightarrow> bool" for e A where
  new_child: "heap b a = None \<Longrightarrow> pidtable b pid = None \<Longrightarrow> fdtable b fd = None \<Longrightarrow> 0 \<le> fd \<Longrightarrow>
    broker_ledger e A (b, L) (AllocChldState b a pid fd, L)"
| message: "fdtable b fd = Some a \<Longrightarrow> heap b a = Some cstate \<Longrightarrow>
    (\<And>lm. ch_node cstate \<noteq> None \<Longrightarrow> resource_asked e s = Some (BWLDMESGREQUEST, lm) \<Longrightarrow> unat (lim_value lm) < A) \<Longrightarrow>
    CheckFD e rnd currtime b cstate s = Some oc \<Longrightarrow>
    broker_ledger e A (b, L) (commit b a oc, ledger_message e b cstate s L)"
| exited: "pidtable b pid \<noteq> None \<Longrightarrow> reap_one b pid = Some b' \<Longrightarrow> broker_ledger e A (b, L) (b', L)"
| shutdown: "fdtable b fd = Some a \<Longrightarrow> heap b a = Some cstate \<Longrightarrow>
    broker_ledger e A (b, L) (ClosePipes b fd a cstate, L)"

lemma broker_ledger_step: "broker_ledger e A (b, L) (b', L') \<Longrightarrow> broker_step e b b'"
  by (auto elim!: broker_ledger.cases intro: broker_step.intros)

text \<open>Every step of the broker is one with a ledger, so with \<open>A = 2 ^ 64\<close> no run is left out.\<close>

lemma broker_step_ledger: "broker_step e b b' \<Longrightarrow> \<exists>L'. broker_ledger e (2 ^ 64) (b, L) (b', L')"
proof (erule broker_step.cases)
  fix ba fd a cstate rnd currtime s oc
  assume "b = ba" "b' = commit ba a oc" "fdtable ba fd = Some a" "heap ba a = Some cstate"
    "CheckFD e rnd currtime ba cstate s = Some oc"
  moreover have "unat (v :: u64) < 2 ^ 64" for v using unsigned_less [where ?'a = nat and w = v] by simp
  ultimately show ?thesis by (blast intro: broker_ledger.message)
qed (blast intro: broker_ledger.intros)+

lemma message_accounted:
  assumes c: "children_ok b" and p: "policy_ok b" and h: "heap b a = Some cs" and acc: "accounted A (b_nodes b) L"
    and small: "\<And>lm. ch_node cs \<noteq> None \<Longrightarrow> resource_asked e s = Some (BWLDMESGREQUEST, lm) \<Longrightarrow> unat (lim_value lm) < A"
    and run: "CheckFD e rnd currtime b cs s = Some oc"
  shows "accounted A (o_nodes oc) (ledger_message e b cs s L)"
  using run
proof (cases rule: CheckFD_cases)
  case (resource query lm r)
  obtain n where n: "ch_node cs = Some n" "n < length (b_nodes b)"
    using resource(1) children_okD(5) [OF c h] by auto
  have "accounted A (o_nodes oc) (ledger_entry (b_nodes b) n query lm r L)"
    using resource(2,6) n(1) p small
    by (intro demand_accounted [OF acc _ _ n(2)]) (auto simp: policy_ok_def)
  then show ?thesis using resource(2,6) n(1) by (simp add: ledger_message_def)
qed (use acc in \<open>simp_all add: ledger_message_def split: option.split\<close>)

lemma broker_ledger_ok:
  assumes "broker_ledger e A (b, L) (b', L')" and ok: "children_ok b" "policy_ok b" and acc: "accounted A (b_nodes b) L"
  shows "children_ok b' \<and> policy_ok b' \<and> accounted A (b_nodes b') L'"
proof -
  have "accounted A (b_nodes b') L'"
    using assms(1)
  proof (cases rule: broker_ledger.cases)
    case (message fd a cstate s rnd currtime oc)
    then show ?thesis
      using message_accounted [OF ok message(4) acc message(5,6)] by (simp add: commit_def)
  next
    case (exited pid)
    then have "b_nodes b' = b_nodes b"
      by (auto simp: reap_one_def FreeChldState_def Let_def split: option.splits)
    then show ?thesis using acc exited by simp
  qed (use acc in \<open>simp_all add: AllocChldState_def ClosePipes_def\<close>)
  then show ?thesis using broker_step_ok [OF broker_ledger_step [OF assms(1)] ok] by simp
qed

lemma broker_ledger_reachable:
  assumes "(broker_ledger e A)\<^sup>*\<^sup>* (b, L) (b', L')" and "children_ok b" and "policy_ok b" and "accounted A (b_nodes b) L"
  shows "children_ok b' \<and> policy_ok b' \<and> accounted A (b_nodes b') L'"
  using assms by (induction rule: rtranclp_induct2) (auto dest: broker_ledger_ok)

text \<open>
  C19. Whatever bytes the children write on their sockets, and however their messages, new
  connections and exits are interleaved, the counter of a usage class for a counted resource stays within
  its limit: exactly for limits below \<open>2 ^ 24\<close>, and up to the \<open>float\<close> error above. The counter is what the
  class has granted and not got back, modulo \<open>2 ^ 64\<close>. As long as every amount asked for is below \<open>A\<close> and
  \<open>A + 2 * limit \<le> 2 ^ 64\<close>, it is that amount itself, which so never exceeds the limit either. A child that
  asks for an amount that wraps around is granted it (\<open>wrapping_request_granted\<close> of theory \<open>PolicyTree\<close>);
  the code of a child only ever asks for one.
\<close>

theorem broker_grants_within_limits:
  assumes "broker_initial b" and "(broker_ledger e A)\<^sup>*\<^sup>* (b, empty_ledger) (b', L)" and "n < length (b_nodes b')"
    and "limkind_of l = LIMINT" and "GetLimit (b_nodes b' ! n) l \<noteq> 0"
  shows "(2 ^ 24 - 1) * unat (GetUsed (b_nodes b' ! n) l) \<le> (2 ^ 24 + 1) * unat (GetLimit (b_nodes b' ! n) l) \<and>
    (unat (GetLimit (b_nodes b' ! n) l) < 2 ^ 24 \<longrightarrow> GetUsed (b_nodes b' ! n) l \<le> GetLimit (b_nodes b' ! n) l) \<and>
    GetUsed (b_nodes b' ! n) l = word_of_int (L n l) \<and>
    (A + 2 * unat (GetLimit (b_nodes b' ! n) l) \<le> 2 ^ 64 \<longrightarrow>
      0 \<le> L n l \<and> (2 ^ 24 - 1) * L n l \<le> (2 ^ 24 + 1) * uint (GetLimit (b_nodes b' ! n) l) \<and>
      (unat (GetLimit (b_nodes b' ! n) l) < 2 ^ 24 \<longrightarrow> L n l \<le> uint (GetLimit (b_nodes b' ! n) l)))"
proof -
  have "accounted A (b_nodes b) empty_ledger"
    using assms(1) by (simp add: broker_initial_def accounted_start)
  then have "within_limits (b_nodes b')" "accounted A (b_nodes b') L"
    using broker_ledger_reachable [OF assms(2)] broker_initial_ok [OF assms(1)] by (simp_all add: policy_ok_def)
  then show ?thesis using accounted_bounded [OF _ _ assms(3-5), unfolded grants_bounded_def] by blast
qed

definition sample_broker1 :: broker where
  "sample_broker1 = AllocChldState sample_broker 0 100 5"

lemma sample_broker_step: "(broker_step e)\<^sup>*\<^sup>* sample_broker sample_broker1"
  unfolding sample_broker1_def
  by (intro r_into_rtranclp broker_step.new_child) (simp_all add: sample_broker_def)

lemma sample_broker1_start:
  "broker_ledger e A (sample_broker, empty_ledger) (sample_broker1, empty_ledger)"
  unfolding sample_broker1_def by (intro broker_ledger.new_child) (simp_all add: sample_broker_def)

text \<open>
  C20. The two tables never dangle. In every reachable state an entry of the descriptor table
  leads to a live child record with that descriptor, whose process is in the process table; and
  reaping any process of the process table succeeds, leaves no entry of either table for its
  record, and frees the record.
\<close>

theorem broker_tables_consistent:
  assumes "broker_initial b" and "(broker_step e)\<^sup>*\<^sup>* b b'"
  shows "(\<forall>fd a. fdtable b' fd = Some a \<longrightarrow>
      (\<exists>cs. heap b' a = Some cs \<and> ch_fd cs = fd \<and> pidtable b' (ch_pid cs) = Some a)) \<and>
    (\<forall>pid a. pidtable b' pid = Some a \<longrightarrow> (\<exists>b2. reap_one b' pid = Some b2 \<and>
      heap b2 a = None \<and> a \<notin> ran (fdtable b2) \<and> a \<notin> ran (pidtable b2)))"
proof -
  have c: "children_ok b'" using broker_reachable_ok [OF assms(2)] broker_initial_ok [OF assms(1)] by simp
  have "\<exists>b2. reap_one b' pid = Some b2 \<and> heap b2 a = None \<and> a \<notin> ran (fdtable b2) \<and> a \<notin> ran (pidtable b2)"
    if p: "pidtable b' pid = Some a" for pid a
  proof -
    obtain cs where "heap b' a = Some cs" using children_okD(2) [OF c p] by blast
    then have r: "reap_one b' pid = Some (FreeChldState b' a cs)" using p by (simp add: reap_one_def)
    have n: "heap (FreeChldState b' a cs) a = None" by (simp add: FreeChldState_def Let_def)
    have c2: "children_ok (FreeChldState b' a cs)" by (rule reap_ok [OF c r])
    have "a \<notin> ran (fdtable (FreeChldState b' a cs))" "a \<notin> ran (pidtable (FreeChldState b' a cs))"
      using children_okD(1,2) [OF c2] n by (fastforce simp: ran_def)+
    then show ?thesis using r n by blast
  qed
  then show ?thesis using children_okD(1,3) [OF c] by blast
qed

theorem broker_tables_consistent_witness:
  "fdtable sample_broker1 5 = Some 0 \<and> (\<exists>cs. heap sample_broker1 0 = Some cs \<and> ch_fd cs = 5) \<and>
   reap_one sample_broker1 100 \<noteq> None"
proof -
  have "fdtable sample_broker1 5 = Some 0" "pidtable sample_broker1 100 = Some 0"
    by (simp_all add: sample_broker1_def AllocChldState_def)
  then show ?thesis
    using broker_tables_consistent [OF sample_broker_initial sample_broker_step [of LE]] by fastforce
qed

lemma read_header [simp]:
  "BWLDReadReqType e (put32 e BWLDMESGMARK @ put32 e req @ rest) = (False, req, rest)"
proof -
  have "read_n 8 ((put32 e BWLDMESGMARK @ put32 e req) @ rest) = Some (put32 e BWLDMESGMARK @ put32 e req, rest)"
    by (rule read_n_append) simp
  then show ?thesis by (simp add: BWLDReadReqType_def get_defs buf_simps)
qed

lemma read_body_codec:
  assumes "length (enc x) = n" and "p (enc x) = Some y"
  shows "read_body n p (enc x @ rest) = (Some y, rest)"
  using assms by (simp add: read_body_def)

lemma read_response [simp]: "BWLDReadResponse e (BWLDSendResponse e m) = (m, [])"
proof -
  have "read_n 12 (BWLDSendResponse e m @ []) = Some (BWLDSendResponse e m, [])"
    by (rule read_n_append) (simp add: response.enc_width)
  then show ?thesis using response.dec_msg [of e m] by (simp add: BWLDReadResponse_def)
qed

lemma read_reservation_response [simp]:
  "BWLDReadReservationResponse e (BWLDSendReservationResponse e r) t p = (r, [])"
proof -
  have "read_n 24 (BWLDSendReservationResponse e r @ []) = Some (BWLDSendReservationResponse e r, [])"
    by (rule read_n_append) (simp add: reservation_response.enc_width)
  then show ?thesis using reservation_response.dec_msg [of e r] by (simp add: BWLDReadReservationResponse_def)
qed

lemma resource_message:
  assumes "ch_node cs = Some n" and "mesg \<in> {BWLDMESGREQUEST, BWLDMESGRELEASE, BWLDMESGCLAIM}"
    and "BWLDResourceDemand (b_nodes b) n mesg lm = Some (ok, ns)"
  shows "\<exists>oc. CheckFD e rnd currtime b cs (BWLDQuery e mesg lm @ rest) = Some oc \<and>
    BWLDReadResponse e (o_sent oc) = (if ok then BWLDMESGOK else BWLDMESGDENIED, []) \<and>
    o_nodes oc = ns \<and> o_slots oc = b_slots b \<and> o_ctx oc = b_ctx b \<and> o_child oc = cs \<and>
    o_rest oc = rest \<and> \<not> o_kill oc"
proof -
  have "query_ok (mesg, lm)" using assms(2) by (simp add: query_ok_def)
  then have "BWLDReadQuery e (query_body e (mesg, lm) @ rest) = (Some (mesg, lm), rest)"
    unfolding BWLDReadQuery_def using query.enc_width query.dec_msg by (intro read_body_codec) blast+
  then show ?thesis
    using assms(1,3) by (simp add: CheckFD_def BWLDQuery_def Let_def)
qed

text \<open>
  C21. A resource request is a remote call of \<open>BWLDResourceDemand\<close>. The bytes \<open>BWLDQuery\<close> writes make
  \<open>CheckFD\<close> run the demand on the child's node and nothing else; the bytes it answers make the
  child's \<open>BWLDReadResponse\<close> return OK or DENIED as the demand did; what follows on the stream is
  left for the next message, and the child is not killed. This holds in either byte order.
\<close>

theorem resource_request_is_remote_demand:
  assumes "ch_node cs = Some n" and "mesg \<in> {BWLDMESGREQUEST, BWLDMESGRELEASE, BWLDMESGCLAIM}"
    and "BWLDResourceDemand (b_nodes b) n mesg lm = Some (ok, ns)"
  shows "\<exists>oc. CheckFD e rnd currtime b cs (BWLDQuery e mesg lm @ rest) = Some oc \<and>
    BWLDReadResponse e (o_sent oc) = (if ok then BWLDMESGOK else BWLDMESGDENIED, []) \<and>
    o_nodes oc = ns \<and> o_slots oc = b_slots b \<and> o_ctx oc = b_ctx b \<and> o_child oc = cs \<and>
    o_rest oc = rest \<and> \<not> o_kill oc"
  using assms by (rule resource_message)

theorem resource_request_is_remote_demand_witness:
  "\<exists>oc. CheckFD BE None None sample_broker sample_child (BWLDQuery BE BWLDMESGREQUEST (LimRec BWLDLimPending 1)) = Some oc \<and>
    BWLDReadResponse BE (o_sent oc) = (BWLDMESGOK, []) \<and> \<not> o_kill oc"
proof -
  have "limkind_of BWLDLimPending = LIMINT" by simp
  then obtain ns' where "BWLDResourceDemand sample_tree 1 BWLDMESGREQUEST (LimRec BWLDLimPending 1) = Some (True, ns')"
    using request.demand_spec_full [OF sample_tree_ok(1) limkind_def0 [OF disjI1], of BWLDLimPending 1 1]
      sample_tree_ok(2)
    by (simp add: BWLDResourceDemand_def sample_path sample_values fits_def)
  then show ?thesis
    using resource_request_is_remote_demand [of sample_child 1 BWLDMESGREQUEST sample_broker "LimRec BWLDLimPending 1" True ns' BE None None "[]"]
    by (auto simp: sample_child_def sample_broker_def)
qed

lemma reservation_message:
  assumes "ch_node cs = Some n" and "reservation_ok q"
    and "ChldReservationDemand rnd (b_nodes b) currtime (b_ctx b, b_slots b, cs) q 0 = Some (reply, ctx', slots', cs')"
  shows "\<exists>oc. CheckFD e rnd currtime b cs (BWLDReservationQuery e q @ rest) = Some oc \<and>
    o_ctx oc = ctx' \<and> o_slots oc = slots' \<and> o_child oc = cs' \<and> o_nodes oc = b_nodes b \<and> o_rest oc = rest \<and>
    o_kill oc = (\<not> reply_ok reply \<and> reply_err reply) \<and>
    BWLDReadReservationResponse e (o_sent oc) t p =
      (if o_kill oc then (BWLDMESGINVALID, t, p)
       else (if reply_ok reply then BWLDMESGOK else BWLDMESGDENIED, reply_restime reply, reply_toolport reply), [])"
proof -
  have "BWLDReadReservationQuery e (reservation_body e q @ rest) = (Some q, rest)"
    unfolding BWLDReadReservationQuery_def
    using assms(2) reservation.enc_width reservation.dec_msg by (intro read_body_codec) blast+
  moreover have "BWLDReadReservationResponse e [] t p = ((BWLDMESGINVALID, t, p), [])"
    by (simp add: BWLDReadReservationResponse_def read_n_def)
  ultimately show ?thesis
    using assms(1,3) by (simp add: CheckFD_def BWLDReservationQuery_def Let_def)
qed

text \<open>
  C22. A reservation request is a remote call of \<open>ChldReservationDemand\<close>: the parent reads back
  exactly the request the child wrote, and the child reads the verdict, the time of the test and
  the port of the scheduler's reply. A request that fails with an error is not answered and the
  child is killed.
\<close>

theorem reservation_request_is_remote_demand:
  assumes "ch_node cs = Some n" and "reservation_ok q"
    and "ChldReservationDemand rnd (b_nodes b) currtime (b_ctx b, b_slots b, cs) q 0 = Some (reply, ctx', slots', cs')"
  shows "\<exists>oc. CheckFD e rnd currtime b cs (BWLDReservationQuery e q @ rest) = Some oc \<and>
    o_ctx oc = ctx' \<and> o_slots oc = slots' \<and> o_child oc = cs' \<and> o_nodes oc = b_nodes b \<and> o_rest oc = rest \<and>
    o_kill oc = (\<not> reply_ok reply \<and> reply_err reply) \<and>
    BWLDReadReservationResponse e (o_sent oc) t p =
      (if o_kill oc then (BWLDMESGINVALID, t, p)
       else (if reply_ok reply then BWLDMESGOK else BWLDMESGDENIED, reply_restime reply, reply_toolport reply), [])"
  using assms by (rule reservation_message)

definition sample_wire_query :: reservation_query where
  "sample_wire_query = (sample_query 0)\<lparr>q_sid := replicate 16 7\<rparr>"

theorem reservation_request_is_remote_demand_witness:
  "\<exists>oc t. CheckFD BE None (Some (sample_time 200)) sample_broker sample_child
      (BWLDReservationQuery BE sample_wire_query) = Some oc \<and> \<not> o_kill oc \<and>
    BWLDReadReservationResponse BE (o_sent oc) 0 0 = ((BWLDMESGOK, t, 0), [])"
proof -
  have "reservation_ok sample_wire_query"
    by (simp add: reservation_ok_def sample_wire_query_def sample_query_def cstr_ok_def char_byte_def)
  moreover obtain reply slots' cs' where "ChldReservationDemand None (b_nodes sample_broker) (Some (sample_time 200))
      (b_ctx sample_broker, b_slots sample_broker, sample_child) sample_wire_query 0 =
      Some (reply, b_ctx sample_broker, slots', cs')" "reply_ok reply" "reply_toolport reply = 0"
    by (simp add: ChldReservationDemand_def event_horizon_limit Let_def sample_child_def sample_wire_query_def
        sample_query_def AllocReservation_def BWLToolInitTest_def sample_broker_def sample_ctx_def BWLToolPing_def
        demand_search_def place_reservation_def too_late_def sample_horizon latest_start_def initial_reservation_def)
  ultimately show ?thesis
    using reservation_request_is_remote_demand [of sample_child 1 sample_wire_query None sample_broker
        "Some (sample_time 200)" reply "b_ctx sample_broker" slots' cs' BE "[]" 0 0]
    by (auto simp: sample_child_def)
qed

lemma read_name_spec:
  "length name < k \<Longrightarrow> \<forall>b \<in> set name. b \<noteq> 0 \<Longrightarrow> read_name k (name @ 0 # rest) = Some (name, rest)"
proof (induction name arbitrary: k)
  case Nil
  then show ?case by (cases k) simp_all
next
  case (Cons c name)
  then show ?case by (cases k) simp_all
qed

text \<open>
  The first message of a child names its usage class. For a class name that fits (at most 80
  bytes, no NUL) the parent looks up exactly that name: a known class makes it the node of
  the child and is answered OK; an unknown one is answered DENIED and the child is killed.
\<close>

lemma class_message:
  assumes "ch_node cs = None" and "length name \<le> BWLDMAXCLASSLEN" and "\<forall>c \<in> set name. char_byte c \<noteq> 0"
  shows "\<exists>oc. CheckFD e rnd currtime b cs (BWLDSendClass e name @ rest) = Some oc \<and>
    ch_node (o_child oc) = b_classes b name \<and> o_rest oc = rest \<and>
    BWLDReadResponse e (o_sent oc) = (if b_classes b name = None then BWLDMESGDENIED else BWLDMESGOK, []) \<and>
    o_kill oc = (b_classes b name = None) \<and> o_nodes oc = b_nodes b \<and> o_slots oc = b_slots b"
proof -
  have h: "read_n 8 ((put32 e BWLDMESGMARK @ put32 e BWLDMESGCLASS) @ r) =
      Some (put32 e BWLDMESGMARK @ put32 e BWLDMESGCLASS, r)" for r
    by (rule read_n_append) simp
  have n: "read_name (Suc BWLDMAXCLASSLEN) (map char_byte name @ 0 # r) = Some (map char_byte name, r)" for r
    using assms(2,3) by (intro read_name_spec) auto
  have t: "read_n 4 (put32 e BWLDMESGMARK @ rest) = Some (put32 e BWLDMESGMARK, rest)"
    by (rule read_n_append) simp
  have g: "get32 e 0 (put32 e w @ r) = w" "get32 e 4 (put32 e w @ put32 e w') = w'" "get32 e 0 (put32 e w) = w" for w w' r
    by (simp_all add: get_defs buf_simps)
  show ?thesis
    using assms(1) h n t g
    by (auto simp: CheckFD_def BWLDSendClass_def BWLDReadClass_def Let_def comp_def split: option.split)
qed

lemma class_message_example:
  "\<exists>oc. CheckFD LE None None sample_broker (sample_child\<lparr>ch_node := None\<rparr>) (BWLDSendClass LE ''guest'') = Some oc \<and>
    ch_node (o_child oc) = Some 1 \<and> \<not> o_kill oc"
  using class_message [of "sample_child\<lparr>ch_node := None\<rparr>" "''guest''" LE None None sample_broker "[]"]
  by (simp add: BWLDMAXCLASSLEN_def char_byte_def sample_broker_def) blast

text \<open>A child of the guest class that asks for one pending test.\<close>

lemma query_asked:
  assumes "mesg \<in> {BWLDMESGREQUEST, BWLDMESGRELEASE, BWLDMESGCLAIM}"
  shows "resource_asked e (BWLDQuery e mesg lm @ rest) = Some (mesg, lm)"
proof -
  have "query_ok (mesg, lm)" using assms by (simp add: query_ok_def)
  then have "BWLDReadQuery e (query_body e (mesg, lm) @ rest) = (Some (mesg, lm), rest)"
    unfolding BWLDReadQuery_def using query.enc_width query.dec_msg by (intro read_body_codec) blast+
  then show ?thesis by (simp add: resource_asked_def BWLDQuery_def Let_def)
qed

theorem broker_grants_within_limits_witness:
  "\<exists>b' L. (broker_ledger LE 2)\<^sup>*\<^sup>* (sample_broker, empty_ledger) (b', L) \<and> L 1 BWLDLimPending = 1 \<and>
     L 1 BWLDLimPending \<le> uint (GetLimit (b_nodes b' ! 1) BWLDLimPending) \<and> GetUsed (b_nodes b' ! 1) BWLDLimPending = 1"
proof -
  let ?c0 = "sample_child\<lparr>ch_node := None\<rparr>" and ?q = "BWLDQuery LE BWLDMESGREQUEST (LimRec BWLDLimPending 1)"
  have f1: "fdtable sample_broker1 5 = Some 0" "heap sample_broker1 0 = Some ?c0" "b_nodes sample_broker1 = sample_tree"
    "b_classes sample_broker1 ''guest'' = Some 1"
    by (simp_all add: sample_broker1_def AllocChldState_def sample_broker_def sample_child_def)
  obtain oc where oc: "CheckFD LE None None sample_broker1 ?c0 (BWLDSendClass LE ''guest'') = Some oc"
      "ch_node (o_child oc) = Some 1" "o_nodes oc = sample_tree"
    using class_message [of ?c0 "''guest''" LE None None sample_broker1 "[]"] f1(3,4)
    by (auto simp: BWLDMAXCLASSLEN_def char_byte_def)
  define b2 where "b2 = commit sample_broker1 0 oc"
  have f2: "fdtable b2 5 = Some 0" "heap b2 0 = Some (o_child oc)" "b_nodes b2 = sample_tree"
    using f1 oc(3) by (simp_all add: b2_def commit_def)
  have s2: "broker_ledger LE 2 (sample_broker1, empty_ledger) (b2, empty_ledger)"
    using broker_ledger.message [OF f1(1,2) _ oc(1), of 2 empty_ledger] by (simp add: ledger_message_def b2_def)
  obtain ns' where d: "BWLDResourceDemand (b_nodes b2) 1 BWLDMESGREQUEST (LimRec BWLDLimPending 1) = Some (True, ns')"
      "length ns' = 2" "\<forall>m < 2. \<forall>l. GetLimit (ns' ! m) l = GetLimit (sample_tree ! m) l"
    unfolding f2(3) by (rule sample_grant)
  obtain oc3 where oc3: "CheckFD LE None None b2 (o_child oc) ?q = Some oc3" "o_nodes oc3 = ns'"
    using resource_message [OF oc(2) _ d(1), of LE None None "[]"] by auto
  have a: "resource_asked LE ?q = Some (BWLDMESGREQUEST, LimRec BWLDLimPending 1)"
    using query_asked [of BWLDMESGREQUEST LE _ "[]"] by simp
  define L where "L = ledger_message LE b2 (o_child oc) ?q empty_ledger"
  have s3: "broker_ledger LE 2 (b2, empty_ledger) (commit b2 0 oc3, L)"
    unfolding L_def by (rule broker_ledger.message [OF f2(1,2) _ oc3(1)]) (auto simp: a)
  have L: "L 1 BWLDLimPending = 1"
    using d(1) by (simp add: L_def ledger_message_def oc(2) a ledger_entry_def f2(3) sample_tree_ok sample_path)
  have n: "b_nodes (commit b2 0 oc3) = ns'" by (simp add: commit_def oc3(2))
  have run: "(broker_ledger LE 2)\<^sup>*\<^sup>* (sample_broker, empty_ledger) (commit b2 0 oc3, L)"
    by (rule rtranclp.rtrancl_into_rtrancl [OF rtranclp.rtrancl_into_rtrancl [OF
          r_into_rtranclp [of "broker_ledger LE 2", OF sample_broker1_start] s2] s3])
  have "GetLimit (ns' ! 1) BWLDLimPending = 1" using d(3) by (simp add: sample_values)
  then show ?thesis
    using broker_grants_within_limits [OF sample_broker_initial run, of 1 BWLDLimPending] d(2) run L
    by (intro exI [of _ "commit b2 0 oc3"] exI [of _ L]) (simp add: n)
qed

lemma completion_message:
  assumes "ch_node cs = Some n" and "length sid = 16"
  shows "\<exists>oc. CheckFD e rnd currtime b cs (BWLDSendTestComplete e sid aval @ rest) = Some oc \<and>
    o_rest oc = rest \<and> o_nodes oc = b_nodes b \<and>
    (case ch_res cs of
       Some res \<Rightarrow> if take 8 sid = take 8 (r_sid res)
         then o_slots oc = ResRemove (b_slots b) res \<and> o_child oc = cs\<lparr>ch_res := None\<rparr> \<and> \<not> o_kill oc \<and>
           BWLDReadResponse e (o_sent oc) = (BWLDMESGOK, [])
         else o_slots oc = b_slots b \<and> o_child oc = cs \<and> o_kill oc \<and> o_sent oc = []
     | None \<Rightarrow> o_slots oc = b_slots b \<and> o_child oc = cs \<and> o_kill oc \<and> o_sent oc = [])"
proof -
  have "BWLDReadTestComplete e (complete_body e (sid, aval) @ rest) = (Some (sid, aval), rest)"
    unfolding BWLDReadTestComplete_def
    using assms(2) complete.enc_width [of "(sid, aval)" e] complete.dec_msg [of "(sid, aval)" e]
    by (intro read_body_codec) simp_all
  then show ?thesis
    using assms(1)
    by (auto simp: CheckFD_def BWLDSendTestComplete_def ChldReservationComplete_def DeleteReservation_def
        same_sid_def Let_def split: option.split)
qed

text \<open>
  C23. A completion message is a remote call of \<open>ChldReservationComplete\<close>. It is accepted exactly when
  the child holds a reservation whose session identifier agrees in the first eight of its sixteen
  bytes; otherwise nothing changes, no answer is sent and the child is killed.
\<close>

theorem completion_frees_reservation:
  assumes "ch_node cs = Some n" and "length sid = 16"
  shows "\<exists>oc. CheckFD e rnd currtime b cs (BWLDSendTestComplete e sid aval @ rest) = Some oc \<and>
    o_rest oc = rest \<and> o_nodes oc = b_nodes b \<and>
    (case ch_res cs of
       Some res \<Rightarrow> if take 8 sid = take 8 (r_sid res)
         then o_slots oc = ResRemove (b_slots b) res \<and> o_child oc = cs\<lparr>ch_res := None\<rparr> \<and> \<not> o_kill oc \<and>
           BWLDReadResponse e (o_sent oc) = (BWLDMESGOK, [])
         else o_slots oc = b_slots b \<and> o_child oc = cs \<and> o_kill oc \<and> o_sent oc = []
     | None \<Rightarrow> o_slots oc = b_slots b \<and> o_child oc = cs \<and> o_kill oc \<and> o_sent oc = [])"
  using assms by (rule completion_message)

theorem completion_frees_reservation_witness:
  "\<exists>oc. CheckFD LE None None sample_broker sample_child (BWLDSendTestComplete LE (replicate 16 7) 0) = Some oc \<and>
    o_kill oc \<and> o_sent oc = []"
  using completion_frees_reservation [of sample_child 1 "replicate 16 7" LE None None sample_broker 0 "[]"]
  by (auto simp: sample_child_def)

end
