(* ===== verification/CStrings.thy ===== *)
theory CStrings
  imports Prelude
begin

unbundle bit_operations_syntax

text \<open>
  Strings as C programs handle them: a buffer of characters with a terminating NUL, positions in
  it as pointers, and the functions of the C library that the readers of the configuration files
  use (\<open>isspace\<close>, \<open>strtok\<close>, \<open>strncasecmp\<close>, \<open>strtoul\<close>). \<open>strtok\<close> writes a NUL over the delimiter it
  finds, so the buffer is part of its result; a loop that runs past the end of the buffer is the
  value \<open>Overrun\<close>, where the behaviour of the program is undefined.
\<close>

section \<open>Results of a reader\<close>

datatype 'a parsed = Overrun | Failed | Parsed 'a

primrec andThen :: "'a parsed \<Rightarrow> ('a \<Rightarrow> 'b parsed) \<Rightarrow> 'b parsed" where
  "andThen Overrun f = Overrun"
| "andThen Failed f = Failed"
| "andThen (Parsed x) f = f x"

lemma andThen_cong [fundef_cong]:
  "m = m' \<Longrightarrow> (\<And>x. m' = Parsed x \<Longrightarrow> f x = f' x) \<Longrightarrow> andThen m f = andThen m' f'"
  by (cases m') simp_all

lemma andThen_Parsed: "(andThen m f = Parsed y) = (\<exists>x. m = Parsed x \<and> f x = Parsed y)"
  by (cases m) simp_all

fun of_option :: "'a option \<Rightarrow> 'a parsed" where
  "of_option None = Failed"
| "of_option (Some x) = Parsed x"

lemma of_option_Parsed [simp]: "(of_option m = Parsed x) = (m = Some x)"
  by (cases m) simp_all

section \<open>Characters\<close>

definition NUL :: char where "NUL = CHR 0x00"

definition isspace :: "char \<Rightarrow> bool" where
  "isspace c \<longleftrightarrow> c \<in> {CHR '' '', CHR 0x09, CHR 0x0A, CHR 0x0B, CHR 0x0C, CHR 0x0D}"

definition isdigit :: "char \<Rightarrow> bool" where
  "isdigit c \<longleftrightarrow> 48 \<le> (of_char c :: nat) \<and> (of_char c :: nat) \<le> 57"

definition tolower :: "char \<Rightarrow> char" where
  "tolower c = (if 65 \<le> (of_char c :: nat) \<and> (of_char c :: nat) \<le> 90 then char_of ((of_char c :: nat) + 32) else c)"

text \<open>\<open>strncasecmp (a, b, n) == 0\<close>: the NUL takes part in the comparison.\<close>

definition strncaseeq :: "string \<Rightarrow> string \<Rightarrow> nat \<Rightarrow> bool" where
  "strncaseeq a b n \<longleftrightarrow> map tolower (take n (a @ [NUL])) = map tolower (take n (b @ [NUL]))"

section \<open>Positions in a buffer\<close>

text \<open>The first position from \<open>i\<close> on whose character does not satisfy \<open>P\<close>.\<close>

definition scan :: "(char \<Rightarrow> bool) \<Rightarrow> string \<Rightarrow> nat \<Rightarrow> nat parsed" where
  "scan P buf i = (let j = i + length (takeWhile P (drop i buf)) in if j < length buf then Parsed j else Overrun)"

definition cstr_at :: "string \<Rightarrow> nat \<Rightarrow> string" where
  "cstr_at buf i = takeWhile (\<lambda>c. c \<noteq> NUL) (drop i buf)"

text \<open>
  \<open>strtok\<close> from the saved position \<open>i\<close>: the token (\<open>None\<close>: no more), the buffer and the position
  saved for the next call.
\<close>

definition strtok :: "string \<Rightarrow> string \<Rightarrow> nat \<Rightarrow> (nat option \<times> string \<times> nat) parsed" where
  "strtok delims buf i =
     andThen (scan (\<lambda>c. c \<in> set delims \<and> c \<noteq> NUL) buf i) (\<lambda>j.
       if buf ! j = NUL then Parsed (None, buf, j)
       else andThen (scan (\<lambda>c. c \<notin> set delims \<and> c \<noteq> NUL) buf j) (\<lambda>k.
         if buf ! k = NUL then Parsed (Some j, buf, k) else Parsed (Some j, buf[k := NUL], Suc k)))"

lemma scan_Parsed:
  assumes "scan P buf i = Parsed j"
  shows "i \<le> j" "j < length buf" "\<not> P (buf ! j)"
proof -
  define n where "n = length (takeWhile P (drop i buf))"
  have j: "j = i + n" "j < length buf" using assms by (auto simp: scan_def n_def Let_def split: if_splits)
  then have "n < length (drop i buf)" by simp
  then have "\<not> P (drop i buf ! n)" unfolding n_def using nth_length_takeWhile by blast
  then show "i \<le> j" "j < length buf" "\<not> P (buf ! j)" using j by (simp_all add: add.commute)
qed

lemma strtok_progress:
  assumes "strtok delims buf i = Parsed (Some t, buf', i')"
  shows "length buf' = length buf" "i < length buf" "i < i'"
proof -
  obtain j k where j: "scan (\<lambda>c. c \<in> set delims \<and> c \<noteq> NUL) buf i = Parsed j" "buf ! j \<noteq> NUL"
    and k: "scan (\<lambda>c. c \<notin> set delims \<and> c \<noteq> NUL) buf j = Parsed k"
    and r: "(buf ! k = NUL \<and> i' = k \<and> buf' = buf) \<or> (buf ! k \<noteq> NUL \<and> i' = Suc k \<and> buf' = buf[k := NUL])"
    using assms by (auto simp: strtok_def andThen_Parsed split: if_splits)
  have "j \<noteq> k \<or> buf ! k \<noteq> NUL" using j(2) by auto
  then show "length buf' = length buf" "i < length buf" "i < i'"
    using scan_Parsed(1,2) [OF j(1)] scan_Parsed(1,2) [OF k] r by auto
qed

section \<open>Numbers\<close>

text \<open>
  \<open>strtoul (s, &end, 10)\<close>: the value and what follows it. Without a digit nothing is consumed; a value
  that does not fit is \<open>ULONG_MAX\<close>; a minus sign negates modulo \<open>2 ^ 64\<close>.
\<close>

definition digits_value :: "string \<Rightarrow> int" where
  "digits_value ds = foldl (\<lambda>n c. 10 * n + (of_char c - 48)) 0 ds"

definition strtoul10 :: "string \<Rightarrow> u64 \<times> string" where
  "strtoul10 s =
     (let s1 = dropWhile isspace s;
          neg = (s1 \<noteq> [] \<and> hd s1 = CHR ''-'');
          s2 = (if s1 \<noteq> [] \<and> hd s1 \<in> {CHR ''-'', CHR ''+''} then tl s1 else s1);
          ds = takeWhile isdigit s2
      in if ds = [] then (0, s)
         else (if digits_value ds \<ge> 2 ^ 64 then -1 else if neg then - of_int (digits_value ds) else of_int (digits_value ds),
               dropWhile isdigit s2))"

end
