(* ===== verification/PolicyConf.thy ===== *)
theory PolicyConf
  imports Broker CStrings
begin

unbundle bit_operations_syntax

text \<open>
  The configuration of the policy, \<open>bwctld/policy.c\<close>: the readers of the limits file
  (\<open>parselimitline\<close>, \<open>parseassignline\<close>, \<open>parselimits\<close>), the keys, and the choice of the usage class of
  a connection by user or by network (\<open>GetNodeDefault\<close>, \<open>GetNodeFromUserID\<close>, \<open>GetNodeFromAddr\<close>,
  \<open>BWLDAllowOpenMode\<close>). The C functions of I2util are the parameters of \<open>conf_lib\<close>: the set of white
  space, the number reader, and the name resolver of the system; the line reader and the key file
  reader are represented by what they deliver.

  Shown: a limits file that is accepted gives a well-formed tree of classes with nothing in use, whose
  tables fit and whose numeric limits bind all classes below, and so an initial state of
  the broker (\<open>accepted_limits_are_sound\<close>); the class of an address is the one of the longest
  configured network that contains it, or the default (\<open>longest_network_wins\<close>).
\<close>

section \<open>The policy record\<close>

datatype BWLDPid = PidDefault | PidNet nat nat "u8 list" | PidUser "u8 list"

record BWLDPolicy =
  root :: "nat option"
  pnodes :: nodes
  plimits :: "string \<rightharpoonup> nat"
  idents :: "BWLDPid \<rightharpoonup> nat"
  keys :: "string \<rightharpoonup> u8 list"

definition empty_policy :: BWLDPolicy where
  "empty_policy = \<lparr>root = None, pnodes = [], plimits = Map.empty, idents = Map.empty, keys = Map.empty\<rparr>"

record conf_lib =
  I2WSPACESET :: string
  I2StrToNum :: "string \<Rightarrow> BWLDLimitT option"
  getaddrinfo :: "string \<Rightarrow> sockaddr option"

section \<open>Keys\<close>

text \<open>What \<open>I2ParseKeyFile\<close> delivers is a list of names and keys; a name twice is an error.\<close>

fun parsekeys :: "BWLDPolicy \<Rightarrow> (string \<times> u8 list) list \<Rightarrow> BWLDPolicy option" where
  "parsekeys p [] = Some p"
| "parsekeys p ((username, tkey) # ks) =
    (if keys p username \<noteq> None then None else parsekeys (p\<lparr>keys := (keys p)(username \<mapsto> tkey)\<rparr>) ks)"

definition BWLDGetAESKey :: "BWLDPolicy \<Rightarrow> string \<Rightarrow> u8 list option" where
  "BWLDGetAESKey p userid = keys p userid"

section \<open>Limit lines\<close>

definition maxlim :: nat where
  "maxlim = length (filter (\<lambda>k. ld_ltype k \<noteq> LIMNOT) limkeys)"

text \<open>One \<open>name = value\<close> pair of a limit line: the buffer and the positions of the name and the value.\<close>

definition grab_pair :: "string \<Rightarrow> nat \<Rightarrow> (string \<times> nat \<times> nat) parsed" where
  "grab_pair buf line =
     andThen (scan isspace buf line) (\<lambda>limname.
     andThen (scan (\<lambda>c. \<not> isspace c \<and> c \<noteq> CHR ''='') buf limname) (\<lambda>b.
     let buf = buf[b := NUL] in
     andThen (scan (\<lambda>c. isspace c \<or> c = CHR ''='') buf (Suc b)) (\<lambda>limval.
     andThen (scan (\<lambda>c. \<not> isspace c \<and> c \<noteq> NUL) buf limval) (\<lambda>d.
     if buf ! d = NUL then Parsed (buf, limname, limval)
     else let buf = buf[d := NUL] in
       andThen (scan isspace buf (Suc d)) (\<lambda>f.
         if buf ! f \<noteq> NUL then Failed else Parsed (buf, limname, limval))))))"

record limit_state =
  ls_parent :: "nat option"
  ls_lims :: "BWLDLimRec list"

definition find_limname :: "string \<Rightarrow> limdesc option" where
  "find_limname limname = find (\<lambda>k. ld_ltype k \<noteq> LIMNOT \<and> strncaseeq limname (ld_lname k) (length (ld_lname k) + 1)) limkeys"

definition limit_value :: "conf_lib \<Rightarrow> limtype \<Rightarrow> string \<Rightarrow> BWLDLimitT option" where
  "limit_value i2 t limval =
     (if t = LIMBOOL then if strncaseeq limval ''on'' 3 then Some 1 else if strncaseeq limval ''off'' 4 then Some 0 else None
      else I2StrToNum i2 limval)"

definition add_limit :: "conf_lib \<Rightarrow> BWLDPolicy \<Rightarrow> limit_state \<Rightarrow> string \<Rightarrow> string \<Rightarrow> limit_state option" where
  "add_limit i2 p st limname limval =
     (if strncaseeq limname ''parent'' 7 then
        if root p = None \<or> ls_parent st \<noteq> None then None
        else map_option (\<lambda>n. st\<lparr>ls_parent := Some n\<rparr>) (plimits p limval)
      else case find_limname limname of None \<Rightarrow> None
      | Some k \<Rightarrow>
          if lim_index (ld_limit k) (ls_lims st) \<noteq> None then None
          else map_option (\<lambda>v. st\<lparr>ls_lims := ls_lims st @ [\<lparr>lim_limit = ld_limit k, lim_value = v\<rparr>]\<rparr>)
            (limit_value i2 (ld_ltype k) limval))"

lemma grab_pair_length:
  assumes "grab_pair buf line = Parsed (buf', a, b)"
  shows "length buf' = length buf"
  using assms by (auto simp: grab_pair_def andThen_Parsed Let_def split: if_splits)

text \<open>The loop over the pairs, which \<open>strtok\<close> separates at commas.\<close>

function limit_pairs :: "conf_lib \<Rightarrow> BWLDPolicy \<Rightarrow> limit_state \<Rightarrow> string \<Rightarrow> nat \<Rightarrow> limit_state parsed" where
  "limit_pairs i2 p st buf i =
     andThen (strtok '','' buf i) (\<lambda>(tok, buf, i'). case tok of None \<Rightarrow> Parsed st
       | Some line \<Rightarrow>
           if maxlim \<le> length (ls_lims st) then Failed
           else andThen (grab_pair buf line) (\<lambda>(buf, limname, limval).
             andThen (of_option (add_limit i2 p st (cstr_at buf limname) (cstr_at buf limval))) (\<lambda>st.
               limit_pairs i2 p st buf i')))"
  by pat_completeness auto
termination
proof (relation "measure (\<lambda>(i2, p, st, buf, i). length buf - i)")
  fix i2 :: conf_lib and p and st st' :: limit_state and buf i x tok y buf1 i' line z buf2 w limname limval
  assume a: "strtok '','' buf i = Parsed x" "(tok, y) = x" "(buf1, i') = y" "tok = Some line"
    "grab_pair buf1 line = Parsed z" "(buf2, w) = z" "(limname, limval) = w"
  have "strtok '','' buf i = Parsed (Some line, buf1, i')" using a by auto
  moreover have "length buf2 = length buf1" using a by (auto dest: grab_pair_length)
  ultimately show "((i2, p, st', buf2, i'), i2, p, st, buf, i) \<in> measure (\<lambda>(i2, p, st, buf, i). length buf - i)"
    using strtok_progress [of "'',''" buf i line buf1 i'] by simp
qed simp

declare limit_pairs.simps [simp del]

text \<open>
  A limit of the parent: copied when the line does not set it; otherwise an integer limit may only be
  made smaller.
\<close>

definition merge_limit :: "BWLDLimRec \<Rightarrow> BWLDLimRec list \<Rightarrow> BWLDLimRec list" where
  "merge_limit pl lims = (case lim_index (lim_limit pl) lims of None \<Rightarrow> lims @ [pl]
     | Some j \<Rightarrow>
         if limkind_of (lim_limit pl) \<in> {LIMINT, LIMFIXEDINT} \<and> lim_value pl \<noteq> 0 \<and> \<not> lim_value (lims ! j) \<le> lim_value pl
         then lims[j := (lims ! j)\<lparr>lim_value := lim_value pl\<rparr>] else lims)"

definition install_node :: "BWLDPolicy \<Rightarrow> string \<Rightarrow> limit_state \<Rightarrow> BWLDPolicy" where
  "install_node p cname st =
     (let n = length (pnodes p);
          node = \<lparr>nodename = cname, parent = ls_parent st, limits = ls_lims st,
                  used = map (\<lambda>l. l\<lparr>lim_value := 0\<rparr>) (ls_lims st)\<rparr>
      in p\<lparr>pnodes := pnodes p @ [node], plimits := (plimits p)(cname \<mapsto> n),
           root := if root p = None then Some n else root p\<rparr>)"

definition finish_limits :: "BWLDPolicy \<Rightarrow> string \<Rightarrow> limit_state \<Rightarrow> BWLDPolicy option" where
  "finish_limits p cname st = (case ls_parent st of
       Some n \<Rightarrow> Some (install_node p cname (st\<lparr>ls_lims := fold merge_limit (limits (pnodes p ! n)) (ls_lims st)\<rparr>))
     | None \<Rightarrow> if root p \<noteq> None then None else Some (install_node p cname st))"

definition parselimitline :: "conf_lib \<Rightarrow> BWLDPolicy \<Rightarrow> string \<Rightarrow> BWLDPolicy parsed" where
  "parselimitline i2 p line =
     andThen (strtok (I2WSPACESET i2) (line @ [NUL]) 0) (\<lambda>(tok, buf, i). case tok of None \<Rightarrow> Failed
     | Some c \<Rightarrow>
         let cname = cstr_at buf c in
         if BWLDMAXCLASSLEN < length cname \<or> plimits p cname \<noteq> None then Failed
         else andThen (strtok (I2WSPACESET i2) buf i) (\<lambda>(tok, buf, i). case tok of None \<Rightarrow> Failed
           | Some w \<Rightarrow>
               if \<not> strncaseeq (cstr_at buf w) ''with'' 5 then Failed
               else andThen (limit_pairs i2 p \<lparr>ls_parent = None, ls_lims = []\<rparr> buf i) (\<lambda>st.
                 of_option (finish_limits p cname st))))"

section \<open>Assign lines\<close>

text \<open>The bytes of an address, an IPv4 address mapped into IPv6 as an IPv4 address, in a field of 16 bytes.\<close>

definition v4mapped :: "u8 list \<Rightarrow> bool" where
  "v4mapped a \<longleftrightarrow> take 12 a = replicate 10 0 @ [0xFF, 0xFF]"

fun addr_bytes :: "sockaddr \<Rightarrow> (nat \<times> u8 list) option" where
  "addr_bytes (AF_INET6 a) = Some (if v4mapped a then (4, take 4 (drop 12 a) @ replicate 12 0) else (16, a))"
| "addr_bytes (AF_INET a) = Some (4, a @ replicate 12 0)"
| "addr_bytes AF_OTHER = None"

definition parse_mask :: "nat \<Rightarrow> string \<Rightarrow> nat option" where
  "parse_mask addrsize s = (let (v, rest) = strtoul10 s; tlng = (scast (ucast v :: 32 word) :: u64)
     in if rest \<noteq> [] \<or> tlng < 1 \<or> of_nat (addrsize * 8) < tlng then None else Some (unat tlng))"

text \<open>No bit of the address lies beyond the mask.\<close>

definition host_bits_clear :: "nat \<Rightarrow> nat \<Rightarrow> u8 list \<Rightarrow> bool" where
  "host_bits_clear mask_len addrsize addr =
     (let nbytes = mask_len div 8; nbits = mask_len mod 8
      in (nbytes < addrsize \<longrightarrow> addr ! nbytes AND NOT (push_bit (8 - nbits) 0xFF) = 0) \<and>
         list_all (\<lambda>b. b = 0) (slice (nbytes + 1) (addrsize - (nbytes + 1)) addr))"

definition assign_net :: "conf_lib \<Rightarrow> string \<Rightarrow> BWLDPid option" where
  "assign_net i2 arg =
     (let (name, mask) = (takeWhile (\<lambda>c. c \<noteq> CHR ''/'') arg, dropWhile (\<lambda>c. c \<noteq> CHR ''/'') arg)
      in if mask = ''/'' then None
         else case Option.bind (getaddrinfo i2 name) addr_bytes of None \<Rightarrow> None
         | Some (addrsize, addr) \<Rightarrow>
             (case if mask = [] then Some (addrsize * 8) else parse_mask addrsize (tl mask) of None \<Rightarrow> None
              | Some mask_len \<Rightarrow>
                  if host_bits_clear mask_len addrsize addr then Some (PidNet mask_len addrsize addr) else None))"

text \<open>The user field: 17 bytes, at least one NUL.\<close>

definition user_field :: "string \<Rightarrow> u8 list" where
  "user_field s = map char_byte s @ replicate (17 - length s) 0"

definition assign_user :: "BWLDPolicy \<Rightarrow> string \<Rightarrow> BWLDPid option" where
  "assign_user p name = (if 17 \<le> length name \<or> keys p name = None then None else Some (PidUser (user_field name)))"

definition assign_class :: "conf_lib \<Rightarrow> BWLDPolicy \<Rightarrow> BWLDPid \<Rightarrow> string \<Rightarrow> nat \<Rightarrow> BWLDPolicy parsed" where
  "assign_class i2 p pid buf i =
     andThen (strtok (I2WSPACESET i2) buf i) (\<lambda>(tok, buf, i). case tok of None \<Rightarrow> Failed
     | Some c \<Rightarrow> (case plimits p (cstr_at buf c) of None \<Rightarrow> Failed
        | Some n \<Rightarrow> Parsed (p\<lparr>idents := (idents p)(pid \<mapsto> n)\<rparr>)))"

text \<open>The next word of the line as the argument of \<open>f\<close>, which makes the identity.\<close>

definition assign_arg ::
  "conf_lib \<Rightarrow> BWLDPolicy \<Rightarrow> (string \<Rightarrow> BWLDPid option) \<Rightarrow> string \<Rightarrow> nat \<Rightarrow> BWLDPolicy parsed" where
  "assign_arg i2 p f buf i =
     andThen (strtok (I2WSPACESET i2) buf i) (\<lambda>(tok, buf, i). case tok of None \<Rightarrow> Failed
     | Some a \<Rightarrow> andThen (of_option (f (cstr_at buf a))) (\<lambda>pid. assign_class i2 p pid buf i))"

definition parseassignline :: "conf_lib \<Rightarrow> BWLDPolicy \<Rightarrow> string \<Rightarrow> BWLDPolicy parsed" where
  "parseassignline i2 p line =
     andThen (strtok (I2WSPACESET i2) (line @ [NUL]) 0) (\<lambda>(tok, buf, i). case tok of None \<Rightarrow> Failed
     | Some t \<Rightarrow>
         let kind = cstr_at buf t in
         if strncaseeq kind ''default'' 8 then
           if idents p PidDefault \<noteq> None then Failed else assign_class i2 p PidDefault buf i
         else if strncaseeq kind ''net'' 4 then assign_arg i2 p (assign_net i2) buf i
         else if strncaseeq kind ''user'' 5 then assign_arg i2 p (assign_user p) buf i
         else Failed)"

section \<open>The limits file\<close>

text \<open>The lines \<open>I2GetConfLine\<close> delivers, and whether the file ended without an error.\<close>

fun parse_lines :: "conf_lib \<Rightarrow> BWLDPolicy \<Rightarrow> string list \<Rightarrow> BWLDPolicy parsed" where
  "parse_lines i2 p [] = Parsed p"
| "parse_lines i2 p (line # ls) =
     andThen (if strncaseeq line ''limit'' 5 then parselimitline i2 p (dropWhile isspace (drop 5 line))
              else if strncaseeq line ''assign'' 6 then parseassignline i2 p (dropWhile isspace (drop 6 line))
              else Failed)
       (\<lambda>p. parse_lines i2 p ls)"

definition parselimits :: "conf_lib \<Rightarrow> BWLDPolicy \<Rightarrow> string list \<Rightarrow> bool \<Rightarrow> BWLDPolicy parsed" where
  "parselimits i2 p ls eof =
     andThen (parse_lines i2 p ls) (\<lambda>p.
       if \<not> eof then Failed
       else if root p = None then parselimitline i2 p ''default with duration=30, max_time_error=10''
       else Parsed p)"

definition BWLDPolicyInstall ::
  "conf_lib \<Rightarrow> (string \<times> u8 list) list \<Rightarrow> string list \<Rightarrow> bool \<Rightarrow> BWLDPolicy parsed" where
  "BWLDPolicyInstall i2 ks ls eof = andThen (of_option (parsekeys empty_policy ks)) (\<lambda>p. parselimits i2 p ls eof)"

section \<open>The class of a connection\<close>

definition GetNodeDefault :: "BWLDPolicy \<Rightarrow> nat option" where
  "GetNodeDefault p = (case idents p PidDefault of Some n \<Rightarrow> Some n | None \<Rightarrow> root p)"

definition GetNodeFromUserID :: "BWLDPolicy \<Rightarrow> u8 list \<Rightarrow> nat option" where
  "GetNodeFromUserID p userid = idents p (PidUser userid)"

fun net_lookup :: "(BWLDPid \<rightharpoonup> nat) \<Rightarrow> nat \<Rightarrow> u8 list \<Rightarrow> nat \<Rightarrow> nat option" where
  "net_lookup ids addrsize addr 0 = None"
| "net_lookup ids addrsize addr (Suc m) =
    (let nbytes = Suc m div 8; nbits = Suc m mod 8;
         addr = (if nbytes < addrsize then addr[nbytes := addr ! nbytes AND push_bit (8 - nbits) 0xFF] else addr)
     in case ids (PidNet (Suc m) addrsize addr) of Some n \<Rightarrow> Some n | None \<Rightarrow> net_lookup ids addrsize addr m)"

definition GetNodeFromAddr :: "BWLDPolicy \<Rightarrow> sockaddr \<Rightarrow> nat option" where
  "GetNodeFromAddr p remote = (case addr_bytes remote of None \<Rightarrow> None
     | Some (addrsize, addr) \<Rightarrow> (case net_lookup (idents p) addrsize addr (addrsize * 8) of
         Some n \<Rightarrow> Some n | None \<Rightarrow> GetNodeDefault p))"

text \<open>\<open>None\<close>: the error return.\<close>

definition BWLDAllowOpenMode :: "BWLDPolicy \<Rightarrow> sockaddr \<Rightarrow> bool option" where
  "BWLDAllowOpenMode p remote =
     map_option (\<lambda>n. GetLimit (pnodes p ! n) BWLDLimAllowOpenMode \<noteq> 0) (GetNodeFromAddr p remote)"

section \<open>Sound tables of limits\<close>

definition limit_names :: "BWLDMesgT list" where
  "limit_names = map ld_limit (filter (\<lambda>k. ld_ltype k \<noteq> LIMNOT) limkeys)"

definition limits_ok :: "BWLDLimRec list \<Rightarrow> bool" where
  "limits_ok ls \<longleftrightarrow> distinct (map lim_limit ls) \<and> lim_limit ` set ls \<subseteq> set limit_names"

text \<open>
  The limits of a class have the record \<open>pl\<close> of its parent, and a numeric value that is at most the one of
  the parent unless that is 0. Nothing is said of limits that are on or off.
\<close>

definition tight :: "BWLDLimRec list \<Rightarrow> BWLDLimRec \<Rightarrow> bool" where
  "tight lims pl = (case lim_index (lim_limit pl) lims of None \<Rightarrow> False
     | Some j \<Rightarrow> limkind_of (lim_limit pl) \<in> {LIMINT, LIMFIXEDINT} \<and> lim_value pl \<noteq> 0 \<longrightarrow> lim_value (lims ! j) \<le> lim_value pl)"

lemma maxlim_eq [simp]: "maxlim = 10"
  by (simp add: maxlim_def limkeys_def limdesc_of_def)

lemma lim_index_None: "lim_index l ls = None \<longleftrightarrow> l \<notin> lim_limit ` set ls"
  by (induction ls) auto

lemma lim_index_append:
  "lim_index l (xs @ ys) = (case lim_index l xs of Some i \<Rightarrow> Some i | None \<Rightarrow> map_option ((+) (length xs)) (lim_index l ys))"
  by (induction xs) (auto simp: option.map_comp comp_def map_option_idI intro!: map_option_cong split: option.splits)

lemma lim_index_update:
  "j < length ls \<Longrightarrow> lim_limit r = lim_limit (ls ! j) \<Longrightarrow> lim_index l (ls[j := r]) = lim_index l ls"
  by (induction ls arbitrary: j) (auto split: nat.splits)

lemma map_limit_update:
  "lim_limit r = lim_limit (ls ! j) \<Longrightarrow> map lim_limit (ls[j := r]) = map lim_limit ls"
  by (metis list_update_id map_update)

lemma limits_ok_length: "limits_ok ls \<Longrightarrow> length ls \<le> 10"
proof -
  assume ok: "limits_ok ls"
  have "card (lim_limit ` set ls) \<le> card (set limit_names)"
    using ok by (intro card_mono) (simp_all add: limits_ok_def)
  also have "\<dots> \<le> maxlim" using card_length [of limit_names] by (simp add: limit_names_def maxlim_def del: maxlim_eq)
  finally show ?thesis using ok distinct_card [of "map lim_limit ls"] by (simp add: limits_ok_def)
qed

lemma find_limname_key: "find_limname s = Some k \<Longrightarrow> ld_limit k \<in> set limit_names"
  by (auto simp: find_limname_def find_Some_iff limit_names_def)

lemma limits_ok_snoc:
  "limits_ok (ls @ [r]) \<longleftrightarrow> limits_ok ls \<and> lim_index (lim_limit r) ls = None \<and> lim_limit r \<in> set limit_names"
  by (auto simp: limits_ok_def lim_index_None)

lemma limits_ok_merge:
  assumes "limits_ok lims" and "lim_limit pl \<in> set limit_names"
  shows "limits_ok (merge_limit pl lims)"
proof (cases "lim_index (lim_limit pl) lims")
  case None
  then show ?thesis using assms by (simp add: merge_limit_def limits_ok_snoc)
next
  case (Some j)
  have "limits_ok (lims[j := (lims ! j)\<lparr>lim_value := v\<rparr>])" for v
    using assms(1) map_limit_update [of "(lims ! j)\<lparr>lim_value := v\<rparr>" lims j]
    by (metis (no_types, lifting) BWLDLimRec.simps(1) BWLDLimRec.surjective BWLDLimRec.update_convs(2) image_set limits_ok_def)
  then show ?thesis using assms(1) Some by (simp add: merge_limit_def)
qed

lemma tight_merge: "tight (merge_limit pl lims) pl"
proof (cases "lim_index (lim_limit pl) lims")
  case None
  then show ?thesis by (simp add: merge_limit_def tight_def lim_index_append)
next
  case (Some j)
  then have "j < length lims" "lim_limit (lims ! j) = lim_limit pl" by (simp_all add: lim_index_bound lim_index_name)
  then show ?thesis using Some by (auto simp: merge_limit_def tight_def lim_index_update)
qed

lemma tight_merge_other:
  assumes "tight lims pl" and "lim_limit pl' \<noteq> lim_limit pl"
  shows "tight (merge_limit pl' lims) pl"
proof -
  obtain i where i: "lim_index (lim_limit pl) lims = Some i" using assms(1) by (auto simp: tight_def split: option.splits)
  then have il: "i < length lims" "lim_limit (lims ! i) = lim_limit pl" by (simp_all add: lim_index_bound lim_index_name)
  show ?thesis
  proof (cases "lim_index (lim_limit pl') lims")
    case None
    then show ?thesis using assms i il by (simp add: merge_limit_def tight_def lim_index_append nth_append)
  next
    case (Some j)
    then have j: "j < length lims" "lim_limit (lims ! j) = lim_limit pl'" by (simp_all add: lim_index_bound lim_index_name)
    then have "i \<noteq> j" using il assms(2) by auto
    then show ?thesis using assms i il j Some by (auto simp: merge_limit_def tight_def lim_index_update)
  qed
qed

lemma merge_limits:
  assumes "limits_ok pls" and "limits_ok lims"
  shows "limits_ok (fold merge_limit pls lims) \<and> (\<forall>pl \<in> set pls. tight (fold merge_limit pls lims) pl)"
proof -
  have keep: "tight (fold merge_limit ps ls) pl" if "tight ls pl" "lim_limit pl \<notin> lim_limit ` set ps" for ps ls pl
    using that by (induction ps arbitrary: ls) (auto simp: tight_merge_other)
  show ?thesis using assms
  proof (induction pls arbitrary: lims)
    case (Cons p ps)
    have ok: "limits_ok ps" "lim_limit p \<in> set limit_names" "lim_limit p \<notin> lim_limit ` set ps"
      using Cons.prems(1) by (auto simp: limits_ok_def)
    then have "limits_ok (merge_limit p lims)" using Cons.prems(2) limits_ok_merge by blast
    then show ?case using Cons.IH [OF ok(1)] keep [OF tight_merge ok(3)] by simp
  qed simp
qed

section \<open>Sound policies\<close>

lemma token_Parsed:
  "(andThen m (\<lambda>(tok, buf, i). case tok of None \<Rightarrow> Failed | Some c \<Rightarrow> f c buf i) = Parsed y) =
   (\<exists>c buf i. m = Parsed (Some c, buf, i) \<and> f c buf i = Parsed y)"
  by (cases m) (auto split: option.splits)

definition node_ok :: "BWLDPolicy \<Rightarrow> nat \<Rightarrow> bool" where
  "node_ok p n = (let node = pnodes p ! n in
     limits_ok (limits node) \<and> length (used node) = length (limits node) \<and> (\<forall>r \<in> set (used node). lim_value r = 0) \<and>
     (case parent node of None \<Rightarrow> n = 0 | Some q \<Rightarrow> q < n \<and> (\<forall>pl \<in> set (limits (pnodes p ! q)). tight (limits node) pl)) \<and>
     plimits p (nodename node) = Some n)"

fun pid_ok :: "BWLDPid \<Rightarrow> bool" where
  "pid_ok (PidNet m sz a) = (1 \<le> m \<and> m \<le> sz * 8 \<and> (sz = 4 \<or> sz = 16) \<and> length a = 16 \<and> list_all (\<lambda>b. b = 0) (drop sz a) \<and>
     host_bits_clear m sz a)"
| "pid_ok (PidUser u) = (length u = 17)"
| "pid_ok PidDefault = True"

definition policy_sound :: "BWLDPolicy \<Rightarrow> bool" where
  "policy_sound p \<longleftrightarrow> root p = (if pnodes p = [] then None else Some 0) \<and> (\<forall>n < length (pnodes p). node_ok p n) \<and>
     (\<forall>c n. plimits p c = Some n \<longrightarrow> n < length (pnodes p) \<and> cstr_ok (Suc BWLDMAXCLASSLEN) c) \<and>
     (\<forall>pid n. idents p pid = Some n \<longrightarrow> n < length (pnodes p) \<and> pid_ok pid)"

text \<open>The resolver gives addresses of the length of their family.\<close>

fun addr_ok :: "sockaddr \<Rightarrow> bool" where
  "addr_ok (AF_INET a) = (length a = 4)"
| "addr_ok (AF_INET6 a) = (length a = 16)"
| "addr_ok AF_OTHER = True"

definition lib_ok :: "conf_lib \<Rightarrow> bool" where
  "lib_ok i2 \<longleftrightarrow> (\<forall>s a. getaddrinfo i2 s = Some a \<longrightarrow> addr_ok a)"

lemma empty_policy_sound: "policy_sound empty_policy"
  by (simp add: policy_sound_def empty_policy_def)

lemma policy_sound_keys [simp]: "policy_sound (p\<lparr>keys := k\<rparr>) = policy_sound p"
  by (simp add: policy_sound_def node_ok_def cong: option.case_cong)

lemma parsekeys_sound: "parsekeys p ks = Some p' \<Longrightarrow> policy_sound p \<Longrightarrow> policy_sound p'"
  by (induction p ks rule: parsekeys.induct) (auto split: if_splits)

definition state_ok :: "BWLDPolicy \<Rightarrow> limit_state \<Rightarrow> bool" where
  "state_ok p st \<longleftrightarrow> limits_ok (ls_lims st) \<and> (\<forall>n. ls_parent st = Some n \<longrightarrow> n < length (pnodes p))"

lemma add_limit_ok:
  assumes "add_limit i2 p st a b = Some st'" and "policy_sound p" and "state_ok p st"
  shows "state_ok p st'"
  using assms
  by (auto simp: add_limit_def state_ok_def policy_sound_def limits_ok_snoc find_limname_key split: if_splits option.splits)

lemma limit_pairs_ok:
  "limit_pairs i2 p st buf i = Parsed st' \<Longrightarrow> policy_sound p \<Longrightarrow> state_ok p st \<Longrightarrow> state_ok p st'"
proof (induction i2 p st buf i rule: limit_pairs.induct)
  case (1 i2 p st buf i)
  obtain tok buf1 i1 where t: "strtok '','' buf i = Parsed (tok, buf1, i1)"
    using "1.prems"(1) by (auto simp: limit_pairs.simps [of i2 p st buf i] andThen_Parsed)
  show ?case
  proof (cases tok)
    case None
    then show ?thesis using "1.prems" t by (simp add: limit_pairs.simps [of i2 p st buf i])
  next
    case (Some line)
    obtain buf2 a b st1 where g: "maxlim > length (ls_lims st)" "grab_pair buf1 line = Parsed (buf2, a, b)"
        "add_limit i2 p st (cstr_at buf2 a) (cstr_at buf2 b) = Some st1" "limit_pairs i2 p st1 buf2 i1 = Parsed st'"
      using "1.prems"(1) t Some by (auto simp: limit_pairs.simps [of i2 p st buf i] andThen_Parsed split: if_splits)
    have "state_ok p st1" using add_limit_ok [OF g(3)] "1.prems"(2,3) by blast
    then show ?thesis using "1.IH" [OF t refl refl Some _ g(2) refl refl _ g(4)] g(1,3) "1.prems"(2) by simp
  qed
qed

lemma install_node_sound:
  assumes "policy_sound p" and "limits_ok (ls_lims st)" and "plimits p cname = None"
    and "cstr_ok (Suc BWLDMAXCLASSLEN) cname"
    and "case ls_parent st of None \<Rightarrow> pnodes p = []
         | Some q \<Rightarrow> q < length (pnodes p) \<and> (\<forall>pl \<in> set (limits (pnodes p ! q)). tight (ls_lims st) pl)"
  shows "policy_sound (install_node p cname st) \<and> pnodes (install_node p cname st) \<noteq> []"
proof -
  let ?p = "install_node p cname st"
  have nodes: "pnodes ?p = pnodes p @ [\<lparr>nodename = cname, parent = ls_parent st, limits = ls_lims st,
      used = map (\<lambda>l. l\<lparr>lim_value := 0\<rparr>) (ls_lims st)\<rparr>]"
    by (simp add: install_node_def Let_def)
  have tab: "plimits ?p = (plimits p)(cname \<mapsto> length (pnodes p))" "idents ?p = idents p"
      "root ?p = (if root p = None then Some (length (pnodes p)) else root p)"
    by (simp_all add: install_node_def Let_def)
  have old: "node_ok ?p n" if "n < length (pnodes p)" for n
  proof -
    have "nodename (pnodes p ! n) \<noteq> cname" and "node_ok p n"
      using assms(1,3) that by (auto simp: policy_sound_def node_ok_def Let_def)
    then show ?thesis using that by (auto simp: node_ok_def nodes tab nth_append Let_def split: option.splits)
  qed
  have new: "node_ok ?p (length (pnodes p))"
    using assms(2,5) by (auto simp: node_ok_def nodes tab nth_append Let_def split: option.splits)
  have "node_ok ?p n" if "n < length (pnodes ?p)" for n
    using that old new by (cases "n = length (pnodes p)") (simp_all add: nodes)
  then show ?thesis using assms(1,4) by (auto simp: policy_sound_def nodes tab less_Suc_eq split: if_splits)
qed

lemma finish_limits_sound:
  assumes "finish_limits p cname st = Some p'" and "policy_sound p" and "state_ok p st" and "plimits p cname = None"
    and "cstr_ok (Suc BWLDMAXCLASSLEN) cname"
  shows "policy_sound p' \<and> pnodes p' \<noteq> []"
proof (cases "ls_parent st")
  case None
  then have "pnodes p = []" "p' = install_node p cname st"
    using assms(1,2) by (auto simp: finish_limits_def policy_sound_def split: if_splits)
  then show ?thesis using install_node_sound [OF assms(2) _ assms(4,5)] assms(3) None by (simp add: state_ok_def)
next
  case (Some q)
  define lims where "lims = fold merge_limit (limits (pnodes p ! q)) (ls_lims st)"
  have q: "q < length (pnodes p)" "p' = install_node p cname (st\<lparr>ls_lims := lims\<rparr>)"
    using assms(1,3) Some by (auto simp: finish_limits_def state_ok_def lims_def)
  moreover have "limits_ok (limits (pnodes p ! q))" using assms(2) q(1) by (simp add: policy_sound_def node_ok_def Let_def)
  ultimately show ?thesis
    using install_node_sound [OF assms(2) _ assms(4,5), of "st\<lparr>ls_lims := lims\<rparr>"] Some
      merge_limits [of "limits (pnodes p ! q)" "ls_lims st"] assms(3) by (simp add: state_ok_def lims_def)
qed

lemma cstr_at_ok: "length (cstr_at buf i) \<le> n \<Longrightarrow> cstr_ok (Suc n) (cstr_at buf i)"
proof -
  assume "length (cstr_at buf i) \<le> n"
  moreover have "char_byte c \<noteq> 0" if "c \<in> set (cstr_at buf i)" for c
  proof
    assume "char_byte c = 0"
    then have "c = byte_char 0" by (metis char_byte_inv)
    then have "c = NUL" by (simp add: byte_char_def NUL_def char_of_def)
    then show False using that by (auto simp: cstr_at_def dest: set_takeWhileD)
  qed
  ultimately show ?thesis by (auto simp: cstr_ok_def)
qed

lemma parselimitline_sound:
  assumes "parselimitline i2 p line = Parsed p'" and "policy_sound p"
  shows "policy_sound p' \<and> pnodes p' \<noteq> []"
proof -
  obtain c buf i where c: "length (cstr_at buf c) \<le> BWLDMAXCLASSLEN" "plimits p (cstr_at buf c) = None"
    and r: "andThen (strtok (I2WSPACESET i2) buf i) (\<lambda>(tok, buf', i). case tok of None \<Rightarrow> Failed
           | Some w \<Rightarrow>
               if \<not> strncaseeq (cstr_at buf' w) ''with'' 5 then Failed
               else andThen (limit_pairs i2 p \<lparr>ls_parent = None, ls_lims = []\<rparr> buf' i) (\<lambda>st.
                 of_option (finish_limits p (cstr_at buf c) st))) = Parsed p'"
    using assms(1) [unfolded parselimitline_def token_Parsed] by (auto simp: Let_def not_less split: if_splits)
  obtain buf' i' st where st: "limit_pairs i2 p \<lparr>ls_parent = None, ls_lims = []\<rparr> buf' i' = Parsed st"
    and f: "finish_limits p (cstr_at buf c) st = Some p'"
    using r [unfolded token_Parsed] by (auto simp: andThen_Parsed split: if_splits)
  have "state_ok p \<lparr>ls_parent = None, ls_lims = []\<rparr>" by (simp add: state_ok_def limits_ok_def)
  then have "state_ok p st" using limit_pairs_ok [OF st assms(2)] by simp
  then show ?thesis using finish_limits_sound [OF f assms(2)] c cstr_at_ok by blast
qed

lemma parse_mask_bounds:
  assumes "parse_mask sz s = Some m" and "sz \<le> 16"
  shows "1 \<le> m" "m \<le> sz * 8"
proof -
  obtain t :: u64 where t: "m = unat t" "\<not> t < 1" "\<not> of_nat (sz * 8) < t"
    using assms(1) by (auto simp: parse_mask_def Let_def split: if_splits prod.splits)
  have "unat (of_nat (sz * 8) :: u64) = sz * 8"
    using assms(2) by (simp add: unat_of_nat del: of_nat_mult)
  then show "1 \<le> m" "m \<le> sz * 8" using t by (auto simp: not_less word_le_nat_alt Suc_le_eq unat_gt_0)
qed

lemma addr_bytes_ok:
  assumes "addr_bytes a = Some (sz, x)" and "addr_ok a"
  shows "length x = 16 \<and> (sz = 4 \<or> sz = 16) \<and> list_all (\<lambda>b. b = 0) (drop sz x)"
  using assms by (cases a) (auto simp: list_all_iff split: if_splits)

lemma assign_net_ok:
  assumes "assign_net i2 arg = Some pid" and "lib_ok i2"
  shows "pid_ok pid"
proof -
  obtain name a sz x m where a: "getaddrinfo i2 name = Some a" "addr_bytes a = Some (sz, x)" "host_bits_clear m sz x"
    and m: "m = sz * 8 \<or> (\<exists>s. parse_mask sz s = Some m)" and pid: "pid = PidNet m sz x"
    using assms(1) by (fastforce simp: assign_net_def Let_def bind_eq_Some_conv split: if_splits option.splits)
  have x: "length x = 16 \<and> (sz = 4 \<or> sz = 16) \<and> list_all (\<lambda>b. b = 0) (drop sz x)"
    using addr_bytes_ok [OF a(2)] assms(2) a(1) by (auto simp: lib_ok_def)
  then have "1 \<le> m \<and> m \<le> sz * 8" using m parse_mask_bounds [of sz _ m] by auto
  then show ?thesis using x a(3) pid by simp
qed

lemma assign_class_sound:
  assumes "assign_class i2 p pid buf i = Parsed p'" and "policy_sound p" and "pid_ok pid"
  shows "policy_sound p' \<and> pnodes p' = pnodes p"
proof -
  obtain c n where "plimits p c = Some n" "p' = p\<lparr>idents := (idents p)(pid \<mapsto> n)\<rparr>"
    using assms(1) [unfolded assign_class_def token_Parsed] by (auto split: option.splits)
  then show ?thesis using assms(2,3) by (auto simp: policy_sound_def node_ok_def cong: option.case_cong split: if_splits)
qed

lemma assign_arg_sound:
  assumes "assign_arg i2 p f buf i = Parsed p'" and "policy_sound p" and "\<And>s pid. f s = Some pid \<Longrightarrow> pid_ok pid"
  shows "policy_sound p' \<and> pnodes p' = pnodes p"
  using assms(1) [unfolded assign_arg_def token_Parsed] assign_class_sound [OF _ assms(2)] assms(3)
  by (auto simp: andThen_Parsed)

lemma parseassignline_sound:
  assumes "parseassignline i2 p line = Parsed p'" and "policy_sound p" and "lib_ok i2"
  shows "policy_sound p' \<and> pnodes p' = pnodes p"
proof -
  have user: "assign_user p s = Some pid \<Longrightarrow> pid_ok pid" for s pid
    by (auto simp: assign_user_def user_field_def split: if_splits)
  show ?thesis
    using assms(1) [unfolded parseassignline_def token_Parsed] assign_class_sound [OF _ assms(2)]
      assign_arg_sound [OF _ assms(2)] assign_net_ok [OF _ assms(3)] user
    by (auto simp: Let_def split: if_splits)
qed

lemma parse_lines_sound:
  "parse_lines i2 p ls = Parsed p' \<Longrightarrow> policy_sound p \<Longrightarrow> lib_ok i2 \<Longrightarrow> policy_sound p'"
proof (induction i2 p ls rule: parse_lines.induct)
  case (2 i2 p line ls)
  then show ?case
    by (auto simp: andThen_Parsed split: if_splits dest: parselimitline_sound parseassignline_sound)
qed simp

lemma install_sound:
  assumes "BWLDPolicyInstall i2 ks ls eof = Parsed p" and "lib_ok i2"
  shows "policy_sound p \<and> pnodes p \<noteq> []"
proof -
  obtain p0 p1 where p0: "parsekeys empty_policy ks = Some p0" and p1: "parse_lines i2 p0 ls = Parsed p1"
    and p: "(root p1 = None \<and> parselimitline i2 p1 ''default with duration=30, max_time_error=10'' = Parsed p) \<or>
            (root p1 \<noteq> None \<and> p = p1)"
    using assms(1) by (auto simp: BWLDPolicyInstall_def parselimits_def andThen_Parsed split: if_splits)
  have "policy_sound p1" using parse_lines_sound [OF p1] parsekeys_sound [OF p0 empty_policy_sound] assms(2) by blast
  moreover from this have "pnodes p1 \<noteq> []" if "root p1 \<noteq> None" using that by (auto simp: policy_sound_def)
  ultimately show ?thesis using p parselimitline_sound by blast
qed

lemma policy_sound_tree: "policy_sound p \<Longrightarrow> tree_ok (pnodes p) \<and> nothing_used (pnodes p)"
  by (auto simp: policy_sound_def node_ok_def tree_ok_def nothing_used_def Let_def split: option.splits)

section \<open>Networks\<close>

definition addr_bit :: "u8 list \<Rightarrow> nat \<Rightarrow> bool" where
  "addr_bit a i = bit (a ! (i div 8)) (7 - i mod 8)"

text \<open>\<open>a\<close> is \<open>x\<close> with all bits from \<open>m\<close> on cleared.\<close>

definition prefix_of :: "nat \<Rightarrow> u8 list \<Rightarrow> nat \<Rightarrow> u8 list \<Rightarrow> bool" where
  "prefix_of sz x m a \<longleftrightarrow> length a = 16 \<and> drop sz a = drop sz x \<and> (\<forall>i < sz * 8. addr_bit a i = (i < m \<and> addr_bit x i))"

lemma u8_eqI: "(\<And>j. j < 8 \<Longrightarrow> bit a (7 - j) = bit b (7 - j)) \<Longrightarrow> a = b" for a b :: u8
proof (rule bit_word_eqI)
  fix n assume eq: "\<And>j. j < 8 \<Longrightarrow> bit a (7 - j) = bit b (7 - j)" and "n < LENGTH(8)"
  then show "bit a n = bit b n" using eq [of "7 - n"] by simp
qed

lemma prefix_unique:
  assumes "prefix_of sz x m a" and "prefix_of sz x m b" and "sz \<le> 16"
  shows "a = b"
proof (rule nth_equalityI)
  show len: "length a = length b" using assms by (simp add: prefix_of_def)
  fix i assume i: "i < length a"
  show "a ! i = b ! i"
  proof (cases "i < sz")
    case True
    have "bit (a ! i) (7 - j) = bit (b ! i) (7 - j)" if "j < 8" for j
    proof -
      have "i * 8 + j < sz * 8" using True that by linarith
      then have "addr_bit a (i * 8 + j) = addr_bit b (i * 8 + j)" using assms(1,2) by (simp add: prefix_of_def)
      then show ?thesis using that by (simp add: addr_bit_def)
    qed
    then show ?thesis by (rule u8_eqI)
  next
    case False
    have "drop sz a ! (i - sz) = drop sz b ! (i - sz)" using assms(1,2) by (simp add: prefix_of_def)
    then show ?thesis using False i len assms(3) by simp
  qed
qed

text \<open>One round of the loop clears the next bit.\<close>

lemma byte_mask: "j < 8 \<Longrightarrow> bit (b AND push_bit (8 - k) 0xFF) (7 - j) = (bit b (7 - j) \<and> (8 - k \<le> 7 - j))" for b :: u8
proof -
  assume "j < 8"
  have ff: "(0xFF :: u8) = mask 8" by (simp add: mask_eq_exp_minus_1)
  show ?thesis unfolding ff using \<open>j < 8\<close> by (auto simp: bit_simps)
qed

lemma clear_bit:
  assumes "prefix_of sz x (Suc m) a" and "sz \<le> 16" and "length x = 16"
  shows "prefix_of sz x m (if m div 8 < sz then a[m div 8 := a ! (m div 8) AND push_bit (8 - m mod 8) 0xFF] else a)"
proof (cases "m div 8 < sz")
  case True
  let ?a = "a[m div 8 := a ! (m div 8) AND push_bit (8 - m mod 8) 0xFF]"
  have len: "length a = 16" using assms(1) by (simp add: prefix_of_def)
  have "addr_bit ?a i = (i < m \<and> addr_bit x i)" if i: "i < sz * 8" for i
  proof -
    have a: "addr_bit a i = (i < Suc m \<and> addr_bit x i)" using assms(1) i by (simp add: prefix_of_def)
    show ?thesis
    proof (cases "i div 8 = m div 8")
      case same: True
      have "addr_bit ?a i = (addr_bit a i \<and> 8 - m mod 8 \<le> 7 - i mod 8)"
        unfolding addr_bit_def using same True len assms(2) byte_mask [of "i mod 8"] by simp
      moreover have "(8 - m mod 8 \<le> 7 - i mod 8) = (i mod 8 < m mod 8)"
        using mod_less_divisor [of 8 i] mod_less_divisor [of 8 m] by linarith
      moreover have "(i mod 8 < m mod 8) = (i < m)"
        using same div_mult_mod_eq [of i 8] div_mult_mod_eq [of m 8] by linarith
      ultimately show ?thesis using a by auto
    next
      case False
      then have "addr_bit ?a i = addr_bit a i" by (simp add: addr_bit_def)
      moreover have "i \<noteq> m" using False by auto
      ultimately show ?thesis using a by (simp add: less_Suc_eq)
    qed
  qed
  moreover have "drop sz ?a = drop sz x" using assms(1) True by (simp add: prefix_of_def drop_update_cancel)
  ultimately show ?thesis using True len by (simp add: prefix_of_def)
next
  case False
  then have "sz * 8 \<le> m" by linarith
  then show ?thesis using assms(1) False by (auto simp: prefix_of_def)
qed

lemma net_lookup_spec:
  assumes "prefix_of sz x (Suc m) addr" and "sz \<le> 16" and "length x = 16"
  shows "case net_lookup ids sz addr m of
      Some n \<Rightarrow> \<exists>k a. 1 \<le> k \<and> k \<le> m \<and> prefix_of sz x k a \<and> ids (PidNet k sz a) = Some n \<and>
        (\<forall>k' b. k < k' \<and> k' \<le> m \<and> prefix_of sz x k' b \<longrightarrow> ids (PidNet k' sz b) = None)
    | None \<Rightarrow> \<forall>k a. 1 \<le> k \<and> k \<le> m \<and> prefix_of sz x k a \<longrightarrow> ids (PidNet k sz a) = None"
  using assms(1)
proof (induction m arbitrary: addr)
  case (Suc m)
  define a where "a = (if Suc m div 8 < sz then addr[Suc m div 8 := addr ! (Suc m div 8) AND push_bit (8 - Suc m mod 8) 0xFF] else addr)"
  have a: "prefix_of sz x (Suc m) a" unfolding a_def by (rule clear_bit [OF Suc.prems assms(2,3)])
  have uniq: "b = a" if "prefix_of sz x (Suc m) b" for b using prefix_unique [OF that a assms(2)] .
  have step: "net_lookup ids sz addr (Suc m) =
      (case ids (PidNet (Suc m) sz a) of Some n \<Rightarrow> Some n | None \<Rightarrow> net_lookup ids sz a m)"
    by (simp only: net_lookup.simps Let_def a_def)
  show ?case
  proof (cases "ids (PidNet (Suc m) sz a)")
    case (Some n)
    then show ?thesis using a step by (auto intro!: exI [of _ "Suc m"] exI [of _ a])
  next
    case None
    then have eq: "net_lookup ids sz addr (Suc m) = net_lookup ids sz a m" using step by simp
    have top: "ids (PidNet k sz b) = None" if "k = Suc m" "prefix_of sz x k b" for k b
      using uniq [of b] that None by metis
    show ?thesis
    proof (cases "net_lookup ids sz a m")
      case none: None
      have "ids (PidNet k sz b) = None" if "1 \<le> k" "k \<le> Suc m" "prefix_of sz x k b" for k b
        using Suc.IH [OF a] none top [of k b] that by (cases "k = Suc m") simp_all
      then show ?thesis using eq none by simp
    next
      case (Some n)
      then obtain k b where k: "1 \<le> k" "k \<le> m" "prefix_of sz x k b" "ids (PidNet k sz b) = Some n"
          "\<forall>k' b. k < k' \<and> k' \<le> m \<and> prefix_of sz x k' b \<longrightarrow> ids (PidNet k' sz b) = None"
        using Suc.IH [OF a] by auto
      have "ids (PidNet k' sz b') = None" if "k < k'" "k' \<le> Suc m" "prefix_of sz x k' b'" for k' b'
        using k(5) top [of k' b'] that by (cases "k' = Suc m") simp_all
      then show ?thesis unfolding eq Some option.case using k by (intro exI [of _ k] exI [of _ b]) simp
    qed
  qed
qed simp

text \<open>A configured network covers an address when its leading bits, as many as the mask says, are those of the address.\<close>

definition net_covers :: "BWLDPolicy \<Rightarrow> nat \<Rightarrow> u8 list \<Rightarrow> nat \<Rightarrow> u8 list \<Rightarrow> bool" where
  "net_covers p sz x m a \<longleftrightarrow> idents p (PidNet m sz a) \<noteq> None \<and> (\<forall>i < m. addr_bit a i = addr_bit x i)"

lemma host_bits_clear_bits:
  assumes "host_bits_clear m sz a" and "length a = 16" and "sz \<le> 16" and "m \<le> i" and "i < sz * 8"
  shows "\<not> addr_bit a i"
proof (cases "i div 8 = m div 8")
  case True
  then have "m div 8 < sz" using assms(5) by linarith
  then have "a ! (m div 8) AND NOT (push_bit (8 - m mod 8) 0xFF) = 0" using assms(1) by (simp add: host_bits_clear_def Let_def)
  then have z: "\<not> (bit (a ! (m div 8)) (7 - i mod 8) \<and> bit (NOT (push_bit (8 - m mod 8) 0xFF) :: u8) (7 - i mod 8))"
    by (metis bit_0_eq bit_and_iff bot_apply bot_bool_def)
  have "\<not> 8 - m mod 8 \<le> 7 - i mod 8"
    using True assms(4) div_mult_mod_eq [of i 8] div_mult_mod_eq [of m 8] mod_less_divisor [of 8 i] mod_less_divisor [of 8 m]
    by linarith
  then have "bit (NOT (push_bit (8 - m mod 8) 0xFF) :: u8) (7 - i mod 8)" by (simp add: bit_simps)
  then show ?thesis using z True by (simp add: addr_bit_def)
next
  case False
  then have gt: "m div 8 + 1 \<le> i div 8" using div_le_mono [OF assms(4), of 8] by linarith
  have "i div 8 < sz" using assms(5) by linarith
  then have "a ! (i div 8) \<in> set (slice (m div 8 + 1) (sz - (m div 8 + 1)) a)"
    using gt assms(2,3) by (auto simp: slice_def in_set_conv_nth intro!: exI [of _ "i div 8 - (m div 8 + 1)"])
  then have "a ! (i div 8) = 0" using assms(1) by (auto simp: host_bits_clear_def Let_def list_all_iff)
  then show ?thesis by (simp add: addr_bit_def)
qed

lemma covers_prefix:
  assumes "policy_sound p" and "idents p (PidNet m sz a) \<noteq> None" and "length x = 16" and "list_all (\<lambda>b. b = 0) (drop sz x)"
  shows "net_covers p sz x m a \<longleftrightarrow> prefix_of sz x m a"
proof -
  obtain n where "idents p (PidNet m sz a) = Some n" using assms(2) by blast
  then have "pid_ok (PidNet m sz a)" using assms(1) unfolding policy_sound_def by blast
  then have ok: "m \<le> sz * 8" "sz \<le> 16" "length a = 16" "list_all (\<lambda>b. b = 0) (drop sz a)" "host_bits_clear m sz a" by auto
  have "drop sz a = drop sz x"
    using ok(3,4) assms(3,4) by (intro nth_equalityI) (auto simp: list_all_length)
  then show ?thesis
    using ok host_bits_clear_bits [OF ok(5,3,2)] assms(2)
    by (auto simp: net_covers_def prefix_of_def) (meson not_le)+
qed

section \<open>The limits along the hierarchy\<close>

text \<open>A class and the classes above it.\<close>

inductive ancestor :: "nodes \<Rightarrow> nat \<Rightarrow> nat \<Rightarrow> bool" for ns where
  self: "ancestor ns n n"
| up: "parent (ns ! n) = Some q \<Longrightarrow> ancestor ns q m \<Longrightarrow> ancestor ns n m"

lemma ancestor_unfold: "ancestor ns n m \<longleftrightarrow> m = n \<or> (\<exists>q. parent (ns ! n) = Some q \<and> ancestor ns q m)"
  by (subst ancestor.simps) auto

lemma sound_parent:
  assumes "policy_sound p" and "n < length (pnodes p)" and "parent (pnodes p ! n) = Some q"
  shows "q < n" and "\<And>pl. pl \<in> set (limits (pnodes p ! q)) \<Longrightarrow> tight (limits (pnodes p ! n)) pl"
  using assms by (auto simp: policy_sound_def node_ok_def Let_def)

lemma no_record_above:
  assumes "policy_sound p"
  shows "ancestor (pnodes p) n m \<Longrightarrow> n < length (pnodes p) \<Longrightarrow> lim_index l (limits (pnodes p ! n)) = None \<Longrightarrow>
    lim_index l (limits (pnodes p ! m)) = None"
proof (induction rule: ancestor.induct)
  case (up n q m)
  note q = sound_parent [OF assms up.prems(1) up.hyps(1)]
  have "lim_index l (limits (pnodes p ! q)) = None"
    using q(2) up.prems(2) by (fastforce simp: lim_index_None tight_def split: option.splits)
  then show ?case using up.IH q(1) up.prems(1) by simp
qed

lemma limiting_nodes_ancestors:
  assumes "policy_sound p" and l: "limkind_of l \<in> {LIMINT, LIMFIXEDINT}"
  shows "n < k \<Longrightarrow> n < length (pnodes p) \<Longrightarrow>
    set (demand_path k (pnodes p) l (Some n)) = {m. ancestor (pnodes p) n m \<and> GetLimit (pnodes p ! m) l \<noteq> 0}"
proof (induction k arbitrary: n)
  case (Suc k)
  let ?ns = "pnodes p"
  show ?case
  proof (cases "lim_index l (limits (?ns ! n)) = None")
    case True
    have "GetLimit (?ns ! m) l = 0" if "ancestor ?ns n m" for m
      using no_record_above [OF assms(1) that Suc.prems(2) True] limkind_def0 l by (auto simp: GetLimit_def)
    then show ?thesis using True by (auto simp: demand_path.simps)
  next
    case False
    have "set (demand_path k ?ns l (parent (?ns ! n))) =
        {m. \<exists>q. parent (?ns ! n) = Some q \<and> ancestor ?ns q m \<and> GetLimit (?ns ! m) l \<noteq> 0}"
    proof (cases "parent (?ns ! n)")
      case (Some q)
      then have "q < n" by (rule sound_parent(1) [OF assms(1) Suc.prems(2)])
      then show ?thesis using Suc.IH [of q] Suc.prems Some by auto
    qed simp
    then show ?thesis using False by (auto simp: demand_path.simps ancestor_unfold [of ?ns n])
  qed
qed simp

lemma child_limit_at_most:
  assumes "policy_sound p" and "n < length (pnodes p)" and "parent (pnodes p ! n) = Some q"
    and "limkind_of l \<in> {LIMINT, LIMFIXEDINT}" and "GetLimit (pnodes p ! q) l \<noteq> 0"
  shows "GetLimit (pnodes p ! n) l \<le> GetLimit (pnodes p ! q) l"
proof -
  obtain i where i: "lim_index l (limits (pnodes p ! q)) = Some i"
    using assms(4,5) limkind_def0 by (auto simp: GetLimit_def split: option.splits)
  let ?pl = "limits (pnodes p ! q) ! i"
  have "lim_limit ?pl = l" "?pl \<in> set (limits (pnodes p ! q))"
    using lim_index_name [OF i] lim_index_bound [OF i] by simp_all
  then have "tight (limits (pnodes p ! n)) ?pl" "lim_limit ?pl = l"
    using sound_parent(2) [OF assms(1-3)] by simp_all
  then show ?thesis using assms(4,5) i by (auto simp: tight_def GetLimit_def split: option.splits)
qed

text \<open>
  C36. A limits file that is accepted describes a sound policy: the first class is the root and every
  other class has a parent defined before it, sets each limit at most once, and starts with nothing in
  use; the class names and the assignments lead to classes. A numeric limit of a class is at most that of
  its parent, if that has one; it may be 0, no limit of its own. A demand for a numeric limit is checked at
  exactly the classes from the own one up to the root that have a limit other than 0, so that a 0 does not
  lift a limit above. Limits that are on or off are as the file says, whatever the parent has
  (\<open>udp_allowed_below\<close>). The broker that starts with the policy is in an initial state of the theory
  \<open>Broker\<close>.
\<close>

theorem accepted_limits_are_sound:
  assumes "BWLDPolicyInstall i2 ks ls eof = Parsed p" and "lib_ok i2"
  shows "policy_sound p \<and> pnodes p \<noteq> [] \<and> (\<forall>node \<in> set (pnodes p). length (limits node) \<le> maxlim) \<and>
    (\<forall>n < length (pnodes p). \<forall>q l. parent (pnodes p ! n) = Some q \<and> limkind_of l \<in> {LIMINT, LIMFIXEDINT} \<and>
       GetLimit (pnodes p ! q) l \<noteq> 0 \<longrightarrow> GetLimit (pnodes p ! n) l \<le> GetLimit (pnodes p ! q) l) \<and>
    (\<forall>n < length (pnodes p). \<forall>l. limkind_of l \<in> {LIMINT, LIMFIXEDINT} \<longrightarrow>
       set (limiting_nodes (pnodes p) n l) = {m. ancestor (pnodes p) n m \<and> GetLimit (pnodes p ! m) l \<noteq> 0}) \<and>
    broker_initial \<lparr>b_ctx = ctx, b_slots = [], b_nodes = pnodes p, b_classes = plimits p,
      heap = Map.empty, fdtable = Map.empty, pidtable = Map.empty\<rparr>"
proof -
  have p: "policy_sound p" "pnodes p \<noteq> []" using install_sound [OF assms] by simp_all
  then have "\<forall>node \<in> set (pnodes p). length (limits node) \<le> maxlim"
    by (auto simp: in_set_conv_nth policy_sound_def node_ok_def Let_def limits_ok_length)
  moreover have "\<forall>c n. plimits p c = Some n \<longrightarrow> n < length (pnodes p)" using p(1) by (simp add: policy_sound_def)
  moreover have "set (limiting_nodes (pnodes p) n l) = {m. ancestor (pnodes p) n m \<and> GetLimit (pnodes p ! m) l \<noteq> 0}"
    if "n < length (pnodes p)" "limkind_of l \<in> {LIMINT, LIMFIXEDINT}" for n l
    using limiting_nodes_ancestors [OF p(1) that(2), of n "Suc (length (pnodes p))"] that(1) by simp
  ultimately show ?thesis
    using p policy_sound_tree [OF p(1)] child_limit_at_most [OF p(1)]
    by (simp add: broker_initial_def del: demand_path.simps insert_iff)
qed

text \<open>
  C37. The class of a connection that is not known by its user is the class assigned to the longest
  network that covers its address; an IPv4 address mapped into IPv6 counts as the IPv4 address. When no
  configured network covers it, it is the default class.
\<close>

theorem longest_network_wins:
  assumes "BWLDPolicyInstall i2 ks ls eof = Parsed p" and "lib_ok i2" and "addr_ok remote"
    and "addr_bytes remote = Some (sz, x)"
  shows "(\<exists>m a. net_covers p sz x m a \<and> (\<forall>k b. net_covers p sz x k b \<longrightarrow> k \<le> m) \<and> GetNodeFromAddr p remote = idents p (PidNet m sz a)) \<or>
    (\<nexists>m a. net_covers p sz x m a) \<and> GetNodeFromAddr p remote = GetNodeDefault p"
proof -
  have sound: "policy_sound p" using install_sound [OF assms(1,2)] by simp
  have x: "length x = 16" "sz \<le> 16" "list_all (\<lambda>b. b = 0) (drop sz x)" using addr_bytes_ok [OF assms(4,3)] by auto
  have start: "prefix_of sz x (Suc (sz * 8)) x" using x by (simp add: prefix_of_def)
  note spec = net_lookup_spec [OF start x(2,1), of "idents p"]
  have bound: "1 \<le> m \<and> m \<le> sz * 8" if "net_covers p sz x m a" for m a
  proof -
    obtain n where "idents p (PidNet m sz a) = Some n" using \<open>net_covers p sz x m a\<close> by (auto simp: net_covers_def)
    then have "pid_ok (PidNet m sz a)" using sound unfolding policy_sound_def by blast
    then show ?thesis by simp
  qed
  have pre: "prefix_of sz x m a" if "net_covers p sz x m a" for m a
    using that covers_prefix [OF sound _ x(1,3)] by (auto simp: net_covers_def)
  show ?thesis
  proof (cases "net_lookup (idents p) sz x (sz * 8)")
    case None
    then have none: "\<forall>k a. 1 \<le> k \<and> k \<le> sz * 8 \<and> prefix_of sz x k a \<longrightarrow> idents p (PidNet k sz a) = None"
      using spec by simp
    have "\<not> net_covers p sz x m a" for m a
    proof
      assume c: "net_covers p sz x m a"
      then have "idents p (PidNet m sz a) = None" using none bound [OF c] pre [OF c] by blast
      then show False using c by (simp add: net_covers_def)
    qed
    then show ?thesis using None assms(4) by (simp add: GetNodeFromAddr_def)
  next
    case (Some n)
    then obtain m a where m: "prefix_of sz x m a" "idents p (PidNet m sz a) = Some n"
        "\<forall>k b. m < k \<and> k \<le> sz * 8 \<and> prefix_of sz x k b \<longrightarrow> idents p (PidNet k sz b) = None"
      using spec by auto
    have "net_covers p sz x m a" using covers_prefix [OF sound _ x(1,3)] m by simp
    moreover have "k \<le> m" if "net_covers p sz x k b" for k b
    proof (rule ccontr)
      assume "\<not> k \<le> m"
      then have "idents p (PidNet k sz b) = None" using m(3) bound [OF that] pre [OF that] by simp
      then show False using that by (simp add: net_covers_def)
    qed
    moreover have "GetNodeFromAddr p remote = idents p (PidNet m sz a)"
      using Some m(2) assms(4) by (simp add: GetNodeFromAddr_def)
    ultimately show ?thesis by blast
  qed
qed

section \<open>A limits file\<close>

definition sample_lib :: conf_lib where
  "sample_lib = \<lparr>I2WSPACESET = [CHR '' '', CHR 0x09, CHR 0x0A],
     I2StrToNum = (\<lambda>s. if s = ''30'' then Some 30 else if s = ''10'' then Some 10 else if s = ''0'' then Some 0 else None),
     getaddrinfo = (\<lambda>s. if s = ''10.0.0.0'' then Some (AF_INET [10, 0, 0, 0])
       else if s = ''10.1.0.0'' then Some (AF_INET [10, 1, 0, 0]) else None)\<rparr>"

definition sample_file :: "string list" where
  "sample_file = [''limit a with duration=30'', ''limit b with parent=a, pending = 10'',
     ''assign net 10.0.0.0/8 a'', ''assign net 10.1.0.0/16 b'']"

lemma sample_lib_ok: "lib_ok sample_lib"
  by (auto simp: lib_ok_def sample_lib_def split: if_splits)

definition parsed_value :: "'a parsed \<Rightarrow> 'a option" where
  "parsed_value m = (case m of Parsed x \<Rightarrow> Some x | _ \<Rightarrow> None)"

lemma sample_install:
  "map_option (\<lambda>p. (map nodename (pnodes p), plimits p ''b'', idents p (PidNet 16 4 ([10, 1] @ replicate 14 0)), idents p (PidNet 8 4 (10 # replicate 15 0))))
     (parsed_value (BWLDPolicyInstall sample_lib [] sample_file True)) = Some ([''a'', ''b''], Some 1, Some 1, Some 0)"
  by code_simp

lemma sample_policy:
  obtains p where "BWLDPolicyInstall sample_lib [] sample_file True = Parsed p" "length (pnodes p) = 2"
    "idents p (PidNet 16 4 ([10, 1] @ replicate 14 0)) = Some 1" "idents p (PidNet 8 4 (10 # replicate 15 0)) = Some 0"
proof -
  obtain p where p: "parsed_value (BWLDPolicyInstall sample_lib [] sample_file True) = Some p"
      "map nodename (pnodes p) = [''a'', ''b'']" "idents p (PidNet 16 4 ([10, 1] @ replicate 14 0)) = Some 1"
      "idents p (PidNet 8 4 (10 # replicate 15 0)) = Some 0"
    using sample_install by auto
  have "length (map nodename (pnodes p)) = 2" unfolding p(2) by simp
  then show ?thesis using p(1,3,4) that by (auto simp: parsed_value_def split: parsed.splits)
qed

text \<open>A class may allow what its parent does not, and have no limit of its own below one.\<close>

lemma udp_allowed_below:
  "map_option (\<lambda>p. map (\<lambda>node. (GetLimit node BWLDLimAllowUDP, GetLimit node BWLDLimDuration)) (pnodes p))
     (parsed_value (BWLDPolicyInstall sample_lib []
       [''limit a with duration=30, allow_udp=off'', ''limit b with parent=a, duration=0, allow_udp=on''] True)) =
   Some [(0, 30), (1, 0)]"
  by code_simp

theorem accepted_limits_are_sound_witness:
  "\<exists>p. BWLDPolicyInstall sample_lib [] sample_file True = Parsed p \<and> length (pnodes p) = 2 \<and> policy_sound p \<and>
     broker_initial \<lparr>b_ctx = sample_ctx, b_slots = [], b_nodes = pnodes p, b_classes = plimits p,
       heap = Map.empty, fdtable = Map.empty, pidtable = Map.empty\<rparr>"
proof -
  obtain p where p: "BWLDPolicyInstall sample_lib [] sample_file True = Parsed p" "length (pnodes p) = 2"
    by (rule sample_policy)
  then show ?thesis using accepted_limits_are_sound [OF p(1) sample_lib_ok, of sample_ctx] by blast
qed

theorem longest_network_wins_witness:
  "\<exists>p m a. BWLDPolicyInstall sample_lib [] sample_file True = Parsed p \<and> 16 \<le> m \<and>
     net_covers p 4 ([10, 1, 2, 3] @ replicate 12 0) m a \<and>
     GetNodeFromAddr p (AF_INET [10, 1, 2, 3]) = idents p (PidNet m 4 a)"
proof -
  obtain p where p: "BWLDPolicyInstall sample_lib [] sample_file True = Parsed p"
      "idents p (PidNet 16 4 ([10, 1] @ replicate 14 0)) = Some 1"
    by (rule sample_policy)
  have "addr_bit ([10, 1] @ replicate 14 0) i = addr_bit ([10, 1, 2, 3] @ replicate 12 0) i" if "i < 16" for i
  proof -
    have "i div 8 = 0 \<or> i div 8 = 1" using that by auto
    then show ?thesis by (auto simp: addr_bit_def)
  qed
  then have c: "net_covers p 4 ([10, 1, 2, 3] @ replicate 12 0) 16 ([10, 1] @ replicate 14 0)"
    using p(2) by (simp add: net_covers_def)
  have a: "addr_ok (AF_INET [10, 1, 2, 3])"
    "addr_bytes (AF_INET [10, 1, 2, 3]) = Some (4, [10, 1, 2, 3] @ replicate 12 0)" by simp_all
  show ?thesis using longest_network_wins [OF p(1) sample_lib_ok a] c p(1) by blast
qed

end
