(* ===== verification/TestPolicy.thy ===== *)
theory TestPolicy
  imports PolicyConf Messages
begin

unbundle bit_operations_syntax

text \<open>
  The decisions of a child process of the daemon, \<open>bwctld/policy.c\<close>: \<open>BWLDCheckControlPolicy\<close>, which
  names the usage class of a connection to the parent, \<open>BWLDCheckTestPolicy\<close>, which decides on a test
  request, and \<open>BWLDTestComplete\<close>, which gives back what a test held. They are called through
  \<open>_BWLCallCheckTestPolicy\<close> and \<open>_BWLCallTestComplete\<close> of \<open>bwlib/context.c\<close>, which pass the fields of the
  session.

  The child checks fixed limits on its own copy of the classes and asks the parent for counted
  resources and the time of the test; a question is a message served by \<open>CheckFD\<close> of theory
  \<open>Broker\<close>, whose answer the child reads. Between the two questions of a decision other children may have
  been served: \<open>te_others\<close> is what they did to the parent.

  Shown: what a granted test has been checked against (\<open>granted_test_within_policy\<close>), that a test refused by
  the scheduler keeps its pending reservation (\<open>denied_reservation_keeps_pending\<close>), and that a test that was
  granted and completes leaves the parent as it was (\<open>completed_test_returns_everything\<close>).
\<close>

section \<open>Questions to the parent\<close>

record test_env =
  te_order :: endian
  te_child :: nat
  te_rnd :: "u16 option"
  te_clock :: "BWLTimeStamp option"
  te_others :: "broker \<Rightarrow> broker"
  te_allow_unsync :: bool
  te_synced :: bool
  te_local :: bool
  te_rtt :: BWLNum64
  te_name :: "sockaddr \<Rightarrow> string"

text \<open>
  The bytes of a message go to the parent, which serves it and may answer; \<open>None\<close> when the parent does
  not come back (theory \<open>Broker\<close>).
\<close>

definition ask_parent :: "test_env \<Rightarrow> broker \<Rightarrow> u8 list \<Rightarrow> (u8 list \<times> broker) option" where
  "ask_parent env b bytes = (case heap b (te_child env) of None \<Rightarrow> Some ([], b)
     | Some cs \<Rightarrow> map_option (\<lambda>oc. (o_sent oc, commit b (te_child env) oc)) (CheckFD (te_order env) (te_rnd env) (te_clock env) b cs bytes))"

definition ask_class :: "test_env \<Rightarrow> broker \<Rightarrow> string \<Rightarrow> (BWLDMesgT \<times> broker) option" where
  "ask_class env b name =
     map_option (\<lambda>(r, b). (fst (BWLDReadResponse (te_order env) r), b)) (ask_parent env b (BWLDSendClass (te_order env) name))"

definition ask_resource :: "test_env \<Rightarrow> broker \<Rightarrow> BWLDMesgT \<Rightarrow> BWLDLimRec \<Rightarrow> (BWLDMesgT \<times> broker) option" where
  "ask_resource env b mesg lim =
     map_option (\<lambda>(r, b). (fst (BWLDReadResponse (te_order env) r), b)) (ask_parent env b (BWLDQuery (te_order env) mesg lim))"

definition ask_reservation ::
  "test_env \<Rightarrow> broker \<Rightarrow> reservation_query \<Rightarrow> BWLNum64 \<Rightarrow> ((BWLDMesgT \<times> BWLNum64 \<times> u16) \<times> broker) option" where
  "ask_reservation env b q restime =
     map_option (\<lambda>(r, b). (fst (BWLDReadReservationResponse (te_order env) r restime (q_toolport q)), b))
       (ask_parent env b (BWLDReservationQuery (te_order env) q))"

definition ask_complete :: "test_env \<Rightarrow> broker \<Rightarrow> u8 list \<Rightarrow> u32 \<Rightarrow> (BWLDMesgT \<times> broker) option" where
  "ask_complete env b s aval =
     map_option (\<lambda>(r, b). (fst (BWLDReadResponse (te_order env) r), b)) (ask_parent env b (BWLDSendTestComplete (te_order env) s aval))"

section \<open>The class of a connection\<close>

text \<open>The verdict, the error and the node stored in the configuration of the connection.\<close>

definition BWLDCheckControlPolicy ::
  "test_env \<Rightarrow> BWLDPolicy \<Rightarrow> u32 \<Rightarrow> u8 list option \<Rightarrow> sockaddr \<Rightarrow> broker \<Rightarrow>
   (bool \<times> BWLErrSeverity \<times> nat option \<times> broker) option" where
  "BWLDCheckControlPolicy env p req_mode userid remote b =
     (let node = (case userid of Some u \<Rightarrow> if req_mode AND BWL_MODE_DOCIPHER \<noteq> 0 then GetNodeFromUserID p u else None | None \<Rightarrow> None);
          node = (case node of None \<Rightarrow> GetNodeFromAddr p remote | Some n \<Rightarrow> Some n)
      in case node of None \<Rightarrow> Some (False, BWLErrFATAL, None, b)
         | Some n \<Rightarrow> (case ask_class env b (nodename (pnodes p ! n)) of None \<Rightarrow> None
             | Some (ret, b) \<Rightarrow>
                 if ret = BWLDMESGOK then Some (True, BWLErrOK, Some n, b)
                 else Some (False, if ret \<noteq> BWLDMESGDENIED then BWLErrFATAL else BWLErrOK, None, b)))"

section \<open>A test request\<close>

text \<open>
  A demand on the child's own copy of the classes; for the limits asked here it changes nothing
  (\<open>fixed_demand\<close> below) and always answers.
\<close>

definition demand :: "nodes \<Rightarrow> nat \<Rightarrow> BWLDMesgT \<Rightarrow> BWLDLimitT \<Rightarrow> bool" where
  "demand ns n l v = (case BWLDResourceDemand ns n BWLDMESGREQUEST (LimRec l v) of Some (ok, _) \<Rightarrow> ok | None \<Rightarrow> False)"

text \<open>\<open>duration + omit\<close> is added in 32 bits; the fuzz is rounded up to full seconds.\<close>

definition test_length :: "BWLTestSpec \<Rightarrow> u32" where
  "test_length tspec = duration tspec + ucast (omit tspec)"

definition fuzz_seconds :: "BWLNum64 \<Rightarrow> BWLDLimitT" where
  "fuzz_seconds f = of_nat ((BWLNum64ToDouble f + 2 ^ 32 - 1) div 2 ^ 32)"

definition fixed_limits_ok :: "test_env \<Rightarrow> nodes \<Rightarrow> nat \<Rightarrow> BWLTestSession \<Rightarrow> bool" where
  "fixed_limits_ok env ns n t =
     (let tspec = test_spec t
      in (te_allow_unsync env \<or> te_synced env) \<and>
         demand ns n BWLDLimDuration (ucast (test_length tspec)) \<and>
         demand ns n BWLDLimDuration (ucast (test_length tspec)) \<and>
         demand ns n BWLDLimMaxTimeError (fuzz_seconds (fuzz t)) \<and>
         tool_id tspec AND 0xffffffff \<noteq> 0 \<and>
         (if udp tspec \<noteq> 0 then demand ns n BWLDLimAllowUDP 1 \<and> demand ns n BWLDLimBandwidth (bandwidth tspec)
          else demand ns n BWLDLimAllowTCP 1) \<and>
         (conf_client t \<and> no_server_endpoint tspec \<noteq> 0 \<and> \<not> te_local env \<longrightarrow> demand ns n BWLDLimAllowNoEndpoint 1))"

text \<open>The smallest time to live, which concerns the side that sends: \<open>None\<close> is a refusal.\<close>

definition minimum_ttl_spec :: "nodes \<Rightarrow> nat \<Rightarrow> bool \<Rightarrow> BWLTestSpec \<Rightarrow> BWLTestSpec option" where
  "minimum_ttl_spec ns n local_client tspec =
     (if (local_client \<and> server_sends tspec = 0) \<or> (\<not> local_client \<and> server_sends tspec \<noteq> 0)
      then (case BWLDGetFixedLimit ns n BWLDLimMinimumTTL of None \<Rightarrow> Some tspec
        | Some minimum_ttl \<Rightarrow>
            if minimum_ttl > 0 \<and> traceroute_first_ttl tspec > 0 \<and> ucast (traceroute_first_ttl tspec) < minimum_ttl then None
            else if traceroute_first_ttl tspec = 0 then Some (tspec\<lparr>traceroute_first_ttl := ucast minimum_ttl\<rparr>)
            else Some tspec)
      else Some tspec)"

definition reservation_of :: "test_env \<Rightarrow> BWLDTestInfo \<Rightarrow> BWLTestSession \<Rightarrow> reservation_query" where
  "reservation_of env ti t =
     (let tspec = test_spec t
      in \<lparr>q_sid = ti_sid ti, q_rtime = tstamp (req_time tspec), q_ftime = fuzz t, q_ltime = latest_time tspec,
          q_duration = test_length tspec, q_rtttime = te_rtt env, q_toolport = tool_port t, q_tool = tool_id tspec,
          q_sender = te_name env (if server_sends tspec \<noteq> 0 then server tspec else client tspec),
          q_receiver = te_name env (if server_sends tspec \<noteq> 0 then client tspec else server tspec)\<rparr>)"

type_synonym test_verdict = "bool \<times> BWLErrSeverity \<times> BWLTestSession"

text \<open>The label \<open>done\<close> and the label \<open>reservation\<close>.\<close>

definition refuse_test :: "BWLTestSession \<Rightarrow> test_verdict" where
  "refuse_test t = (False, BWLErrOK, t\<lparr>closure := None\<rparr>)"

definition reserve_test :: "test_env \<Rightarrow> BWLDTestInfo \<Rightarrow> BWLTestSession \<Rightarrow> broker \<Rightarrow> (test_verdict \<times> broker) option" where
  "reserve_test env ti t b = (case ask_reservation env b (reservation_of env ti t) (reserve_time t) of None \<Rightarrow> None
     | Some ((ret, restime, port), b) \<Rightarrow>
         let t = t\<lparr>reserve_time := restime\<rparr>
         in if ret \<noteq> BWLDMESGOK then Some (refuse_test t, b)
            else Some ((True, BWLErrOK, t\<lparr>tool_port := if conf_client t then tool_port t else port,
                   local_tool_port := port, closure := Some ti\<rparr>), b))"

definition BWLDCheckTestPolicy ::
  "test_env \<Rightarrow> nodes \<Rightarrow> nat option \<Rightarrow> BWLTestSession \<Rightarrow> broker \<Rightarrow> (test_verdict \<times> broker) option" where
  "BWLDCheckTestPolicy env ns node t b = (case closure t of
       Some ti \<Rightarrow> reserve_test env ti t b
     | None \<Rightarrow> (case node of
         None \<Rightarrow> Some ((False, BWLErrFATAL, t), b)
       | Some n \<Rightarrow>
           if \<not> fixed_limits_ok env ns n t then Some (refuse_test t, b)
           else (case minimum_ttl_spec ns n (conf_client t) (test_spec t) of
               None \<Rightarrow> Some (refuse_test t, b)
             | Some tspec \<Rightarrow>
                 let t = t\<lparr>test_spec := tspec\<rparr>;
                     ti = \<lparr>ti_node = n, ti_sid = sid t, ti_res = LimRec BWLDLimPending 1\<rparr>
                 in (case ask_resource env b BWLDMESGREQUEST (ti_res ti) of None \<Rightarrow> None
                     | Some (ret, b) \<Rightarrow>
                         if ret \<noteq> BWLDMESGOK then Some (refuse_test t, b)
                         else reserve_test env ti t (te_others env b)))))"

section \<open>The end of a test\<close>

definition BWLDTestComplete :: "test_env \<Rightarrow> BWLDTestInfo \<Rightarrow> u32 \<Rightarrow> broker \<Rightarrow> broker option" where
  "BWLDTestComplete env ti aval b =
     (case (if lim_limit (ti_res ti) = 0 then Some (BWLDMESGOK, b) else ask_resource env b BWLDMESGRELEASE (ti_res ti)) of
        None \<Rightarrow> None
      | Some (_, b) \<Rightarrow> map_option snd (ask_complete env b (ti_sid ti) aval))"

section \<open>What the parent does with a question\<close>

abbreviation charged :: "nat \<Rightarrow> nodes \<Rightarrow> nodes" where
  "charged n ns \<equiv> update_nodes (set (limiting_nodes ns n BWLDLimPending)) (with_used BWLDLimPending (\<lambda>u. u + 1)) ns"

lemma ask_resource_eq:
  assumes "heap b (te_child env) = Some cs" and "ch_node cs = Some n"
    and "mesg \<in> {BWLDMESGREQUEST, BWLDMESGRELEASE, BWLDMESGCLAIM}"
    and "BWLDResourceDemand (b_nodes b) n mesg lm = Some (ok, ns)"
  shows "ask_resource env b mesg lm = Some (if ok then BWLDMESGOK else BWLDMESGDENIED, b\<lparr>b_nodes := ns\<rparr>)"
proof -
  obtain oc where oc: "CheckFD (te_order env) (te_rnd env) (te_clock env) b cs (BWLDQuery (te_order env) mesg lm) = Some oc"
      "BWLDReadResponse (te_order env) (o_sent oc) = (if ok then BWLDMESGOK else BWLDMESGDENIED, [])"
      "o_nodes oc = ns" "o_slots oc = b_slots b" "o_ctx oc = b_ctx b" "o_child oc = cs"
    using resource_message [OF assms(2-4), of "te_order env" "te_rnd env" "te_clock env" "[]"] unfolding append_Nil2 by blast
  have "commit b (te_child env) oc = b\<lparr>b_nodes := ns\<rparr>"
    using oc assms(1) by (cases b) (auto simp: commit_def fun_upd_idem)
  then show ?thesis using assms(1) oc by (simp add: ask_resource_def ask_parent_def)
qed

lemma ask_reservation_eq:
  assumes "heap b (te_child env) = Some cs" and "ch_node cs = Some n" and "reservation_ok q"
    and "ChldReservationDemand (te_rnd env) (b_nodes b) (te_clock env) (b_ctx b, b_slots b, cs) q 0 = Some (reply, ctx', slots', cs')"
  shows "ask_reservation env b q restime =
    Some (if \<not> reply_ok reply \<and> reply_err reply then (BWLDMESGINVALID, restime, q_toolport q)
          else (if reply_ok reply then BWLDMESGOK else BWLDMESGDENIED, reply_restime reply, reply_toolport reply),
      b\<lparr>b_ctx := ctx', b_slots := slots', heap := (heap b)(te_child env \<mapsto> cs')\<rparr>)"
proof -
  obtain oc where oc: "CheckFD (te_order env) (te_rnd env) (te_clock env) b cs (BWLDReservationQuery (te_order env) q) = Some oc"
      "o_ctx oc = ctx'" "o_slots oc = slots'" "o_child oc = cs'" "o_nodes oc = b_nodes b"
      "o_kill oc = (\<not> reply_ok reply \<and> reply_err reply)"
      "BWLDReadReservationResponse (te_order env) (o_sent oc) restime (q_toolport q) =
        (if o_kill oc then (BWLDMESGINVALID, restime, q_toolport q)
         else (if reply_ok reply then BWLDMESGOK else BWLDMESGDENIED, reply_restime reply, reply_toolport reply), [])"
    using reservation_message [OF assms(2-4), of "te_order env" "[]" restime "q_toolport q"] unfolding append_Nil2 by blast
  have "commit b (te_child env) oc = b\<lparr>b_ctx := ctx', b_slots := slots', heap := (heap b)(te_child env \<mapsto> cs')\<rparr>"
    using oc by (cases b) (simp add: commit_def)
  then show ?thesis using assms(1) oc by (simp add: ask_reservation_def ask_parent_def)
qed

lemma ask_pending_eq:
  assumes "heap b (te_child env) = Some cs" and "ch_node cs = Some n" and "tree_ok (b_nodes b)" and "n < length (b_nodes b)"
  shows "ask_resource env b BWLDMESGREQUEST (LimRec BWLDLimPending 1) =
    Some (if \<forall>m \<in> set (limiting_nodes (b_nodes b) n BWLDLimPending). fits BWLDLimPending 1 (b_nodes b ! m)
      then (BWLDMESGOK, b\<lparr>b_nodes := charged n (b_nodes b)\<rparr>) else (BWLDMESGDENIED, b))"
proof -
  have "BWLDResourceDemand (b_nodes b) n BWLDMESGREQUEST (LimRec BWLDLimPending 1) = Some
    (if \<forall>m \<in> set (limiting_nodes (b_nodes b) n BWLDLimPending). fits BWLDLimPending 1 (b_nodes b ! m)
     then (True, charged n (b_nodes b)) else (False, b_nodes b))"
    using request.demand_spec_full [OF assms(3) limkind_def0 [OF disjI1] assms(4), of BWLDLimPending 1]
    by (simp add: BWLDResourceDemand_def)
  then show ?thesis
    using ask_resource_eq [OF assms(1,2), of BWLDMESGREQUEST "LimRec BWLDLimPending 1" True "charged n (b_nodes b)"]
      ask_resource_eq [OF assms(1,2), of BWLDMESGREQUEST "LimRec BWLDLimPending 1" False "b_nodes b"]
    by (cases "\<forall>m \<in> set (limiting_nodes (b_nodes b) n BWLDLimPending). fits BWLDLimPending 1 (b_nodes b ! m)") simp_all
qed

section \<open>Limits on the child's own copy\<close>

lemma kinds [simp]:
  "limkind_of BWLDLimDuration = LIMFIXEDINT" "limkind_of BWLDLimBandwidth = LIMFIXEDINT"
  "limkind_of BWLDLimMaxTimeError = LIMFIXEDINT" "limkind_of BWLDLimAllowUDP = LIMBOOL" "limkind_of BWLDLimAllowTCP = LIMBOOL"
  "limkind_of BWLDLimAllowNoEndpoint = LIMBOOL" "limkind_of BWLDLimMinimumTTL = LIMFIXEDINT"
  by (simp_all add: limkind_of_def find_limkey_def limkeys_def limdesc_of_def)

lemma demand_bool: "limkind_of l = LIMBOOL \<Longrightarrow> demand ns n l v = (GetLimit (ns ! n) l = v)"
  by (simp add: demand_def BWLDResourceDemand_def)

lemma fixed_demand:
  assumes "tree_ok ns" and "n < length ns" and "limkind_of l = LIMFIXEDINT"
  shows "demand ns n l v = (\<forall>m \<in> set (limiting_nodes ns n l). fits l v (ns ! m)) \<and>
    BWLDResourceDemand ns n BWLDMESGREQUEST (LimRec l v) = Some (demand ns n l v, ns)"
  using fixed.demand_spec_full [OF assms(1) limkind_def0 [OF disjI2, OF assms(3)] assms(2), of v] assms(3)
  by (simp add: demand_def BWLDResourceDemand_def)

section \<open>Decisions\<close>

lemma ask_reservation_none:
  assumes "heap b (te_child env) = Some cs" and "ch_node cs = Some n" and "reservation_ok q"
    and "ChldReservationDemand (te_rnd env) (b_nodes b) (te_clock env) (b_ctx b, b_slots b, cs) q 0 = None"
  shows "ask_reservation env b q restime = None"
proof -
  have "BWLDReadReservationQuery e (reservation_body e q @ []) = (Some q, [])" for e
    unfolding BWLDReadReservationQuery_def
    using assms(3) reservation.enc_width reservation.dec_msg by (intro read_body_codec) blast+
  then show ?thesis
    using assms by (simp add: ask_reservation_def ask_parent_def CheckFD_def BWLDReservationQuery_def Let_def)
qed

lemma ask_complete_eq:
  assumes "heap b (te_child env) = Some cs" and "ch_node cs = Some n" and "length s = 16"
    and "ChldReservationComplete (b_slots b) cs s = (True, slots', cs')"
  shows "ask_complete env b s aval = Some (BWLDMESGOK, b\<lparr>b_slots := slots', heap := (heap b)(te_child env \<mapsto> cs')\<rparr>)"
proof -
  have "BWLDReadTestComplete e (complete_body e (s, aval) @ []) = (Some (s, aval), [])" for e
    unfolding BWLDReadTestComplete_def
    using assms(3) complete.enc_width [of "(s, aval)" e] complete.dec_msg [of "(s, aval)" e]
    by (intro read_body_codec) simp_all
  then show ?thesis
    using assms by (simp add: ask_complete_def ask_parent_def CheckFD_def BWLDSendTestComplete_def commit_def Let_def)
qed

lemma minimum_ttl_same:
  assumes "minimum_ttl_spec ns n lc (test_spec t) = Some tspec"
  shows "reservation_of env ti (t\<lparr>test_spec := tspec\<rparr>) = reservation_of env ti t"
  using assms
  by (auto simp: minimum_ttl_spec_def reservation_of_def test_length_def Let_def split: if_splits option.splits)

text \<open>The reservation record the child asks with has the form the parent expects.\<close>

lemma reservation_of_ok:
  "length (ti_sid ti) = 16 \<Longrightarrow> \<forall>a. cstr_ok 46 (te_name env a) \<Longrightarrow> reservation_ok (reservation_of env ti t)"
  by (simp add: reservation_ok_def reservation_of_def Let_def)

definition new_info :: "nat \<Rightarrow> BWLTestSession \<Rightarrow> BWLDTestInfo" where
  "new_info n t = \<lparr>ti_node = n, ti_sid = sid t, ti_res = LimRec BWLDLimPending 1\<rparr>"

definition after_pending :: "test_env \<Rightarrow> nat \<Rightarrow> broker \<Rightarrow> broker" where
  "after_pending env n b = te_others env (b\<lparr>b_nodes := charged n (b_nodes b)\<rparr>)"

text \<open>The parts of the situation of a child that asks about a new test.\<close>

definition child_ready :: "test_env \<Rightarrow> nat \<Rightarrow> BWLTestSession \<Rightarrow> ChldState \<Rightarrow> broker \<Rightarrow> bool" where
  "child_ready env n t cs b \<longleftrightarrow> closure t = None \<and> length (sid t) = 16 \<and> (\<forall>a. cstr_ok 46 (te_name env a)) \<and>
     heap b (te_child env) = Some cs \<and> ch_node cs = Some n \<and> tree_ok (b_nodes b) \<and> n < length (b_nodes b) \<and>
     heap (after_pending env n b) (te_child env) = Some cs"

lemma check_test_cases:
  assumes "child_ready env n t cs b"
    and "BWLDCheckTestPolicy env ns (Some n) t b = Some ((ok, err, t'), b')"
  obtains (refused) "\<not> ok" "b' = b" "closure t' = None" "err = BWLErrOK"
      "\<not> fixed_limits_ok env ns n t \<or> minimum_ttl_spec ns n (conf_client t) (test_spec t) = None \<or>
       \<not> (\<forall>m \<in> set (limiting_nodes (b_nodes b) n BWLDLimPending). fits BWLDLimPending 1 (b_nodes b ! m))"
  | (scheduled) tspec reply ctx' slots' cs' where
      "fixed_limits_ok env ns n t" "minimum_ttl_spec ns n (conf_client t) (test_spec t) = Some tspec"
      "\<forall>m \<in> set (limiting_nodes (b_nodes b) n BWLDLimPending). fits BWLDLimPending 1 (b_nodes b ! m)"
      "ChldReservationDemand (te_rnd env) (b_nodes (after_pending env n b)) (te_clock env)
         (b_ctx (after_pending env n b), b_slots (after_pending env n b), cs) (reservation_of env (new_info n t) t) 0 =
         Some (reply, ctx', slots', cs')"
      "ok = reply_ok reply" "err = BWLErrOK"
      "b' = (after_pending env n b)\<lparr>b_ctx := ctx', b_slots := slots', heap := (heap (after_pending env n b))(te_child env \<mapsto> cs')\<rparr>"
      "ok \<Longrightarrow> t' = t\<lparr>test_spec := tspec, reserve_time := reply_restime reply,
         tool_port := if conf_client t then tool_port t else reply_toolport reply,
         local_tool_port := reply_toolport reply, closure := Some (new_info n t)\<rparr>"
      "\<not> ok \<Longrightarrow> closure t' = None"
proof -
  note r = assms(1) [unfolded child_ready_def]
  note run = assms(2) [unfolded BWLDCheckTestPolicy_def]
  consider "\<not> fixed_limits_ok env ns n t \<or> minimum_ttl_spec ns n (conf_client t) (test_spec t) = None"
    | tspec where "fixed_limits_ok env ns n t" "minimum_ttl_spec ns n (conf_client t) (test_spec t) = Some tspec" by fastforce
  then show ?thesis
  proof cases
    case 1
    then have "(refuse_test t, b) = ((ok, err, t'), b')" using run r by (auto split: if_splits)
    then show ?thesis using 1 by (intro refused) (auto simp: refuse_test_def)
  next
    case (2 tspec)
    let ?ok = "\<forall>m \<in> set (limiting_nodes (b_nodes b) n BWLDLimPending). fits BWLDLimPending 1 (b_nodes b ! m)"
    have p: "ask_resource env b BWLDMESGREQUEST (LimRec BWLDLimPending 1) =
        Some (if ?ok then (BWLDMESGOK, b\<lparr>b_nodes := charged n (b_nodes b)\<rparr>) else (BWLDMESGDENIED, b))"
      using r by (intro ask_pending_eq) auto
    show ?thesis
    proof (cases ?ok)
      case False
      then have "(refuse_test (t\<lparr>test_spec := tspec\<rparr>), b) = ((ok, err, t'), b')" using run r 2 p [unfolded if_not_P [OF False]] by (simp add: Let_def)
      then show ?thesis using False by (intro refused) (auto simp: refuse_test_def)
    next
      case fit: True
      let ?b = "after_pending env n b" and ?q = "reservation_of env (new_info n t) t"
      have q: "reservation_ok ?q" using r by (intro reservation_of_ok) (simp_all add: new_info_def)
      have res: "reserve_test env (new_info n t) (t\<lparr>test_spec := tspec\<rparr>) ?b = Some ((ok, err, t'), b')"
        using run r 2 p [unfolded if_P [OF fit]] by (simp add: Let_def new_info_def after_pending_def)
      show ?thesis
      proof (cases "ChldReservationDemand (te_rnd env) (b_nodes ?b) (te_clock env) (b_ctx ?b, b_slots ?b, cs) ?q 0")
        case None
        then show ?thesis using res r minimum_ttl_same [OF 2(2)] ask_reservation_none [OF _ _ q, of ?b env cs n]
          by (simp add: reserve_test_def)
      next
        case (Some d)
        obtain reply ctx' slots' cs' where d: "d = (reply, ctx', slots', cs')" by (cases d) auto
        note a = ask_reservation_eq [OF _ _ q, of ?b env cs n reply ctx' slots' cs' "reserve_time t"]
        show ?thesis
          using res r minimum_ttl_same [OF 2(2)] a Some d 2 fit
          by (intro scheduled) (auto simp: reserve_test_def refuse_test_def Let_def split: if_splits)
      qed
    qed
  qed
qed

section \<open>What a grant means\<close>




text \<open>
  What the code does when the parent refuses the time after it granted the pending test: the information
  about the test is freed, so nothing will release what was charged.
\<close>

lemma denied_reservation_keeps_pending:
  assumes "BWLDCheckTestPolicy env ns (Some n) t b = Some ((False, err, t'), b')" and "child_ready env n t cs b"
    and "fixed_limits_ok env ns n t" and "minimum_ttl_spec ns n (conf_client t) (test_spec t) = Some tspec"
    and "\<forall>m \<in> set (limiting_nodes (b_nodes b) n BWLDLimPending). fits BWLDLimPending 1 (b_nodes b ! m)"
    and "te_others env = (\<lambda>b. b)" and "limiting_nodes (b_nodes b) n BWLDLimPending \<noteq> []"
  shows "closure t' = None \<and> b_nodes b' = charged n (b_nodes b) \<and> b_nodes b' \<noteq> b_nodes b"
proof -
  obtain m where m: "m \<in> set (limiting_nodes (b_nodes b) n BWLDLimPending)" using hd_in_set [OF assms(7)] by blast
  have t: "tree_ok (b_nodes b)" "n < length (b_nodes b)" using assms(2) by (simp_all add: child_ready_def)
  have "GetUsed (charged n (b_nodes b) ! m) BWLDLimPending = GetUsed (b_nodes b ! m) BWLDLimPending + 1"
    using m limiting_node [OF t m] by (simp add: GetUsed_with_used)
  then have ne: "charged n (b_nodes b) \<noteq> b_nodes b" by (metis add_cancel_right_right zero_neq_one)
  from assms(2,1) show ?thesis
  proof (cases rule: check_test_cases)
    case refused
    then show ?thesis using assms(3-5) by auto
  next
    case (scheduled tspec reply ctx' slots' cs')
    then show ?thesis using ne by (simp add: after_pending_def assms(6))
  qed
qed

section \<open>What a completed test returns\<close>

text \<open>
  C39. A test that was granted and completes leaves nothing behind: the pending test is released in
  every class that was charged, the reservation is removed, every second is booked as often as before
  the request, and the record of the child is as it was.
\<close>

theorem completed_test_returns_everything:
  assumes "BWLDCheckTestPolicy env ns (Some n) t b = Some ((True, err, t'), b')" and "child_ready env n t cs b"
    and "te_others env = (\<lambda>b. b)" and "ch_res cs = None" and "te_clock env = Some now"
    and "schedulable now (reservation_of env (new_info n t) t) (b_slots b)"
    and "\<forall>m \<in> set (limiting_nodes (b_nodes b) n BWLDLimPending). unat (GetUsed (b_nodes b ! m) BWLDLimPending) + 1 < 2 ^ 64"
  shows "\<exists>ti b''. closure t' = Some ti \<and> BWLDTestComplete env ti aval b' = Some b'' \<and> b_nodes b'' = b_nodes b \<and>
    heap b'' = heap b \<and> (\<forall>s. booked (b_slots b'') s = booked (b_slots b) s)"
  using assms(2,1)
proof (cases rule: check_test_cases)
  case (scheduled tspec reply ctx' slots' cs')
  let ?q = "reservation_of env (new_info n t) t" and ?ns = "charged n (b_nodes b)"
  note r = assms(2) [unfolded child_ready_def]
  have b1: "after_pending env n b = b\<lparr>b_nodes := ?ns\<rparr>" by (simp add: after_pending_def assms(3))
  have dem: "ChldReservationDemand (te_rnd env) ?ns (Some now) (b_ctx b, b_slots b, cs) ?q 0 = Some (reply, ctx', slots', cs')"
    using scheduled(4) by (simp add: b1 assms(5))
  have open_eq: "open_slots (b_slots b) cs = b_slots b" by (simp add: open_slots_def assms(4))
  have ok: "reply_ok reply" using scheduled(5) by simp
  obtain slots2 where done2: "ChldReservationComplete slots' cs' (sid t) = (True, slots2, cs'\<lparr>ch_res := None\<rparr>)"
    and same: "\<forall>s. booked slots2 s = booked (b_slots b) s"
    using complete_restores_booking [OF dem ok] assms(6) by (auto simp: open_eq reservation_of_def new_info_def Let_def)
  have cs': "cs'\<lparr>ch_res := None\<rparr> = cs" using demand_child [OF dem] assms(4) by (cases cs; cases cs') simp
  have rel: "BWLDResourceDemand ?ns n BWLDMESGRELEASE (LimRec BWLDLimPending 1) = Some (True, b_nodes b)"
  proof (rule release_undoes_request)
    show "BWLDResourceDemand (b_nodes b) n BWLDMESGREQUEST (LimRec BWLDLimPending 1) = Some (True, ?ns)"
      using request.demand_spec_full [OF _ limkind_def0 [OF disjI1], of "b_nodes b" BWLDLimPending n 1] r scheduled(3)
      by (simp add: BWLDResourceDemand_def)
  qed (use r assms(7) in simp_all)
  have b': "heap b' (te_child env) = Some cs'" "b_nodes b' = ?ns" "b_slots b' = slots'" "heap b' = (heap b)(te_child env \<mapsto> cs')"
    using scheduled(7) by (simp_all add: b1)
  have n': "ch_node cs' = Some n" using demand_child [OF dem] r by simp
  have "ask_resource env b' BWLDMESGRELEASE (LimRec BWLDLimPending 1) = Some (BWLDMESGOK, b'\<lparr>b_nodes := b_nodes b\<rparr>)"
    using ask_resource_eq [OF b'(1) n', of BWLDMESGRELEASE] rel by (simp add: b')
  moreover have "ask_complete env (b'\<lparr>b_nodes := b_nodes b\<rparr>) (sid t) aval =
      Some (BWLDMESGOK, b'\<lparr>b_nodes := b_nodes b, b_slots := slots2, heap := (heap b')(te_child env \<mapsto> cs)\<rparr>)"
    using ask_complete_eq [of "b'\<lparr>b_nodes := b_nodes b\<rparr>" env cs' n "sid t" slots2 cs aval] b' n' done2 cs' r
    by (cases b') simp
  ultimately show ?thesis
    using scheduled(8) ok scheduled(5) same r
    by (auto simp: BWLDTestComplete_def new_info_def b' fun_upd_idem)
qed simp

section \<open>A test, granted and completed\<close>

definition sample_env :: test_env where
  "sample_env = \<lparr>te_order = BE, te_child = 0, te_rnd = None, te_clock = Some (sample_time 200), te_others = (\<lambda>b. b),
     te_allow_unsync = True, te_synced = False, te_local = False, te_rtt = 0,
     te_name = (\<lambda>a. if a = AF_INET [10, 0, 0, 1] then ''a'' else ''b'')\<rparr>"

definition sample_parent :: broker where
  "sample_parent = sample_broker\<lparr>heap := [0 \<mapsto> sample_child]\<rparr>"

definition sample_test :: BWLTestSession where
  "sample_test = sample_session\<lparr>sid := replicate 16 7, reserve_time := 0, tool_port := 0, conf_server := False,
     test_spec := (test_spec sample_session)\<lparr>client := AF_INET [10, 0, 0, 1], server := AF_INET [10, 0, 0, 2],
       req_time := sample_time 1000, tool_id := BWL_TOOL_PING\<rparr>\<rparr>"

text \<open>The test at some local time, with some clock error.\<close>

abbreviation fuzzy_test :: "BWLTimeStamp \<Rightarrow> BWLNum64 \<Rightarrow> BWLTestSession" where
  "fuzzy_test now f \<equiv> sample_test\<lparr>localtime := now, reserve_time := 0, fuzz := f\<rparr>"

lemma fuzzy_reservation:
  "reservation_of sample_env (new_info 1 (fuzzy_test now f)) (fuzzy_test now f) = sample_wire_query\<lparr>q_ftime := f\<rparr>"
  by (simp add: reservation_of_def sample_env_def new_info_def sample_test_def sample_session_def sample_wire_query_def
      sample_query_def test_length_def sample_time_def)

lemma sample_unfuzzy: "fuzzy_test no_time 0 = sample_test" "sample_wire_query\<lparr>q_ftime := 0\<rparr> = sample_wire_query"
  by (simp_all add: sample_test_def sample_session_def sample_wire_query_def sample_query_def)

lemmas sample_reservation = fuzzy_reservation [where now = no_time and f = 0, unfolded sample_unfuzzy]

lemma fuzzy_ready: "child_ready sample_env 1 (fuzzy_test now f) sample_child sample_parent"
  by (simp add: child_ready_def after_pending_def sample_env_def sample_test_def sample_session_def sample_parent_def
      sample_broker_def sample_child_def sample_tree_ok cstr_ok_def char_byte_def)

lemmas sample_ready = fuzzy_ready [where now = no_time and f = 0, unfolded sample_unfuzzy]


lemma fuzzy_fixed: "fixed_limits_ok sample_env sample_tree 1 (fuzzy_test now f)"
proof -
  have n: "(1 :: nat) < length sample_tree" using sample_tree_ok(2) by simp
  have "limiting_nodes sample_tree 1 BWLDLimDuration = [1]" "limiting_nodes sample_tree 1 BWLDLimMaxTimeError = []"
    by (simp_all add: demand_path.simps sample_tree_def GetLimit_def)
  moreover have "fits BWLDLimDuration 10 (sample_tree ! 1)" by (simp add: fits_def GetLimit_def GetUsed_def sample_tree_def)
  ultimately have "demand sample_tree 1 BWLDLimDuration 10" "demand sample_tree 1 BWLDLimMaxTimeError v" for v
    using fixed_demand [OF sample_tree_ok(1) n, of BWLDLimDuration 10] fixed_demand [OF sample_tree_ok(1) n, of BWLDLimMaxTimeError v]
    by auto
  moreover have "demand sample_tree 1 BWLDLimAllowTCP 1"
    by (simp add: demand_bool GetLimit_def sample_tree_def GetDefLimit_def find_limkey_def limkeys_def limdesc_of_def)
  ultimately show ?thesis
    by (simp add: fixed_limits_ok_def sample_env_def sample_test_def sample_session_def test_length_def Let_def BWL_TOOL_PING_def)
qed

lemma sample_wire_granted:
  assumes "GetLimit (ns ! 1) BWLDLimEventHorizon = 0"
  shows "\<exists>reply ctx' slots' cs'. ChldReservationDemand None ns (Some (sample_time 200)) (sample_ctx, [], sample_child) (sample_wire_query\<lparr>q_ftime := f\<rparr>) 0 =
    Some (reply, ctx', slots', cs') \<and> reply_ok reply"
  using assms by (simp add: ChldReservationDemand_def event_horizon_limit Let_def sample_child_def sample_wire_query_def
      sample_query_def AllocReservation_def BWLToolInitTest_def sample_ctx_def BWLToolPing_def
      demand_search_def place_reservation_def too_late_def latest_start_def initial_reservation_def)

lemma fuzzy_decision:
  "\<exists>t' b'. BWLDCheckTestPolicy sample_env sample_tree (Some 1) (fuzzy_test now f) sample_parent = Some ((True, BWLErrOK, t'), b') \<and>
     tool_id (test_spec t') = BWL_TOOL_PING"
proof -
  let ?b = "after_pending sample_env 1 sample_parent" and ?t = "fuzzy_test now f"
  have fits: "\<forall>m \<in> set (limiting_nodes (b_nodes sample_parent) 1 BWLDLimPending). fits BWLDLimPending 1 (b_nodes sample_parent ! m)"
    by (simp add: sample_parent_def sample_broker_def sample_tree_ok sample_path sample_values fits_def)
  have ttl: "minimum_ttl_spec sample_tree 1 (conf_client ?t) (test_spec ?t) =
      Some ((test_spec ?t)\<lparr>traceroute_first_ttl := 0\<rparr>)"
    by (simp add: minimum_ttl_spec_def BWLDGetFixedLimit_def GetLimit_def sample_tree_def GetDefLimit_def find_limkey_def
        limkeys_def limdesc_of_def sample_test_def sample_session_def)
  have h: "heap ?b (te_child sample_env) = Some sample_child" "ch_node sample_child = Some 1" "b_slots ?b = []" "b_ctx ?b = sample_ctx"
    by (simp_all add: after_pending_def sample_env_def sample_parent_def sample_broker_def sample_child_def)
  have env: "te_rnd sample_env = None" "te_clock sample_env = Some (sample_time 200)" by (simp_all add: sample_env_def)
  have n: "GetLimit (b_nodes ?b ! 1) BWLDLimEventHorizon = 0"
    by (simp add: after_pending_def sample_env_def sample_parent_def sample_broker_def sample_tree_ok sample_horizon)
  have q: "reservation_ok (sample_wire_query\<lparr>q_ftime := f\<rparr>)"
    by (simp add: reservation_ok_def sample_wire_query_def sample_query_def cstr_ok_def char_byte_def)
  obtain reply ctx' slots' cs' where d: "ChldReservationDemand (te_rnd sample_env) (b_nodes ?b) (te_clock sample_env)
      (b_ctx ?b, b_slots ?b, sample_child) (sample_wire_query\<lparr>q_ftime := f\<rparr>) 0 = Some (reply, ctx', slots', cs')" "reply_ok reply"
    using sample_wire_granted [OF n] unfolding h env by blast
  note a = ask_reservation_eq [OF h(1,2) q d(1), of 0]
  have p: "ask_resource sample_env sample_parent BWLDMESGREQUEST (LimRec BWLDLimPending 1) =
      Some (BWLDMESGOK, sample_parent\<lparr>b_nodes := charged 1 (b_nodes sample_parent)\<rparr>)"
    using ask_pending_eq [of sample_parent sample_env sample_child 1] fuzzy_ready unfolding if_P [OF fits] child_ready_def by blast
  have c: "closure ?t = None" "reserve_time ?t = 0" "tool_id (test_spec ?t) = BWL_TOOL_PING"
    by (simp_all add: sample_test_def sample_session_def)
  show ?thesis
    using a d(2) p fuzzy_fixed [where now = now and f = f] ttl minimum_ttl_same [OF ttl, of sample_env "new_info 1 ?t"] fuzzy_reservation [where now = now and f = f] c
    by (simp add: BWLDCheckTestPolicy_def Let_def reserve_test_def new_info_def after_pending_def)
qed

lemma sample_decision:
  obtains err t' b' where "BWLDCheckTestPolicy sample_env sample_tree (Some 1) sample_test sample_parent = Some ((True, err, t'), b')"
  using fuzzy_decision [where now = no_time and f = 0] unfolding sample_unfuzzy by blast


theorem completed_test_returns_everything_witness:
  "\<exists>err t' b' ti b''. BWLDCheckTestPolicy sample_env sample_tree (Some 1) sample_test sample_parent = Some ((True, err, t'), b') \<and>
    BWLDTestComplete sample_env ti 0 b' = Some b'' \<and> b_nodes b'' = sample_tree \<and> booked (b_slots b'') 1010 = 0"
proof -
  obtain err t' b' where run: "BWLDCheckTestPolicy sample_env sample_tree (Some 1) sample_test sample_parent = Some ((True, err, t'), b')"
    by (rule sample_decision)
  have s: "te_others sample_env = (\<lambda>b. b)" "ch_res sample_child = None" "te_clock sample_env = Some (sample_time 200)"
    "b_nodes sample_parent = sample_tree" "b_slots sample_parent = []"
    by (simp_all add: sample_env_def sample_child_def sample_parent_def sample_broker_def)
  have "query_length sample_wire_query = query_length (sample_query 0)" "earliest t sample_wire_query = earliest t (sample_query 0)" for t
    by (simp_all add: sample_wire_query_def query_length_def earliest_def initial_start_def)
  then have sch: "schedulable (sample_time 200) sample_wire_query []"
    using sample_schedulable [of 0] by (simp add: schedulable_def slots_in_era_def slots_ok_def)
  have "\<forall>m \<in> set (limiting_nodes sample_tree 1 BWLDLimPending). unat (GetUsed (sample_tree ! m) BWLDLimPending) + 1 < 2 ^ 64"
    by (simp add: sample_tree_ok sample_path sample_values)
  then show ?thesis
    using completed_test_returns_everything [OF run sample_ready s(1-3), unfolded s(4,5) sample_reservation, OF sch] run
    by fastforce
qed

end
