(* ===== verification/Session.thy ===== *)
theory Session
  imports TestRequest TestPolicy
begin

unbundle bit_operations_syntax

text \<open>
  Test sessions over an open control connection: the server's \<open>BWLProcessTestRequest\<close>,
  \<open>BWLProcessTimeRequest\<close>, \<open>BWLProcessStartSession\<close>, \<open>BWLSessionsActive\<close> and \<open>BWLStopSession\<close>
  (\<open>bwlib/sapi.c\<close>), the client's \<open>BWLControlTimeCheck\<close>, \<open>BWLSessionRequest\<close>, \<open>BWLStartSession\<close> and
  \<open>BWLEndSession\<close> (\<open>bwlib/capi.c\<close>), and \<open>_BWLTestSessionFree\<close> and \<open>_BWLCreateSID\<close> (\<open>bwlib/api.c\<close>).

  The server is the child process of the daemon: its state is the control record and, through the
  policy hooks, the parent (theory \<open>TestPolicy\<close>). The clock, random bytes, the endpoint process
  (\<open>bwlib/endpoint.c\<close>) and the resolver of addresses are parameters. \<open>None\<close> as a result means that the
  parent does not come back.

  Shown: when the policy grants a request, the two ends agree on the session (\<open>session_agreed\<close>).
\<close>

section \<open>Sessions of the server\<close>

record server_env =
  se_policy :: test_env
  se_ctx :: BWLContext
  se_nodes :: nodes
  se_node :: "nat option"
  se_now :: "BWLTimeStamp option"
  se_rand :: "u8 list option"
  se_alloc :: bool

definition BWLTestSessionFree ::
  "test_env \<Rightarrow> BWLTestSession \<Rightarrow> BWLAcceptType \<Rightarrow> BWLControl \<Rightarrow> broker \<Rightarrow> (BWLControl \<times> broker) option" where
  "BWLTestSessionFree env t aval c b = (case closure t of
       None \<Rightarrow> Some (c\<lparr>tests := None\<rparr>, b)
     | Some ti \<Rightarrow> map_option (\<lambda>b. (c\<lparr>tests := None\<rparr>, b)) (BWLDTestComplete env ti aval b))"

text \<open>The last four bytes of the server address, the local time and four random bytes.\<close>

fun sid_address :: "sockaddr \<Rightarrow> u8 list option" where
  "sid_address (AF_INET6 a) = Some (slice 12 4 a)"
| "sid_address (AF_INET a) = Some (take 4 a)"
| "sid_address AF_OTHER = None"

definition BWLCreateSID :: "u8 list option \<Rightarrow> BWLTestSession \<Rightarrow> bool \<times> BWLTestSession" where
  "BWLCreateSID rand t = (case sid_address (server (test_spec t)) of None \<Rightarrow> (False, t)
     | Some a \<Rightarrow>
         let s = memcpy (memcpy (sid t) 0 a) 4 (BWLEncodeTimeStamp (localtime t))
         in (case rand of None \<Rightarrow> (False, t\<lparr>sid := s\<rparr>) | Some r \<Rightarrow> (True, t\<lparr>sid := memcpy s 12 r\<rparr>)))"

section \<open>A test request at the server\<close>

text \<open>The labels \<open>error\<close> and \<open>err2\<close>: a negative answer unless the connection is lost, and the session is freed.\<close>

definition drop_session ::
  "test_env \<Rightarrow> BWLErrSeverity \<Rightarrow> BWLTestSession \<Rightarrow> BWLControl \<Rightarrow> broker \<Rightarrow> (BWLErrSeverity \<times> BWLControl \<times> broker) option" where
  "drop_session env err t c b = map_option (\<lambda>(c, b). (err, c, b)) (BWLTestSessionFree env t BWL_CNTRL_FAILURE c b)"

definition reject_request ::
  "test_env \<Rightarrow> BWLErrSeverity \<Rightarrow> BWLAcceptType \<Rightarrow> BWLTestSession \<Rightarrow> BWLControl \<Rightarrow> broker \<Rightarrow>
   (BWLErrSeverity \<times> BWLControl \<times> broker) option" where
  "reject_request env err acceptval t c b =
     drop_session env err t (if BWLErrWARNING \<le> err then snd (BWLWriteTestAccept c acceptval t) else c) b"

text \<open>Before the policy is asked: the session, or the severity and answer of a refusal.\<close>

definition setup_request ::
  "server_env \<Rightarrow> bool \<Rightarrow> BWLTestSession \<Rightarrow> (BWLErrSeverity \<times> BWLAcceptType \<times> BWLTestSession) + BWLTestSession" where
  "setup_request se update t = (case se_now se of None \<Rightarrow> Inl (BWLErrWARNING, BWL_CNTRL_FAILURE, t)
     | Some now \<Rightarrow>
         let t = t\<lparr>localtime := now, reserve_time := 0\<rparr>
         in if update then
              if tstamp (req_time (test_spec t)) = 0 then Inl (BWLErrINFO, BWL_CNTRL_REJECT, t) else Inr t
            else let (ok, t) = (if conf_server t then BWLCreateSID (se_rand se) t else (True, t))
                 in if \<not> ok then Inl (BWLErrWARNING, BWL_CNTRL_FAILURE, t)
                    else if BWLToolGetDefinition (se_ctx se) (tool_id (test_spec t)) = None
                    then Inl (BWLErrWARNING, BWL_CNTRL_UNSUPPORTED, t)
                    else Inr t)"

text \<open>The errors of both clocks and a second and a half (\<open>BWLDoubleToNum64 (1.5)\<close>).\<close>

definition request_fuzz :: "BWLTestSession \<Rightarrow> BWLNum64" where
  "request_fuzz t = BWLNum64Add (BWLNum64Add (BWLGetTimeStampError (req_time (test_spec t))) (BWLGetTimeStampError (localtime t))) 0x180000000"

definition decide_request ::
  "server_env \<Rightarrow> BWLTestSession \<Rightarrow> BWLControl \<Rightarrow> broker \<Rightarrow> (BWLErrSeverity \<times> BWLControl \<times> broker) option" where
  "decide_request se t c b =
     (let env = se_policy se
      in case BWLDCheckTestPolicy env (se_nodes se) (se_node se) (t\<lparr>fuzz := request_fuzz t\<rparr>) b of None \<Rightarrow> None
         | Some ((ok, err, t), b) \<Rightarrow>
             if \<not> ok then
               if err < BWLErrOK then reject_request env err BWL_CNTRL_ACCEPT t c b
               else reject_request env BWLErrINFO BWL_CNTRL_REJECT t c b
             else if \<not> BWLToolValidateTest (se_ctx se) (tool_id (test_spec t)) (test_spec t)
             then reject_request env BWLErrWARNING BWL_CNTRL_UNSUPPORTED t c b
             else let (rc, c) = BWLWriteTestAccept c BWL_CNTRL_ACCEPT t
                  in if rc < BWLErrOK then drop_session env rc t c b
                     else Some (BWLErrOK, c\<lparr>tests := Some t\<rparr>, b))"

definition BWLProcessTestRequest ::
  "server_env \<Rightarrow> BWLControl \<Rightarrow> broker \<Rightarrow> (BWLErrSeverity \<times> BWLControl \<times> broker) option" where
  "BWLProcessTestRequest se c b =
     (let old = tests c;
          (rc, acc, ts, c) = BWLReadTestRequest (se_ctx se) (se_alloc se) c old
      in if rc \<noteq> BWLErrOK then
           let err = (if acc = Some BWL_CNTRL_INVALID then BWLErrFATAL else BWLErrWARNING)
           in (case (old, ts) of
                 (Some t, None) \<Rightarrow> drop_session (se_policy se) err t c b
               | _ \<Rightarrow> Some (err, c, b))
         else (case setup_request se (old \<noteq> None) (the ts) of
             Inl (err, acceptval, t) \<Rightarrow> reject_request (se_policy se) err acceptval t c b
           | Inr t \<Rightarrow> decide_request se t c b))"

section \<open>Time, start and stop at the server\<close>

definition BWLProcessTimeRequest :: "BWLTimeStamp option \<Rightarrow> BWLControl \<Rightarrow> BWLErrSeverity \<times> BWLControl" where
  "BWLProcessTimeRequest now c =
     (let (rc, c) = BWLReadTimeRequest c
      in if rc < BWLErrOK then BWLFailControlSession c rc
         else case now of None \<Rightarrow> BWLFailControlSession c BWLErrFATAL
              | Some ts \<Rightarrow>
                  (let (rc, c) = BWLWriteTimeResponse c ts
                   in if rc < BWLErrOK then BWLFailControlSession c rc else (BWLErrOK, c)))"

text \<open>
  \<open>_BWLEndpointStart\<close> gets the session and the port of the peer and gives its own port, or fails with
  an error.
\<close>

definition BWLProcessStartSession ::
  "(BWLTestSession \<Rightarrow> u16 \<Rightarrow> BWLErrSeverity + u16) \<Rightarrow> BWLControl \<Rightarrow> BWLErrSeverity \<times> BWLControl" where
  "BWLProcessStartSession endpoint_start c =
     (let (rc, port, c) = BWLReadStartSession c
      in if rc < BWLErrOK then BWLFailControlSession c rc
         else case endpoint_start (the (tests c)) (case port of None \<Rightarrow> 0 | Some p \<Rightarrow> p) of
             Inl err \<Rightarrow> BWLFailControlSession (snd (BWLWriteStartAck c 0 BWL_CNTRL_FAILURE)) err
           | Inr peerport \<Rightarrow>
               (let (rc, c) = BWLWriteStartAck c peerport BWL_CNTRL_ACCEPT
                in if rc < BWLErrOK then BWLFailControlSession c rc else (BWLErrOK, c)))"

text \<open>\<open>_BWLEndpointStatus\<close>: \<open>None\<close> when it has none, the only negative value of the answer is \<open>BWL_CNTRL_INVALID\<close>.\<close>

definition BWLSessionStatus :: "BWLAcceptType option \<Rightarrow> BWLControl \<Rightarrow> u8 list \<Rightarrow> BWLAcceptType option" where
  "BWLSessionStatus status c s = (case tests c of None \<Rightarrow> None | Some t \<Rightarrow> if s \<noteq> sid t then None else status)"

definition BWLSessionsActive :: "BWLAcceptType option \<Rightarrow> BWLControl \<Rightarrow> bool \<times> BWLAcceptType" where
  "BWLSessionsActive status c =
     (let laval = (case (tests c, status) of (Some t, Some a) \<Rightarrow> a | _ \<Rightarrow> 0)
      in if tests c \<noteq> None \<and> status = Some BWL_CNTRL_INVALID then (True, laval) else (False, laval))"

text \<open>
  \<open>BWLStopSession\<close>: \<open>stop_err\<close> is the error of \<open>_BWLEndpointStop\<close>, \<open>results_err\<close> that of the hook for the
  results and \<open>free_err\<close> that of freeing the session. The code passes the pointers for the answer and
  for the interrupt flag to \<open>_BWLReadStopSession\<close> in the wrong order: what the peer answers goes to the
  flag, the second result here, and the answer stays the one that was sent.
\<close>

definition BWLStopSession ::
  "test_env \<Rightarrow> BWLErrSeverity \<Rightarrow> BWLErrSeverity \<Rightarrow> BWLErrSeverity \<Rightarrow> BWLAcceptType \<Rightarrow> BWLControl \<Rightarrow> broker \<Rightarrow>
   (BWLErrSeverity \<times> BWLAcceptType \<times> BWLAcceptType option \<times> u8 list \<times> BWLControl \<times> broker) option" where
  "BWLStopSession env stop_err results_err free_err acceptval c b = (case tests c of
       None \<Rightarrow> Some (BWLErrOK, acceptval, None, [], c, b)
     | Some t \<Rightarrow>
         let (acceptval, fp) = (if acceptval = 0 \<and> stop_err < BWLErrWARNING then (BWL_CNTRL_FAILURE, None) else (acceptval, localfp t));
             (err, c) = BWLWriteStopSession c acceptval fp;
             failed = (\<lambda>err flag data c. Some (err, acceptval, flag, data, set_state BWLStateInvalid c, b))
         in if err < BWLErrWARNING then failed BWLErrFATAL None [] c
            else let err2 = min err stop_err;
                     (msgtype, c) = BWLReadRequestType c
                 in if msgtype \<noteq> BWLReqStopSession then failed BWLErrFATAL None [] c
                    else let (err, (aval, data), c) = BWLReadStopSession c (remotefp t)
                         in if err \<noteq> BWLErrOK then failed err aval data c
                            else map_option (\<lambda>(c, b). (min (min err2 results_err) free_err, acceptval, aval, data,
                                     clear_state BWLStateTest c, b))
                                   (BWLTestSessionFree env t acceptval c b))"

section \<open>The client\<close>

text \<open>
  A call of the client that sends a request and waits for the answer: \<open>peer\<close> is what the connection
  brings in between, in answer to what was sent.
\<close>

type_synonym peer = "BWLControl \<Rightarrow> BWLControl"

definition BWLControlTimeCheck :: "peer \<Rightarrow> BWLControl \<Rightarrow> BWLErrSeverity \<times> BWLTimeStamp option \<times> BWLControl" where
  "BWLControlTimeCheck peer c =
     (let (err, c) = BWLWriteTimeRequest c
      in if err \<noteq> BWLErrOK then (BWLErrFATAL, None, set_state BWLStateInvalid c)
         else let (err, ts, c) = BWLReadTimeResponse (peer c) no_time
              in if err \<noteq> BWLErrOK then (BWLErrFATAL, None, set_state BWLStateInvalid c) else (BWLErrOK, ts, c))"

text \<open>
  The request and the answer: whether it was accepted, the error when not, the answer and the session.
  \<open>None\<close> for the error leaves it as it was.
\<close>

definition BWLClientRequestTestReadResponse ::
  "endian \<Rightarrow> BWLContext \<Rightarrow> peer \<Rightarrow> BWLControl \<Rightarrow> BWLTestSession \<Rightarrow>
   bool \<times> BWLErrSeverity option \<times> BWLAcceptType option \<times> BWLTestSession \<times> BWLControl" where
  "BWLClientRequestTestReadResponse e ctx peer c t =
     (let (rc, c) = BWLWriteTestRequest e ctx c t
      in if rc < BWLErrOK then (False, Some rc, None, t, c)
         else let (rc, r, c) = BWLReadTestAccept (peer c) t
              in case r of
                   Some (acceptval, t) \<Rightarrow>
                     if rc < BWLErrOK then (False, Some rc, Some acceptval, t, c)
                     else if acceptval = BWL_CNTRL_ACCEPT then (True, None, Some acceptval, t, c)
                     else (False, Some BWLErrOK, Some acceptval, t, c)
                 | None \<Rightarrow> (False, Some rc, None, t, c))"

text \<open>
  The choice of the addresses: the first pair of one family, IPv6 before IPv4, with the same socket type
  and both or neither on the loopback. The IPv4 comparison is of the address as stored with the constant
  in host order.
\<close>

definition loopback6 :: "u8 list \<Rightarrow> bool" where
  "loopback6 a \<longleftrightarrow> a = replicate 15 0 @ [1]"

definition loopback4 :: "endian \<Rightarrow> u8 list \<Rightarrow> bool" where
  "loopback4 e a \<longleftrightarrow> host_nat e a = 0x7f000001"

fun pair6 :: "sockaddr \<times> nat \<Rightarrow> sockaddr \<times> nat \<Rightarrow> bool" where
  "pair6 (AF_INET6 r, rt) (AF_INET6 s, st) = (rt = st \<and> loopback6 s = loopback6 r)"
| "pair6 _ _ = False"

fun pair4 :: "endian \<Rightarrow> sockaddr \<times> nat \<Rightarrow> sockaddr \<times> nat \<Rightarrow> bool" where
  "pair4 e (AF_INET r, rt) (AF_INET s, st) = (rt = st \<and> loopback4 e s = loopback4 e r)"
| "pair4 e _ _ = False"

fun first_pair :: "('a \<Rightarrow> 'b \<Rightarrow> bool) \<Rightarrow> 'a list \<Rightarrow> 'b list \<Rightarrow> ('a \<times> 'b) option" where
  "first_pair P [] ys = None"
| "first_pair P (x # xs) ys = (case find (P x) ys of Some y \<Rightarrow> Some (x, y) | None \<Rightarrow> first_pair P xs ys)"

definition choose_addrs ::
  "endian \<Rightarrow> bool \<Rightarrow> bool \<Rightarrow> (sockaddr \<times> nat) list \<Rightarrow> (sockaddr \<times> nat) list \<Rightarrow> (sockaddr \<times> sockaddr) option" where
  "choose_addrs e ipv4only ipv6only rai sai =
     (let six = (if ipv4only then None else first_pair pair6 rai sai);
          four = (if ipv6only then None else first_pair (pair4 e) rai sai)
      in map_option (\<lambda>((r, _), (s, _)). (r, s)) (case six of Some x \<Rightarrow> Some x | None \<Rightarrow> four))"

record client_env =
  ce_order :: endian
  ce_ctx :: BWLContext
  ce_peer :: peer
  ce_ipv4only :: bool
  ce_ipv6only :: bool
  ce_server_ai :: "(sockaddr \<times> nat) list option"
  ce_client_ai :: "(sockaddr \<times> nat) list option"
  ce_alloc :: bool

record request_result =
  rr_ok :: bool
  rr_err :: BWLErrSeverity
  rr_accept :: BWLAcceptType
  rr_time :: BWLNum64
  rr_port :: u16
  rr_sid :: "u8 list"

text \<open>The new session of a request, or the error.\<close>

definition new_session ::
  "client_env \<Rightarrow> bool \<Rightarrow> BWLTestSpec \<Rightarrow> u16 \<Rightarrow> BWLErrSeverity + BWLTestSession" where
  "new_session ce is_client spec port = (case (ce_server_ai ce, ce_client_ai ce) of
       (Some rai, Some sai) \<Rightarrow>
         (case choose_addrs (ce_order ce) (ce_ipv4only ce) (ce_ipv6only ce) rai sai of None \<Rightarrow> Inl BWLErrWARNING
          | Some (r, s) \<Rightarrow> (case BWLTestSessionAlloc (ce_alloc ce) is_client s r port spec of None \<Rightarrow> Inl BWLErrOK | Some t \<Rightarrow> Inr t))
     | _ \<Rightarrow> Inl BWLErrOK)"

text \<open>The request of a session, new or existing, and the label \<open>cancel\<close>.\<close>

definition request_session ::
  "client_env \<Rightarrow> u16 \<Rightarrow> u8 list \<Rightarrow> BWLTestSession \<Rightarrow> BWLControl \<Rightarrow> request_result \<times> BWLControl" where
  "request_session ce port s t c =
     (let (port, t) = (if conf_server t then (0, t) else (port, t\<lparr>sid := s\<rparr>));
          (ok, err, acc, t, c) = BWLClientRequestTestReadResponse (ce_order ce) (ce_ctx ce) (ce_peer ce) c t;
          res = \<lparr>rr_ok = ok, rr_err = (case err of None \<Rightarrow> BWLErrOK | Some e \<Rightarrow> e),
                 rr_accept = (case acc of None \<Rightarrow> BWL_CNTRL_FAILURE | Some a \<Rightarrow> a),
                 rr_time = reserve_time t, rr_port = port, rr_sid = s\<rparr>
      in if ok then (res\<lparr>rr_port := tool_port t, rr_sid := if conf_server t then sid t else s\<rparr>, c\<lparr>tests := Some t\<rparr>)
         else (res, c\<lparr>tests := None\<rparr>))"

definition cancel_session ::
  "client_env \<Rightarrow> u16 \<Rightarrow> u8 list \<Rightarrow> BWLTestSession \<Rightarrow> BWLControl \<Rightarrow> request_result \<times> BWLControl" where
  "cancel_session ce port s t c =
     (let res = \<lparr>rr_ok = True, rr_err = BWLErrOK, rr_accept = BWL_CNTRL_FAILURE, rr_time = 0, rr_port = port, rr_sid = s\<rparr>;
          (rc, c) = BWLWriteTestRequest (ce_order ce) (ce_ctx ce) c t
      in if rc < BWLErrOK then (res, c\<lparr>tests := None\<rparr>)
         else let (rc, r, c) = BWLReadTestAccept (ce_peer ce c) t
              in case r of None \<Rightarrow> (res, c\<lparr>tests := None\<rparr>)
                 | Some (acceptval, t) \<Rightarrow>
                     (res\<lparr>rr_accept := acceptval\<rparr>,
                      (if acceptval \<noteq> BWL_CNTRL_REJECT then set_state BWLStateInvalid c else c)\<lparr>tests := None\<rparr>))"

definition BWLSessionRequest ::
  "client_env \<Rightarrow> BWLControl \<Rightarrow> bool \<Rightarrow> BWLTestSpec \<Rightarrow> u16 \<Rightarrow> u8 list \<Rightarrow> request_result \<times> BWLControl" where
  "BWLSessionRequest ce c is_client spec port s =
     (let failed = (\<lambda>err. \<lparr>rr_ok = False, rr_err = err, rr_accept = BWL_CNTRL_FAILURE, rr_time = 0, rr_port = port, rr_sid = s\<rparr>)
      in if \<not> BWLStateIs BWLStateRequest c then (failed BWLErrFATAL, c)
         else case tests c of
             Some t \<Rightarrow>
               if s \<noteq> sid t then (failed BWLErrOK, c)
               else let t = t\<lparr>test_spec := (test_spec t)\<lparr>req_time := req_time spec, latest_time := latest_time spec\<rparr>\<rparr>
                    in if tstamp (req_time spec) = 0 then cancel_session ce port s t c else request_session ce port s t c
           | None \<Rightarrow>
               (case new_session ce is_client spec port of Inl err \<Rightarrow> (failed err, c)
                | Inr t \<Rightarrow> request_session ce port s t c))"

text \<open>The data port is read and, for a receiver, replaced.\<close>

definition BWLStartSession :: "peer \<Rightarrow> BWLControl \<Rightarrow> u16 \<Rightarrow> BWLErrSeverity \<times> u16 \<times> BWLControl" where
  "BWLStartSession peer c dataport =
     (let (rc, c) = BWLWriteStartSession c dataport
      in if rc < BWLErrOK then (rc, dataport, set_state BWLStateInvalid c)
         else let (rc, r, c) = BWLReadStartAck (peer c)
              in case r of
                   Some (port, acceptval) \<Rightarrow>
                     (let dataport = (case port of None \<Rightarrow> dataport | Some p \<Rightarrow> p)
                      in if rc < BWLErrOK \<or> acceptval \<noteq> BWL_CNTRL_ACCEPT then (BWLErrFATAL, dataport, set_state BWLStateInvalid c)
                         else (BWLErrOK, dataport, c))
                 | None \<Rightarrow> (BWLErrFATAL, dataport, set_state BWLStateInvalid c))"

definition BWLEndSession ::
  "peer \<Rightarrow> BWLControl \<Rightarrow> BWLAcceptType \<Rightarrow> bool option \<Rightarrow> BWLErrSeverity \<times> BWLAcceptType \<times> u8 list \<times> BWLControl" where
  "BWLEndSession peer c acceptval fp =
     (let (rc, c) = BWLWriteStopSession c acceptval None
      in if rc < BWLErrOK then (rc, BWL_CNTRL_FAILURE, [], set_state BWLStateInvalid c)
         else let (msgtype, c) = BWLReadRequestType (peer c)
              in if msgtype \<noteq> BWLReqStopSession then (BWLErrFATAL, acceptval, [], set_state BWLStateInvalid c)
                 else let (rc, (aval, data), c) = BWLReadStopSession c fp;
                          acceptval = (case aval of None \<Rightarrow> acceptval | Some a \<Rightarrow> a)
                      in if rc < BWLErrOK then (rc, acceptval, data, set_state BWLStateInvalid c)
                         else (BWLErrOK, acceptval, data, c\<lparr>tests := None\<rparr>))"

section \<open>The two ends agree on a granted session\<close>

text \<open>The turn of the server in a session request: the bytes of the client arrive and the request is served.\<close>

definition serve_test :: "server_env \<Rightarrow> broker \<Rightarrow> BWLControl \<Rightarrow> BWLControl \<Rightarrow> (BWLErrSeverity \<times> BWLControl \<times> broker) option" where
  "serve_test se b s c = (case BWLReadRequestType (arrive c [] s) of (BWLReqTest, s) \<Rightarrow> BWLProcessTestRequest se s b | _ \<Rightarrow> None)"

lemma policy_keeps_session:
  assumes "BWLDCheckTestPolicy env ns node t b = Some ((ok, err, t'), b')"
  shows "sid t' = sid t" "conf_server t' = conf_server t" "conf_client t' = conf_client t"
    "conf_client t \<Longrightarrow> tool_port t' = tool_port t"
  using assms
  by (auto simp: BWLDCheckTestPolicy_def reserve_test_def refuse_test_def Let_def split: option.splits if_splits)

lemma setup_keeps_session:
  assumes "setup_request se False t = Inr u" "length (sid t) = 16" "\<forall>r. se_rand se = Some r \<longrightarrow> length r = 4"
    and "\<forall>a. sid_address (server (test_spec t)) = Some a \<longrightarrow> length a = 4"
  shows "conf_server u = conf_server t" "conf_client u = conf_client t" "tool_port u = tool_port t" "length (sid u) = 16"
    "\<not> conf_server t \<Longrightarrow> sid u = sid t"
  using assms
  by (auto simp: setup_request_def BWLCreateSID_def Let_def split: option.splits if_splits prod.splits)

lemma sid_address_length: "same_family a b \<Longrightarrow> sid_address b = Some x \<Longrightarrow> length x = 4"
  by (cases "(a, b)" rule: same_family.cases) (auto simp: slice_def)

text \<open>The two ends of a connection between requests, at the current version of the protocol.\<close>

definition ready_ends :: "BWLControl \<Rightarrow> BWLControl \<Rightarrow> bool" where
  "ready_ends c s \<longleftrightarrow> peers c s \<and> sock_out c = [] \<and> sock_out s = [] \<and> may_request c \<and> awaits_request s \<and>
     \<not> BWLStateIs BWLStateTest s \<and> \<not> BWLStateIs BWLStateTestAccept s \<and> protocol_version s = protocol_version c \<and>
     BWL_MODE_PROTOCOL_MSS_VERSION \<le> protocol_version c \<and> tests c = None \<and> tests s = None"

text \<open>A request the server can read, and its decision to grant it.\<close>

definition sendable :: "BWLContext \<Rightarrow> BWLContext \<Rightarrow> request_params \<Rightarrow> BWLTestSession \<Rightarrow> bool" where
  "sendable ctx ctx' k t \<longleftrightarrow> wf_request t \<and> knows_tool ctx (tool_id (test_spec t)) k \<and> knows_tool ctx' (tool_id (test_spec t)) k \<and>
     tool_id (test_spec t) AND (tool_id (test_spec t) - 1) = 0"

definition granted :: "server_env \<Rightarrow> broker \<Rightarrow> BWLTestSession \<Rightarrow> BWLTestSession \<Rightarrow> broker \<Rightarrow> bool" where
  "granted se b t u b' \<longleftrightarrow> (\<exists>t' err. setup_request se False t = Inr t' \<and>
     BWLDCheckTestPolicy (se_policy se) (se_nodes se) (se_node se) (t'\<lparr>fuzz := request_fuzz t'\<rparr>) b = Some ((True, err, u), b') \<and>
     BWLToolValidateTest (se_ctx se) (tool_id (test_spec u)) (test_spec u))"

lemma granted_session:
  assumes "granted se b (requested k t) u b'" "wf_request t" "\<forall>r. se_rand se = Some r \<longrightarrow> length r = 4"
  shows "length (sid u) = 16" "conf_server u = conf_server t" "conf_client u = conf_client t"
    "conf_client t \<Longrightarrow> tool_port u = tool_port t" "conf_client t \<Longrightarrow> sid u = sid t"
proof -
  obtain t' err where t': "setup_request se False (requested k t) = Inr t'"
    and p: "BWLDCheckTestPolicy (se_policy se) (se_nodes se) (se_node se) (t'\<lparr>fuzz := request_fuzz t'\<rparr>) b = Some ((True, err, u), b')"
    using assms(1) by (auto simp: granted_def)
  have wf: "length (sid (requested k t)) = 16" "\<forall>a. sid_address (server (test_spec (requested k t))) = Some a \<longrightarrow> length a = 4"
    "conf_client t \<noteq> conf_server t"
    using assms(2) sid_address_length by (auto simp: wf_request_def requested_def)
  note s = setup_keeps_session [OF t' wf(1) assms(3) wf(2)] and q = policy_keeps_session [OF p]
  show "length (sid u) = 16" "conf_server u = conf_server t" "conf_client u = conf_client t"
    "conf_client t \<Longrightarrow> tool_port u = tool_port t" "conf_client t \<Longrightarrow> sid u = sid t"
    using s q wf(3) by (auto simp: requested_def)
qed

lemma granted_request_accepted:
  assumes "BWLReadTestRequest (se_ctx se) True s1 None = (BWLErrOK, Some BWL_CNTRL_ACCEPT, Some r, s2)" "tests s1 = None"
    and "granted se b r u b'" "BWLWriteTestAccept s2 BWL_CNTRL_ACCEPT u = (BWLErrOK, s3)" "se_alloc se"
  shows "BWLProcessTestRequest se s1 b = Some (BWLErrOK, s3\<lparr>tests := Some u\<rparr>, b')"
  using assms
  by (auto simp: BWLProcessTestRequest_def granted_def decide_request_def Let_def)

lemma request_granted:
  assumes "ready_ends c s" "sendable ctx (se_ctx se) k t" "se_alloc se" "\<forall>r. se_rand se = Some r \<longrightarrow> length r = 4"
    and "granted se b (requested k t) u b'"
  obtains c1 c2 s' where "BWLWriteTestRequest LE ctx c t = (BWLErrOK, c1)"
    "serve_test se b s c1 = Some (BWLErrOK, s', b')" "tests s' = Some u" "cstate s' = cstate s"
    "BWLReadTestAccept (arrive s' [] c1) t = (BWLErrOK, Some (BWL_CNTRL_ACCEPT, accepted_session u t), c2)"
    "cstate c2 = cstate c" "sock_in c2 = []" "peers c2 s'"
proof -
  note r = assms(1) [unfolded ready_ends_def] and q = assms(2) [unfolded sendable_def]
  have l: "linked c s" "linked s c" using r by (simp_all add: peers_def)
  have e: "sock_out c = []" "may_request c" "awaits_request s" "\<not> BWLStateIs BWLStateTest s" "protocol_version s = protocol_version c"
    "BWL_MODE_PROTOCOL_MSS_VERSION \<le> protocol_version c" "tests s = None" "sock_out s = []" using r by simp_all
  have q: "wf_request t" "knows_tool ctx (tool_id (test_spec t)) k" "knows_tool (se_ctx se) (tool_id (test_spec t)) k"
    "tool_id (test_spec t) AND (tool_id (test_spec t) - 1) = 0" using q by simp_all
  obtain c1 s1 s2 where w: "BWLWriteTestRequest LE ctx c t = (BWLErrOK, c1)"
    and rd: "BWLReadRequestType (arrive c1 [] s) = (BWLReqTest, s1)"
      "BWLReadTestRequest (se_ctx se) True s1 None = (BWLErrOK, Some BWL_CNTRL_ACCEPT, Some (requested k t), s2)"
    and st: "cstate c1 = cstate c OR BWLStateTestAccept" "cstate s2 = cstate s OR BWLStateTestAccept"
    and k: "linked c1 s2" "linked s2 c1" "tests s1 = None" "sock_out s2 = []"
    using test_request_delivered [OF l(1) e(1-4) refl e(5,6) q, of "[]"] l(2) e(7,8) by metis
  note g = granted_session [OF assms(5) _ assms(4)]
  note wf = q(1)
  have acc: "BWLStateIs BWLStateTestAccept s2" "BWLStateIs BWLStateTestAccept c1" "valid_accept BWL_CNTRL_ACCEPT"
    using st by (simp_all add: bits valid_accept_def)
  obtain s3 c2 where a: "BWLWriteTestAccept s2 BWL_CNTRL_ACCEPT u = (BWLErrOK, s3)"
      "BWLReadTestAccept (arrive s3 [] c1) t = (BWLErrOK, Some (BWL_CNTRL_ACCEPT, accepted_session u t), c2)"
      "cstate s3 = cstate s2 AND NOT BWLStateTestAccept" "cstate c2 = cstate c1 AND NOT BWLStateTestAccept"
      "sock_in c2 = []" "linked s3 c2" "linked c2 s3"
    using test_accept_delivered [OF k(2,4) acc g(1) [OF wf], of "[]" t] k(1) by metis
  let ?s = "s3\<lparr>tests := Some u\<rparr>"
  have "serve_test se b s c1 = Some (BWLErrOK, ?s, b')"
    using granted_request_accepted [OF rd(2) k(3) assms(5) a(1) assms(3)] rd(1) by (simp add: serve_test_def)
  moreover have "cstate ?s = cstate s" "cstate c2 = cstate c"
    using r unfolding a(3,4) st by (auto intro!: bit_word_eqI simp: awaits_request_def may_request_def bits a(3) st)
  moreover have "arrive ?s [] c1 = arrive s3 [] c1" by (simp add: arrive_def)
  ultimately show ?thesis using w a by (intro that [of c1 ?s c2]) (simp_all add: peers_def)
qed

text \<open>
  C2. A session request of the client, with the server process of the daemon at the other end: when the
  server can read the request and its policy grants it, the client is told that it was accepted, with the
  time and the port the scheduler reserved, and both ends store the session under the same identifier,
  port and time. Both are back in the state they started from and in step for the next request.
\<close>

theorem session_agreed:
  assumes "ready_ends c s" "new_session ce is_client spec port = Inr t0"
    and "t = (if conf_server t0 then t0 else t0\<lparr>sid := s0\<rparr>)" "sendable (ce_ctx ce) (se_ctx se) k t"
    and "ce_order ce = LE" "se_alloc se" "\<forall>r. se_rand se = Some r \<longrightarrow> length r = 4"
    and "granted se b (requested k t) u b'"
    and "ce_peer ce = (\<lambda>c. case serve_test se b s c of Some (_, s', _) \<Rightarrow> arrive s' [] c | None \<Rightarrow> c)"
  shows "\<exists>c1 s' c' v. BWLWriteTestRequest LE (ce_ctx ce) c t = (BWLErrOK, c1) \<and>
    serve_test se b s c1 = Some (BWLErrOK, s', b') \<and> tests s' = Some u \<and>
    BWLSessionRequest ce c is_client spec port s0 =
      (\<lparr>rr_ok = True, rr_err = BWLErrOK, rr_accept = BWL_CNTRL_ACCEPT, rr_time = reserve_time u, rr_port = tool_port u,
        rr_sid = sid u\<rparr>, c') \<and>
    tests c' = Some v \<and> sid v = sid u \<and> tool_port v = tool_port u \<and> reserve_time v = reserve_time u \<and>
    cstate c' = cstate c \<and> cstate s' = cstate s \<and> peers c' s'"
proof -
  have wf: "wf_request t" using assms(4) by (simp add: sendable_def)
  have c: "BWLStateIs BWLStateRequest c" "tests c = None" using assms(1) by (simp_all add: ready_ends_def may_request_def)
  note g = granted_session [OF assms(8) wf assms(7)]
  obtain c1 c2 s' where x: "BWLWriteTestRequest LE (ce_ctx ce) c t = (BWLErrOK, c1)"
    "serve_test se b s c1 = Some (BWLErrOK, s', b')" "tests s' = Some u" "cstate s' = cstate s"
    "BWLReadTestAccept (arrive s' [] c1) t = (BWLErrOK, Some (BWL_CNTRL_ACCEPT, accepted_session u t), c2)"
    "cstate c2 = cstate c" "peers c2 s'"
    by (rule request_granted [OF assms(1,4,6,7,8)]) (rule that; assumption)
  let ?v = "accepted_session u t"
  have peer: "ce_peer ce c1 = arrive s' [] c1" by (simp add: assms(9) x(2))
  have conf: "conf_client t \<noteq> conf_server t" "conf_server t = conf_server t0" using wf assms(3) by (simp_all add: wf_request_def)
  have v: "sid ?v = sid u" "tool_port ?v = tool_port u" "reserve_time ?v = reserve_time u" "conf_server ?v = conf_server t"
    using g conf by (auto simp: accepted_session_def Let_def)
  have s0: "\<not> conf_server t \<Longrightarrow> sid u = s0" using g(5) conf assms(3) by simp
  have "BWLSessionRequest ce c is_client spec port s0 =
      (\<lparr>rr_ok = True, rr_err = BWLErrOK, rr_accept = BWL_CNTRL_ACCEPT, rr_time = reserve_time u, rr_port = tool_port u,
        rr_sid = sid u\<rparr>, c2\<lparr>tests := Some ?v\<rparr>)"
    using c assms(2,5) x(1,5) peer v s0 conf(2)
    by (cases "conf_server t0") (simp_all add: BWLSessionRequest_def request_session_def BWLClientRequestTestReadResponse_def assms(3) Let_def)
  then show ?thesis using x v by (auto simp: peers_def)
qed

definition sample_server :: server_env where
  "sample_server = \<lparr>se_policy = sample_env, se_ctx = Timeslots.sample_ctx, se_nodes = sample_tree, se_node = Some 1,
     se_now = Some (sample_time 200), se_rand = None, se_alloc = True\<rparr>"

definition sample_control :: BWLControl where
  "sample_control = sample_peer BWL_MODE_PROTOCOL_MSS_VERSION"

definition sample_client :: client_env where
  "sample_client = \<lparr>ce_order = LE, ce_ctx = Timeslots.sample_ctx,
     ce_peer = (\<lambda>c. case serve_test sample_server sample_parent sample_control c of Some (_, s', _) \<Rightarrow> arrive s' [] c | None \<Rightarrow> c),
     ce_ipv4only = False, ce_ipv6only = False, ce_server_ai = Some [(AF_INET [10, 0, 0, 2], 1)],
     ce_client_ai = Some [(AF_INET [10, 0, 0, 1], 1)], ce_alloc = True\<rparr>"

definition sample_asked :: BWLTestSession where
  "sample_asked = sample_test\<lparr>sid := replicate 16 0, localtime := no_time\<rparr>"

lemma sample_new: "new_session sample_client True (test_spec sample_test) 0 = Inr sample_asked"
  by (simp add: new_session_def sample_client_def choose_addrs_def loopback4_def host_nat_def BWLTestSessionAlloc_def
      sample_asked_def sample_test_def sample_session_def)

lemma sample_sendable: "sendable Timeslots.sample_ctx Timeslots.sample_ctx PingParams sample_test"
  by (simp add: sendable_def wf_request_def knows_tool_def sample_test_def sample_session_def valid_timestamp_def sample_time_def
      Timeslots.sample_ctx_def BWLToolPing_def BWL_TOOL_PING_def)

lemma sample_requested: "requested PingParams sample_test = sample_test"
  by (simp add: requested_def sample_test_def sample_session_def common_spec_def flag_def zero_spec_def)

lemma session_granted_here: "\<exists>u b'. granted sample_server sample_parent (requested PingParams sample_test) u b'"
proof -
  let ?t = "sample_test\<lparr>localtime := sample_time 200, reserve_time := 0\<rparr>"
  have "setup_request sample_server False sample_test = Inr ?t"
    by (simp add: setup_request_def sample_server_def sample_test_def sample_session_def BWLToolGetDefinition_def
        Timeslots.sample_ctx_def)
  moreover obtain u b' where "BWLDCheckTestPolicy sample_env sample_tree (Some 1) (fuzzy_test (sample_time 200) (request_fuzz ?t)) sample_parent =
      Some ((True, BWLErrOK, u), b')" "tool_id (test_spec u) = BWL_TOOL_PING"
    using fuzzy_decision [where now = "sample_time 200" and f = "request_fuzz ?t"] by blast
  moreover have "BWLToolValidateTest (se_ctx sample_server) BWL_TOOL_PING spec" for spec
    by (simp add: BWLToolValidateTest_def sample_server_def Timeslots.sample_ctx_def BWLToolPing_def BWLToolGenericValidateTest_def)
  ultimately show ?thesis
    unfolding sample_requested granted_def by (auto simp: sample_server_def)
qed

lemma sample_ready_ends: "ready_ends sample_control sample_control"
  by (simp add: ready_ends_def sample_control_def peers_def sample_peer_linked sample_simps) (simp add: sample_peer_def)

theorem session_agreed_witness:
  "\<exists>(u :: BWLTestSession) c' v. BWLSessionRequest sample_client sample_control True (test_spec sample_test) 0 (replicate 16 7) =
      (\<lparr>rr_ok = True, rr_err = BWLErrOK, rr_accept = BWL_CNTRL_ACCEPT, rr_time = reserve_time u, rr_port = tool_port u,
        rr_sid = sid u\<rparr>, c') \<and> tests c' = Some v \<and> sid v = sid u \<and> cstate c' = cstate sample_control"
proof -
  obtain u b' where g: "granted sample_server sample_parent (requested PingParams sample_test) u b'" using session_granted_here by blast
  have t: "sample_test = (if conf_server sample_asked then sample_asked else sample_asked\<lparr>sid := replicate 16 7\<rparr>)"
    by (simp add: sample_asked_def sample_test_def sample_session_def)
  have s: "sendable (ce_ctx sample_client) (se_ctx sample_server) PingParams sample_test" "ce_order sample_client = LE"
      "se_alloc sample_server" "\<forall>r. se_rand sample_server = Some r \<longrightarrow> length r = 4"
    using sample_sendable by (simp_all add: sample_client_def sample_server_def)
  have p: "ce_peer sample_client = (\<lambda>c. case serve_test sample_server sample_parent sample_control c of Some (_, s', _) \<Rightarrow> arrive s' [] c | None \<Rightarrow> c)"
    by (simp add: sample_client_def)
  show ?thesis using session_agreed [OF sample_ready_ends sample_new t s g p] by blast
qed

end
