(* ===== verification/Child.thy ===== *)
theory Child
  imports Session
begin

unbundle bit_operations_syntax

text \<open>
  The life of a child process of the daemon after it has accepted a control connection: the loop over
  the requests of the client (the end of \<open>NewConnection\<close> in \<open>bwctld/bwctld.c\<close>), \<open>BWLStopSessionWait\<close> of
  \<open>bwlib/sapi.c\<close> and \<open>BWLControlClose\<close> of \<open>bwlib/context.c\<close>.

  Signals, timers, \<open>select\<close>, the clock and the endpoint are parameters of a turn of the loop. \<open>None\<close>
  means that the turn does not end: the parent does not come back, or the test goes on without any
  further event.

  Shown: the child and its parent agree on the reservation at every turn of the loop, and nothing is
  left of it when the child closes the connection (\<open>reservation_follows_session\<close>).
\<close>

section \<open>Waiting for the end of a test\<close>

text \<open>The errors of \<open>_BWLEndpointStop\<close>, of the hook for the results and of freeing the session.\<close>

record stop_env =
  sp_stop_err :: BWLErrSeverity
  sp_results_err :: BWLErrSeverity
  sp_free_err :: BWLErrSeverity

text \<open>
  What a call of \<open>select\<close> ends with: an interruption comes with the interrupt flag and the status of
  the endpoint after it, \<open>SelectOther\<close> is a descriptor that is not ready after all.
\<close>

datatype select_result =
  SelectError | SelectIntr bool "BWLAcceptType option" | SelectTimeout | SelectOther | SelectReady

type_synonym wait_event = "BWLTimeStamp option \<times> (timeval option \<Rightarrow> select_result)"

type_synonym wait_result = "int \<times> BWLErrSeverity \<times> BWLAcceptType \<times> u8 list \<times> BWLControl \<times> broker"

definition stop_now :: "test_env \<Rightarrow> stop_env \<Rightarrow> BWLAcceptType \<Rightarrow> BWLControl \<Rightarrow> broker \<Rightarrow> wait_result option" where
  "stop_now env sp acceptval c b =
     map_option (\<lambda>(err, acceptval, _, data, c, b). (0, err, acceptval, data, c, b))
       (BWLStopSession env (sp_stop_err sp) (sp_results_err sp) (sp_free_err sp) acceptval c b)"

text \<open>The peer is the first to stop.\<close>

definition stop_by_peer :: "test_env \<Rightarrow> stop_env \<Rightarrow> BWLControl \<Rightarrow> broker \<Rightarrow> wait_result option" where
  "stop_by_peer env sp c b =
     (let (msgtype, c) = BWLReadRequestType c
      in if msgtype \<noteq> BWLReqStopSession then Some (-1, BWLErrFATAL, BWL_CNTRL_ACCEPT, [], set_state BWLStateInvalid c, b)
         else let t = the (tests c);
                  (err, (aval, data), c) = BWLReadStopSession c (remotefp t);
                  acceptval = (case aval of None \<Rightarrow> BWL_CNTRL_ACCEPT | Some a \<Rightarrow> a)
              in if err \<noteq> BWLErrOK then Some (-1, err, acceptval, data, set_state BWLStateInvalid c, b)
                 else let (acceptval, fp) = (if sp_stop_err sp < BWLErrWARNING then (BWL_CNTRL_FAILURE, None) else (acceptval, localfp t));
                          (err2, c) = BWLWriteStopSession c acceptval fp;
                          c = (if err2 \<noteq> BWLErrOK then set_state BWLStateInvalid c else c);
                          err = min (min (min err (sp_stop_err sp)) err2) (sp_results_err sp)
                      in map_option (\<lambda>(c, b). (0, min err (sp_free_err sp), acceptval, data, clear_state BWLStateTest c, b))
                           (BWLTestSessionFree env t acceptval c b))"

definition wait_time :: "BWLNum64 option \<Rightarrow> BWLTimeStamp option \<Rightarrow> timeval option" where
  "wait_time wake now = (case (wake, now) of
       (Some w, Some ts) \<Rightarrow> Some (if BWLNum64Cmp (tstamp ts) w < 0 then BWLNum64ToTimeval (BWLNum64Sub w (tstamp ts))
                               else \<lparr>tvl_sec = 0, tvl_usec = 0\<rparr>)
     | _ \<Rightarrow> None)"

text \<open>The label \<open>AGAIN\<close>: one event for every call of \<open>select\<close>.\<close>

fun wait_again ::
  "test_env \<Rightarrow> stop_env \<Rightarrow> BWLNum64 option \<Rightarrow> wait_event list \<Rightarrow> BWLControl \<Rightarrow> broker \<Rightarrow> wait_result option" where
  "wait_again env sp wake [] c b = None"
| "wait_again env sp wake ((now, sel) # es) c b =
     (if wake \<noteq> None \<and> now = None then Some (-1, BWLErrOK, BWL_CNTRL_ACCEPT, [], c, b)
      else case sel (wait_time wake now) of
          SelectError \<Rightarrow> Some (-1, BWLErrFATAL, BWL_CNTRL_ACCEPT, [], c, b)
        | SelectIntr intr status \<Rightarrow>
            if wake \<noteq> None \<or> intr then Some (2, BWLErrOK, BWL_CNTRL_ACCEPT, [], c, b)
            else let (active, laval) = BWLSessionsActive status c
                 in if active then wait_again env sp wake es c b else stop_now env sp laval c b
        | SelectTimeout \<Rightarrow> Some (1, BWLErrOK, BWL_CNTRL_ACCEPT, [], c, b)
        | SelectOther \<Rightarrow> Some (-1, BWLErrFATAL, BWL_CNTRL_ACCEPT, [], set_state BWLStateInvalid c, b)
        | SelectReady \<Rightarrow> stop_by_peer env sp c b)"

definition BWLStopSessionWait ::
  "test_env \<Rightarrow> stop_env \<Rightarrow> BWLNum64 option \<Rightarrow> BWLAcceptType option \<Rightarrow> wait_event list \<Rightarrow> BWLControl \<Rightarrow> broker \<Rightarrow>
   wait_result option" where
  "BWLStopSessionWait env sp wake status es c b =
     (let (active, laval) = BWLSessionsActive status c
      in if active then wait_again env sp wake es c b else stop_now env sp laval c b)"

section \<open>The requests of a connection\<close>

text \<open>A round of the loop that waits for a test to end, with the exit flag after it.\<close>

record wait_round =
  wr_active :: "BWLAcceptType option"
  wr_inner :: "BWLAcceptType option"
  wr_stop :: stop_env
  wr_events :: "wait_event list"
  wr_exit :: bool

datatype wait_end = Gone | Stopped BWLErrSeverity | Complete

fun wait_sessions :: "test_env \<Rightarrow> wait_round list \<Rightarrow> BWLControl \<Rightarrow> broker \<Rightarrow> (wait_end \<times> BWLControl \<times> broker) option" where
  "wait_sessions env [] c b = None"
| "wait_sessions env (r # rs) c b =
     (if \<not> fst (BWLSessionsActive (wr_active r) c) then Some (Complete, c, b)
      else case BWLStopSessionWait env (wr_stop r) None (wr_inner r) (wr_events r) c b of None \<Rightarrow> None
        | Some (wstate, err, _, _, c, b) \<Rightarrow>
            if wr_exit r \<or> wstate < 0 then Some (Gone, c, b)
            else if wstate = 0 then Some (Stopped err, c, b)
            else wait_sessions env rs c b)"

text \<open>The three timers of a turn are whether \<open>setitimer\<close> works.\<close>

record request_env =
  rq_server :: server_env
  rq_timer :: bool
  rq_endpoint :: "BWLTestSession \<Rightarrow> u16 \<Rightarrow> BWLErrSeverity + u16"
  rq_timer_off :: bool
  rq_exit :: bool
  rq_rounds :: "wait_round list"
  rq_timer_die :: bool
  rq_stop :: stop_env

definition serve_start :: "request_env \<Rightarrow> BWLControl \<Rightarrow> broker \<Rightarrow> (bool \<times> BWLControl \<times> broker) option" where
  "serve_start rq c b =
     (let env = se_policy (rq_server rq); sp = rq_stop rq;
          (rc, c) = BWLProcessStartSession (rq_endpoint rq) c
      in if rc < BWLErrOK then Some (BWLErrWARNING \<le> rc, c, b)
         else if \<not> rq_timer_off rq \<or> rq_exit rq then Some (False, c, b)
         else case wait_sessions env (rq_rounds rq) c b of
             None \<Rightarrow> None
           | Some (Gone, c, b) \<Rightarrow> Some (False, c, b)
           | Some (Stopped rc, c, b) \<Rightarrow> Some (BWLErrWARNING \<le> rc, c, b)
           | Some (Complete, c, b) \<Rightarrow>
               if \<not> rq_timer_die rq then Some (False, c, b)
               else map_option (\<lambda>(rc, _, _, _, c, b). (BWLErrWARNING \<le> rc, c, b))
                 (BWLStopSession env (sp_stop_err sp) (sp_results_err sp) (sp_free_err sp) BWL_CNTRL_ACCEPT c b))"

text \<open>A turn of the loop: whether there is another one, and the type of the last message.\<close>

definition serve_request ::
  "request_env \<Rightarrow> BWLRequestType \<Rightarrow> BWLControl \<Rightarrow> broker \<Rightarrow> (bool \<times> BWLRequestType \<times> BWLControl \<times> broker) option" where
  "serve_request rq last_type c b =
     (if \<not> rq_timer rq then Some (False, last_type, c, b)
      else let (msgtype, c) = BWLReadRequestType c
           in case msgtype of
                BWLReqTest \<Rightarrow> map_option (\<lambda>(rc, c, b). (BWLErrWARNING \<le> rc, msgtype, c, b))
                  (BWLProcessTestRequest (rq_server rq) c b)
              | BWLReqTime \<Rightarrow>
                  (let (rc, c) = BWLProcessTimeRequest (se_now (rq_server rq)) c in Some (BWLErrWARNING \<le> rc, msgtype, c, b))
              | BWLReqStartSession \<Rightarrow> map_option (\<lambda>(go, c, b). (go, msgtype, c, b)) (serve_start rq c b)
              | _ \<Rightarrow> Some (False, msgtype, c, b))"

definition BWLControlClose :: "test_env \<Rightarrow> BWLControl \<Rightarrow> broker \<Rightarrow> (BWLControl \<times> broker) option" where
  "BWLControlClose env c b = (case tests c of None \<Rightarrow> Some (c, b) | Some t \<Rightarrow> BWLTestSessionFree env t BWL_CNTRL_FAILURE c b)"

definition exit_code :: "bool \<Rightarrow> BWLRequestType \<Rightarrow> int" where
  "exit_code ipfd_exit msgtype = (if ipfd_exit then 0 else if msgtype = BWLReqSockClose then 0 else 1)"

section \<open>What the messages leave alone\<close>

named_theorems keeps

definition keeps_sessions :: "BWLControl \<Rightarrow> BWLControl \<Rightarrow> bool" where
  "keeps_sessions c c' \<longleftrightarrow> tests c' = tests c \<and> (128 \<le> length (msg c) \<longrightarrow> 128 \<le> length (msg c'))"

lemma keeps_refl [simp, keeps]: "keeps_sessions c c"
  by (simp add: keeps_sessions_def)

lemma keeps_trans [trans]: "keeps_sessions a b \<Longrightarrow> keeps_sessions b c \<Longrightarrow> keeps_sessions a c"
  by (auto simp: keeps_sessions_def)

lemma keeps_state [simp]:
  "keeps_sessions c (set_state s c') = keeps_sessions c c'" "keeps_sessions c (or_state s c') = keeps_sessions c c'"
  "keeps_sessions c (clear_state s c') = keeps_sessions c c'"
  by (simp_all add: keeps_sessions_def state_upd)

lemma keeps_from [simp]:
  "keeps_sessions (set_state s c) c' = keeps_sessions c c'" "keeps_sessions (or_state s c) c' = keeps_sessions c c'"
  "keeps_sessions (clear_state s c) c' = keeps_sessions c c'"
  by (simp_all add: keeps_sessions_def state_upd)

lemma long_memcpy: "off \<le> 128 \<Longrightarrow> 128 \<le> length buf \<Longrightarrow> 128 \<le> length (memcpy buf off s)"
  by (simp add: memcpy_def)

lemma long_put:
  "128 \<le> length buf \<Longrightarrow> off \<le> 128 \<Longrightarrow> 128 \<le> length (put_net16 buf off p)"
  "128 \<le> length buf \<Longrightarrow> off \<le> 128 \<Longrightarrow> 128 \<le> length (put_net32 buf off w)"
  "128 \<le> length buf \<Longrightarrow> off \<le> 128 \<Longrightarrow> 128 \<le> length (memset0 buf off n)"
  by (simp_all add: put_net16_def put_net32_def memset0_def long_memcpy)

lemma keeps_msg: "(128 \<le> length (msg c) \<Longrightarrow> 128 \<le> length buf) \<Longrightarrow> keeps_sessions c (c\<lparr>msg := buf\<rparr>)"
  by (simp add: keeps_sessions_def)

lemma receive_keeps: "BWLReceiveBlocksIntr c off k = (n, c') \<Longrightarrow> off \<le> 128 \<Longrightarrow> keeps_sessions c c'"
  by (auto simp: BWLReceiveBlocksIntr_def I2Readni_def BWLDecryptBlocks_def keeps_sessions_def Let_def long_memcpy
      split: io_status.splits prod.splits if_splits)

lemma send_keeps:
  "BWLSendBlocksIntr (c\<lparr>msg := buf\<rparr>) k = (n, c') \<Longrightarrow> (128 \<le> length (msg c) \<Longrightarrow> 128 \<le> length buf) \<Longrightarrow> keeps_sessions c c'"
  by (auto simp: BWLSendBlocksIntr_def I2Writeni_def BWLEncryptBlocks_def keeps_sessions_def Let_def long_memcpy
      split: io_status.splits prod.splits if_splits)

lemma request_type_keeps [keeps]: "BWLReadRequestType c = (r, c') \<Longrightarrow> keeps_sessions c c'"
  by (auto simp: BWLReadRequestType_def Let_def split: if_splits prod.splits dest: receive_keeps)

lemma time_request_keeps [keeps]: "BWLReadTimeRequest c = (r, c') \<Longrightarrow> keeps_sessions c c'"
  by (auto simp: BWLReadTimeRequest_def Let_def split: if_splits prod.splits dest: receive_keeps)

lemma start_request_keeps [keeps]: "BWLReadStartSession c = (r, p, c') \<Longrightarrow> keeps_sessions c c'"
  by (auto simp: BWLReadStartSession_def Let_def split: if_splits prod.splits option.splits dest: receive_keeps)

lemma time_response_keeps [keeps]: "BWLWriteTimeResponse c ts = (r, c') \<Longrightarrow> keeps_sessions c c'"
  by (auto simp: BWLWriteTimeResponse_def BWLSendBlocks_def Let_def long_memcpy long_put keeps_msg split: if_splits prod.splits option.splits
      elim!: send_keeps)

lemma test_accept_keeps [keeps]: "BWLWriteTestAccept c a t = (r, c') \<Longrightarrow> keeps_sessions c c'"
  by (auto simp: BWLWriteTestAccept_def Let_def long_memcpy long_put split: if_splits prod.splits elim!: send_keeps)

lemma start_ack_keeps [keeps]: "BWLWriteStartAck c p a = (r, c') \<Longrightarrow> keeps_sessions c c'"
  by (auto simp: BWLWriteStartAck_def Let_def long_memcpy long_put split: if_splits prod.splits option.splits elim!: send_keeps)


lemma send_file_block_keeps: "send_file_block k data c = (ok, c') \<Longrightarrow> keeps_sessions c c'"
  by (auto simp: send_file_block_def Let_def long_memcpy keeps_msg split: if_splits prod.splits elim!: send_keeps)

lemma send_file_keeps: "send_file fsize data c = (r, c') \<Longrightarrow> keeps_sessions c c'"
proof (induction fsize data c arbitrary: r c' rule: send_file.induct)
  case (1 fsize data c)
  show ?case
  proof (cases "16 \<le> fsize")
    case True
    obtain ok c1 where b: "send_file_block 16 data c = (ok, c1)" by fastforce
    have "keeps_sessions c1 c'"
      using "1.prems" "1.IH" [OF True refl, of ok c1] True b
      by (cases ok) (auto simp: send_file.simps [of fsize data c] BWLFailControlSession_def)
    with send_file_block_keeps [OF b] show ?thesis by (rule keeps_trans)
  next
    case False
    obtain ok c1 where b: "(if 0 < fsize then send_file_block fsize data (c\<lparr>msg := memset0 (msg c) 0 16\<rparr>) else (True, c)) = (ok, c1)" by fastforce
    have "keeps_sessions c c1"
      using b keeps_trans [OF keeps_msg send_file_block_keeps, of c "memset0 (msg c) 0 16"] by (auto simp: long_put split: if_splits)
    moreover have "keeps_sessions c1 c'"
      using "1.prems" False b
      by (auto simp: send_file.simps [of fsize data c] BWLFailControlSession_def Let_def long_put split: if_splits prod.splits elim!: send_keeps)
    ultimately show ?thesis by (rule keeps_trans)
  qed
qed

lemma recv_file_block_keeps: "recv_file_block k fp acc c = (ok, acc', c') \<Longrightarrow> keeps_sessions c c'"
  by (auto simp: recv_file_block_def Let_def split: if_splits prod.splits option.splits dest: receive_keeps)

lemma recv_file_keeps: "recv_file fsize fp acc c = (r, acc', c') \<Longrightarrow> keeps_sessions c c'"
proof (induction fsize fp acc c arbitrary: r acc' c' rule: recv_file.induct)
  case (1 fsize fp acc c)
  show ?case
  proof (cases "16 \<le> fsize")
    case True
    obtain ok a1 c1 where b: "recv_file_block 16 fp acc c = (ok, a1, c1)" by (metis prod_cases3)
    have "keeps_sessions c1 c'"
      using "1.prems" "1.IH" [OF True refl, of ok "(a1, c1)" a1 c1] True b
      by (cases ok) (auto simp: recv_file.simps [of fsize fp acc c])
    with recv_file_block_keeps [OF b] show ?thesis by (rule keeps_trans)
  next
    case False
    obtain ok a1 c1 where b: "(if 0 < fsize then recv_file_block fsize fp acc c else (True, acc, c)) = (ok, a1, c1)" by (metis prod_cases3)
    have "keeps_sessions c c1"
      using b by (auto split: if_splits dest: recv_file_block_keeps)
    moreover have "keeps_sessions c1 c'"
      using "1.prems" False b
      by (auto simp: recv_file.simps [of fsize fp acc c] Let_def split: if_splits prod.splits dest: receive_keeps)
    ultimately show ?thesis by (rule keeps_trans)
  qed
qed

lemma stop_written_keeps [keeps]: "BWLWriteStopSession c a fp = (r, c') \<Longrightarrow> keeps_sessions c c'"
  by (auto simp: BWLWriteStopSession_def Let_def long_put split: if_splits prod.splits option.splits
      elim!: send_keeps dest!: send_file_keeps intro: keeps_trans [OF send_keeps])

lemma stop_read_keeps [keeps]: "BWLReadStopSession c fp = (r, x, c') \<Longrightarrow> keeps_sessions c c'"
  by (auto simp: BWLReadStopSession_def Let_def split: if_splits prod.splits
      dest: receive_keeps dest!: recv_file_keeps intro: keeps_trans [OF receive_keeps])

section \<open>The reservation of a child\<close>

fun found :: "search \<Rightarrow> Reservation" where
  "found (Denied r) = r" | "found (Added slots r) = r" | "found (NotAdded r) = r"

lemma find_slot_sid: "r_sid (found (find_slot ctx d l pre p slots res)) = r_sid res"
proof (induction ctx d l pre p slots res rule: find_slot.induct)
  case (2 ctx d l pre p slot rest res0)
  have "r_sid (fixup_end d r) = r_sid r" "r_sid (skip_past d s r) = r_sid r" for r s
    by (simp_all add: fixup_end_def skip_past_def set_start_def)
  then show ?case using 2 by (simp add: Let_def split: sum.splits)
qed simp

lemma place_reservation_sid: "place_reservation ctx d l slots res = (res', r) \<Longrightarrow> r_sid res' = r_sid res"
  using find_slot_sid [of ctx d l "[]" None slots res]
  by (auto simp: place_reservation_def split: if_splits search.splits)

text \<open>The parent holds a reservation after a demand just when it grants it, and it is the one asked for.\<close>

definition holds :: "ChldState \<Rightarrow> u8 list \<Rightarrow> BWLNum64 \<Rightarrow> bool" where
  "holds cs s time \<longleftrightarrow> (\<exists>r. ch_res cs = Some r \<and> r_sid r = s \<and> r_restime r = time)"

lemma demand_search_holds:
  assumes "demand_search ctx slots cs res now rt ft lt dur rtt = (reply, ctx', slots', cs')"
  shows "if reply_ok reply then holds cs' (r_sid res) (reply_restime reply) else ch_res cs' = None"
  using assms
  by (auto simp: demand_search_def DeleteReservation_def holds_def initial_reservation_def Let_def
      split: prod.splits option.splits dest!: place_reservation_sid)

lemma demand_holds:
  assumes "ChldReservationDemand rnd ns now (ctx, slots, cs) q rt = Some (reply, ctx', slots', cs')"
    and "length (q_sid q) = 16" "\<forall>r. ch_res cs = Some r \<longrightarrow> r_sid r = q_sid q"
  shows "if reply_ok reply then holds cs' (q_sid q) (reply_restime reply) else ch_res cs' = None"
  using assms
  by (fastforce simp: ChldReservationDemand_def event_horizon_limit Let_def same_sid_def AllocReservation_def
      split: option.splits if_splits dest!: demand_search_holds)

definition child_of :: "test_env \<Rightarrow> nat \<Rightarrow> broker \<Rightarrow> ChldState \<Rightarrow> bool" where
  "child_of env n b cs \<longleftrightarrow> heap b (te_child env) = Some cs \<and> ch_node cs = Some n"

text \<open>What a decision and the end of a test rely on in the environment of a child.\<close>

definition env_ok :: "test_env \<Rightarrow> bool" where
  "env_ok env \<longleftrightarrow> (\<forall>a. cstr_ok 46 (te_name env a)) \<and> (\<forall>b. heap (te_others env b) (te_child env) = heap b (te_child env))"

lemma ask_resource_child:
  assumes "ask_resource env b mesg lm = Some (ret, b')" "child_of env n b cs" "mesg \<in> {BWLDMESGREQUEST, BWLDMESGRELEASE}"
  shows "child_of env n b' cs"
proof -
  have c: "heap b (te_child env) = Some cs" "ch_node cs = Some n" using assms(2) by (simp_all add: child_of_def)
  have m: "mesg \<in> {BWLDMESGREQUEST, BWLDMESGRELEASE, BWLDMESGCLAIM}" using assms(3) by auto
  show ?thesis
  proof (cases "BWLDResourceDemand (b_nodes b) n mesg lm")
    case (Some x)
    obtain ok ns where "x = (ok, ns)" by fastforce
    with Some have "ask_resource env b mesg lm = Some (if ok then BWLDMESGOK else BWLDMESGDENIED, b\<lparr>b_nodes := ns\<rparr>)"
      using ask_resource_eq [OF c m] by simp
    then show ?thesis using assms(1) c by (auto simp: child_of_def)
  next
    case None
    have "query_ok (mesg, lm)" using m by (simp add: query_ok_def)
    then have "BWLDReadQuery e (query_body e (mesg, lm) @ []) = (Some (mesg, lm), [])" for e
      unfolding BWLDReadQuery_def using query.enc_width query.dec_msg by (intro read_body_codec) blast+
    then show ?thesis
      using assms(1) None c by (simp add: ask_resource_def ask_parent_def CheckFD_def BWLDQuery_def Let_def)
  qed
qed

lemma ask_reservation_child:
  assumes "ask_reservation env b q rt = Some ((ret, restime, port), b')" "child_of env n b cs" "reservation_ok q"
    and "length (q_sid q) = 16" "\<forall>r. ch_res cs = Some r \<longrightarrow> r_sid r = q_sid q"
  obtains cs' where "child_of env n b' cs'" "if ret = BWLDMESGOK then holds cs' (q_sid q) restime else ch_res cs' = None"
proof -
  have c: "heap b (te_child env) = Some cs" "ch_node cs = Some n" using assms(2) by (simp_all add: child_of_def)
  show ?thesis
  proof (cases "ChldReservationDemand (te_rnd env) (b_nodes b) (te_clock env) (b_ctx b, b_slots b, cs) q 0")
    case None
    then show ?thesis using ask_reservation_none [OF c assms(3)] assms(1) by simp
  next
    case (Some x)
    obtain reply ctx' slots' cs' where x: "x = (reply, ctx', slots', cs')" by (metis prod_cases4)
    note d = Some [unfolded x]
    have "child_of env n b' cs'"
      using ask_reservation_eq [OF c assms(3) d, of rt] assms(1) demand_child [OF d] c(2) by (auto simp: child_of_def)
    moreover have "if ret = BWLDMESGOK then holds cs' (q_sid q) restime else ch_res cs' = None"
      using demand_holds [OF d assms(4,5)] ask_reservation_eq [OF c assms(3) d, of rt] assms(1) by (auto split: if_splits)
    ultimately show ?thesis by (rule that)
  qed
qed

section \<open>Sessions and reservations\<close>

text \<open>A session as the policy left it: the parent holds its reservation, or none when it was not granted.\<close>

definition backed :: "test_env \<Rightarrow> nat \<Rightarrow> broker \<Rightarrow> BWLTestSession \<Rightarrow> bool" where
  "backed env n b t \<longleftrightarrow> length (sid t) = 16 \<and> (\<exists>cs. child_of env n b cs \<and>
     (case closure t of None \<Rightarrow> ch_res cs = None | Some ti \<Rightarrow> ti_sid ti = sid t \<and> (\<exists>time. holds cs (sid t) time)))"

definition granted_now :: "test_env \<Rightarrow> nat \<Rightarrow> broker \<Rightarrow> BWLTestSession \<Rightarrow> bool" where
  "granted_now env n b t \<longleftrightarrow> length (sid t) = 16 \<and> (\<exists>cs ti. child_of env n b cs \<and> closure t = Some ti \<and> ti_sid ti = sid t \<and>
     holds cs (sid t) (reserve_time t))"

definition agrees :: "test_env \<Rightarrow> nat \<Rightarrow> BWLControl \<Rightarrow> broker \<Rightarrow> bool" where
  "agrees env n c b \<longleftrightarrow> 128 \<le> length (msg c) \<and>
     (case tests c of None \<Rightarrow> \<exists>cs. child_of env n b cs \<and> ch_res cs = None | Some t \<Rightarrow> granted_now env n b t)"

lemma granted_backed: "granted_now env n b t \<Longrightarrow> backed env n b t"
  unfolding granted_now_def backed_def by fastforce

lemma agrees_keeps: "agrees env n c b \<Longrightarrow> keeps_sessions c c' \<Longrightarrow> agrees env n c' b"
  by (simp add: agrees_def keeps_sessions_def)

lemma free_agrees:
  assumes "BWLTestSessionFree env t aval c b = Some (c', b')" "backed env n b t" "128 \<le> length (msg c)"
  shows "agrees env n c' b' \<and> tests c' = None"
proof -
  obtain cs where cs: "child_of env n b cs" "length (sid t) = 16"
    "case closure t of None \<Rightarrow> ch_res cs = None | Some ti \<Rightarrow> ti_sid ti = sid t \<and> (\<exists>time. holds cs (sid t) time)"
    using assms(2) by (auto simp: backed_def)
  show ?thesis
  proof (cases "closure t")
    case None
    then show ?thesis using assms(1,3) cs by (auto simp: BWLTestSessionFree_def agrees_def)
  next
    case (Some ti)
    obtain r where r: "ch_res cs = Some r" "r_sid r = sid t" "ti_sid ti = sid t" using cs(3) Some by (auto simp: holds_def)
    obtain ret b1 where rel: "(if lim_limit (ti_res ti) = 0 then Some (BWLDMESGOK, b) else ask_resource env b BWLDMESGRELEASE (ti_res ti)) = Some (ret, b1)"
      and com: "map_option snd (ask_complete env b1 (sid t) aval) = Some b'" and c': "c' = c\<lparr>tests := None\<rparr>"
      using assms(1) Some r(3) by (auto simp: BWLTestSessionFree_def BWLDTestComplete_def split: option.splits prod.splits)
    have b1: "child_of env n b1 cs" using rel cs(1) ask_resource_child by (auto split: if_splits)
    then have h: "heap b1 (te_child env) = Some cs" "ch_node cs = Some n" by (simp_all add: child_of_def)
    have "ChldReservationComplete (b_slots b1) cs (sid t) = (True, ResRemove (b_slots b1) r, cs\<lparr>ch_res := None\<rparr>)"
      using r by (simp add: ChldReservationComplete_def same_sid_def DeleteReservation_def)
    from ask_complete_eq [OF h cs(2) this, of aval] com h(2)
    show ?thesis using assms(3) by (auto simp: agrees_def child_of_def c')
  qed
qed

lemma reserve_backed:
  assumes "reserve_test env ti t b = Some ((ok, err, t'), b')" "env_ok env" "child_of env n b cs" "ti_sid ti = sid t" "length (sid t) = 16"
    and "\<forall>r. ch_res cs = Some r \<longrightarrow> r_sid r = sid t"
  shows "if ok then granted_now env n b' t' else backed env n b' t'"
proof -
  let ?q = "reservation_of env ti t"
  have q: "q_sid ?q = sid t" by (simp add: reservation_of_def Let_def assms(4))
  have qok: "reservation_ok ?q" using assms(2,4,5) by (intro reservation_of_ok) (simp_all add: env_ok_def)
  obtain ret restime port where a: "ask_reservation env b ?q (reserve_time t) = Some ((ret, restime, port), b')"
    and t': "(ok, err, t') = (if ret \<noteq> BWLDMESGOK then refuse_test (t\<lparr>reserve_time := restime\<rparr>)
       else (True, BWLErrOK, t\<lparr>reserve_time := restime, tool_port := if conf_client t then tool_port t else port,
              local_tool_port := port, closure := Some ti\<rparr>))"
    using assms(1) by (fastforce simp: reserve_test_def Let_def split: option.splits prod.splits if_splits)
  have len: "length (q_sid ?q) = 16" "\<forall>r. ch_res cs = Some r \<longrightarrow> r_sid r = q_sid ?q" using q assms(5,6) by simp_all
  obtain cs' where "child_of env n b' cs'" "if ret = BWLDMESGOK then holds cs' (sid t) restime else ch_res cs' = None"
    using ask_reservation_child [OF a assms(3) qok len] unfolding q by blast
  then show ?thesis using t' assms(4,5)
    by (auto simp: refuse_test_def granted_now_def backed_def split: if_splits)
qed

lemma decision_backed:
  assumes "BWLDCheckTestPolicy env ns node t b = Some ((ok, err, t'), b')" "env_ok env" "backed env n b t"
  shows "if ok then granted_now env n b' t' else backed env n b' t'"
proof -
  obtain cs where cs: "child_of env n b cs" "length (sid t) = 16"
    "case closure t of None \<Rightarrow> ch_res cs = None | Some ti \<Rightarrow> ti_sid ti = sid t \<and> (\<exists>time. holds cs (sid t) time)"
    using assms(3) by (auto simp: backed_def)
  show ?thesis
  proof (cases "closure t")
    case (Some ti)
    then have "\<forall>r. ch_res cs = Some r \<longrightarrow> r_sid r = sid t" "ti_sid ti = sid t" using cs(3) by (auto simp: holds_def)
    moreover have "reserve_test env ti t b = Some ((ok, err, t'), b')" using assms(1) Some by (simp add: BWLDCheckTestPolicy_def)
    ultimately show ?thesis using reserve_backed [OF _ assms(2) cs(1) _ cs(2)] by blast
  next
    case None
    then have free: "ch_res cs = None" using cs(3) by simp
    have keep: "backed env n b (t\<lparr>closure := None\<rparr>)" using cs free by (auto simp: backed_def)
    consider (now) "\<not> ok" "b' = b" "t' = t \<or> (\<exists>tspec. t' = t\<lparr>test_spec := tspec, closure := None\<rparr>)"
      | (asked) ret tspec b1 where "ask_resource env b BWLDMESGREQUEST (LimRec BWLDLimPending 1) = Some (ret, b1)"
          "ret \<noteq> BWLDMESGOK" "\<not> ok" "t' = t\<lparr>test_spec := tspec, closure := None\<rparr>" "b' = b1"
      | (reserved) m tspec b1 where "ask_resource env b BWLDMESGREQUEST (LimRec BWLDLimPending 1) = Some (BWLDMESGOK, b1)"
          "reserve_test env \<lparr>ti_node = m, ti_sid = sid t, ti_res = LimRec BWLDLimPending 1\<rparr> (t\<lparr>test_spec := tspec\<rparr>) (te_others env b1) =
             Some ((ok, err, t'), b')"
      using assms(1) None
      by (auto simp: BWLDCheckTestPolicy_def refuse_test_def Let_def split: option.splits if_splits prod.splits)
    then show ?thesis
    proof cases
      case now
      then show ?thesis using keep cs None free by (auto simp: backed_def)
    next
      case (asked ret tspec b1)
      then show ?thesis using ask_resource_child [OF asked(1) cs(1)] cs(2) free by (auto simp: backed_def)
    next
      case (reserved m tspec b1)
      have others: "child_of env n (te_others env b1) cs"
        using ask_resource_child [OF reserved(1) cs(1)] assms(2) by (simp add: child_of_def env_ok_def)
      show ?thesis using reserve_backed [OF reserved(2) assms(2) others] cs(2) free by simp
    qed
  qed
qed

section \<open>A turn of the loop\<close>

lemma backed_cong: "sid t' = sid t \<Longrightarrow> closure t' = closure t \<Longrightarrow> backed env n b t' = backed env n b t"
  by (cases "closure t") (simp_all add: backed_def)

lemma drop_agrees:
  assumes "drop_session env err t c b = Some (err', c', b')" "backed env n b t" "128 \<le> length (msg c)"
  shows "agrees env n c' b'"
  using assms free_agrees by (auto simp: drop_session_def)

lemma reject_agrees:
  assumes "reject_request env err a t c b = Some (err', c', b')" "backed env n b t" "128 \<le> length (msg c)"
  shows "agrees env n c' b'"
proof -
  have "128 \<le> length (msg (snd (BWLWriteTestAccept c a t)))"
    using test_accept_keeps [of c a t] assms(3) by (cases "BWLWriteTestAccept c a t") (auto simp: keeps_sessions_def)
  then show ?thesis using assms drop_agrees by (auto simp: reject_request_def)
qed

lemma decide_agrees:
  assumes "decide_request se t c b = Some (err, c', b')" "env_ok (se_policy se)" "backed (se_policy se) n b t" "128 \<le> length (msg c)"
  shows "agrees (se_policy se) n c' b'"
proof -
  let ?env = "se_policy se" and ?t = "t\<lparr>fuzz := request_fuzz t\<rparr>"
  obtain ok err1 t1 b1 where p: "BWLDCheckTestPolicy ?env (se_nodes se) (se_node se) ?t b = Some ((ok, err1, t1), b1)"
    using assms(1) by (auto simp: decide_request_def Let_def split: option.splits)
  have "backed ?env n b ?t" using assms(3) backed_cong [of ?t t] by simp
  note d = decision_backed [OF p assms(2) this]
  obtain rc c1 where w: "BWLWriteTestAccept c BWL_CNTRL_ACCEPT t1 = (rc, c1)" by fastforce
  have c1: "128 \<le> length (msg c1)" using test_accept_keeps [OF w] assms(4) by (simp add: keeps_sessions_def)
  show ?thesis
  proof (cases ok)
    case False
    then show ?thesis using assms(1,4) p d by (auto simp: decide_request_def Let_def split: if_splits elim!: reject_agrees)
  next
    case True
    then have g: "granted_now ?env n b1 t1" "backed ?env n b1 t1" using d granted_backed by auto
    consider "reject_request ?env BWLErrWARNING BWL_CNTRL_UNSUPPORTED t1 c b1 = Some (err, c', b')"
      | "drop_session ?env rc t1 c1 b1 = Some (err, c', b')" | "c' = c1\<lparr>tests := Some t1\<rparr>" "b' = b1"
      using assms(1) p w True by (auto simp: decide_request_def Let_def split: if_splits)
    then show ?thesis
    proof cases
      case 1 then show ?thesis using g(2) assms(4) by (rule reject_agrees)
    next
      case 2 then show ?thesis using g(2) c1 by (rule drop_agrees)
    next
      case 3 then show ?thesis using g(1) c1 by (simp add: agrees_def)
    qed
  qed
qed

text \<open>A session read from a request: a new one, or the one of the connection with new times.\<close>

definition read_session :: "BWLTestSession option \<Rightarrow> BWLTestSession \<Rightarrow> bool" where
  "read_session old t \<longleftrightarrow> (case old of
     None \<Rightarrow> closure t = None \<and> length (sid t) = 16 \<and> (\<forall>a. sid_address (server (test_spec t)) = Some a \<longrightarrow> length a = 4)
   | Some u \<Rightarrow> sid t = sid u \<and> closure t = closure u)"

lemma new_request_session:
  assumes "new_request ctx alloc buf v port tspec = Inr t" "128 \<le> length buf"
  shows "read_session None t"
  using assms
  by (auto simp: new_request_def read_session_def read_addrs_def BWLTestSessionAlloc_def Let_def slice_def
      split: if_splits option.splits)

lemma new_request_error: "new_request ctx alloc buf v port tspec = Inl (err, acc) \<Longrightarrow> err \<noteq> BWLErrOK"
  by (auto simp: new_request_def Let_def split: if_splits option.splits)

lemma update_request_session: "update_request buf port tspec u = Some t \<Longrightarrow> read_session (Some u) t"
  by (auto simp: update_request_def read_session_def split: if_splits)

lemma read_test_request:
  assumes "BWLReadTestRequest ctx alloc c old = (rc, acc, ts, c')" "128 \<le> length (msg c)"
  obtains (failed) "rc \<noteq> BWLErrOK" "ts = old" "keeps_sessions c c'"
    | (freed) t where "rc \<noteq> BWLErrOK" "old = Some t" "ts = None" "128 \<le> length (msg c')"
    | (read) t where "rc = BWLErrOK" "ts = Some t" "read_session old t" "keeps_sessions c c'"
proof -
  let ?k = "request_blocks (protocol_version c) - 1"
  obtain m c1 where r: "BWLReceiveBlocksIntr c 16 ?k = (m, c1)" by fastforce
  have k: "keeps_sessions c c1" "128 \<le> length (msg c1)" using receive_keeps [OF r] assms(2) by (auto simp: keeps_sessions_def)
  have "(rc \<noteq> BWLErrOK \<and> ts = old \<and> keeps_sessions c c') \<or> (rc \<noteq> BWLErrOK \<and> (\<exists>t. old = Some t) \<and> ts = None \<and> 128 \<le> length (msg c')) \<or>
    (rc = BWLErrOK \<and> (\<exists>t. ts = Some t \<and> read_session old t) \<and> keeps_sessions c c')"
    using assms(1) r k new_request_error [of ctx alloc "msg c1"] new_request_session [of ctx alloc "msg c1"] update_request_session [of "msg c1"]
    by (cases old) (force simp: BWLReadTestRequest_def request_error_def Let_def keeps_sessions_def state_upd
        split: if_splits prod.splits option.splits sum.splits)+
  then show ?thesis using failed freed read by blast
qed

lemma setup_backed:
  assumes "setup_request se (old \<noteq> None) t = r" "read_session old t" "\<forall>x. se_rand se = Some x \<longrightarrow> length x = 4"
    and "\<forall>u. old = Some u \<longrightarrow> backed env n b u" "old = None \<Longrightarrow> \<exists>cs. child_of env n b cs \<and> ch_res cs = None"
  shows "case r of Inl (err, a, t') \<Rightarrow> backed env n b t' | Inr t' \<Rightarrow> backed env n b t'"
proof (cases old)
  case (Some u)
  then have "backed env n b t'" if "sid t' = sid t" "closure t' = closure t" for t'
    using assms(2,4) that backed_cong [of t' u] by (simp add: read_session_def)
  then show ?thesis using assms(1) Some
    by (auto simp: setup_request_def Let_def split: option.splits)
next
  case None
  have [simp]: "length (memcpy (memcpy (sid t) 0 a) 4 (BWLEncodeTimeStamp now)) = 16" 
    if "length a = 4" "length (sid t) = 16" for a now using that by simp
  show ?thesis using assms(1-3,5) None
    by (auto simp: setup_request_def read_session_def backed_def BWLCreateSID_def Let_def split: option.splits if_splits prod.splits)
qed

lemma process_agrees:
  assumes "BWLProcessTestRequest se c b = Some (rc, c', b')" "agrees (se_policy se) n c b" "env_ok (se_policy se)"
    and "\<forall>x. se_rand se = Some x \<longrightarrow> length x = 4"
  shows "agrees (se_policy se) n c' b'"
proof -
  let ?env = "se_policy se"
  have len: "128 \<le> length (msg c)" using assms(2) by (simp add: agrees_def)
  have old: "\<forall>u. tests c = Some u \<longrightarrow> backed ?env n b u" "tests c = None \<Longrightarrow> \<exists>cs. child_of ?env n b cs \<and> ch_res cs = None"
    using assms(2) granted_backed by (auto simp: agrees_def)
  obtain e acc ts c1 where r: "BWLReadTestRequest (se_ctx se) (se_alloc se) c (tests c) = (e, acc, ts, c1)" by (metis prod_cases4)
  show ?thesis using r len
  proof (cases rule: read_test_request)
    case failed
    then have "c' = c1" "b' = b" using assms(1) r by (auto simp: BWLProcessTestRequest_def Let_def split: option.splits)
    then show ?thesis using agrees_keeps [OF assms(2) failed(3)] by simp
  next
    case (freed t)
    then obtain e' where "drop_session ?env e' t c1 b = Some (rc, c', b')"
      using assms(1) r by (auto simp: BWLProcessTestRequest_def Let_def)
    then show ?thesis using freed old(1) by (auto elim: drop_agrees)
  next
    case (read t)
    have len1: "128 \<le> length (msg c1)" using read(4) len by (simp add: keeps_sessions_def)
    note s = setup_backed [OF refl read(3) assms(4) old]
    show ?thesis
    proof (cases "setup_request se (tests c \<noteq> None) t")
      case (Inl x)
      obtain e' a t' where x: "x = (e', a, t')" by (metis prod_cases3)
      have "reject_request ?env e' a t' c1 b = Some (rc, c', b')"
        using assms(1) r read Inl x by (simp add: BWLProcessTestRequest_def Let_def)
      then show ?thesis using s Inl x len1 by (auto elim: reject_agrees)
    next
      case (Inr t')
      have "decide_request se t' c1 b = Some (rc, c', b')"
        using assms(1) r read Inr by (simp add: BWLProcessTestRequest_def Let_def)
      then show ?thesis using s Inr assms(3) len1 by (auto elim: decide_agrees)
    qed
  qed
qed

lemma time_keeps [keeps]: "BWLProcessTimeRequest now c = (rc, c') \<Longrightarrow> keeps_sessions c c'"
  by (auto simp: BWLProcessTimeRequest_def BWLFailControlSession_def split: prod.splits option.splits if_splits
      dest!: time_request_keeps time_response_keeps intro: keeps_trans)

lemma start_keeps [keeps]:
  assumes "BWLProcessStartSession ep c = (rc, c')"
  shows "keeps_sessions c c'"
proof -
  obtain e p c1 where r: "BWLReadStartSession c = (e, p, c1)" by (metis prod_cases3)
  have "keeps_sessions c1 (snd (BWLWriteStartAck c1 q a))" for q a
    using start_ack_keeps [of c1 q a] by (cases "BWLWriteStartAck c1 q a") simp
  moreover have "keeps_sessions c1 x" if "BWLWriteStartAck c1 q a = (y, x)" for x y q a
    using start_ack_keeps [OF that] .
  ultimately have "keeps_sessions c1 c'"
    using assms r by (auto simp: BWLProcessStartSession_def BWLFailControlSession_def Let_def split: prod.splits sum.splits if_splits)
  with start_request_keeps [OF r] show ?thesis by (rule keeps_trans)
qed

lemma agrees_session: "agrees env n c b \<Longrightarrow> tests c = Some t \<Longrightarrow> backed env n b t"
  using granted_backed by (simp add: agrees_def)

lemma agrees_length: "agrees env n c b \<Longrightarrow> 128 \<le> length (msg c)"
  by (simp add: agrees_def)

lemma agrees_state [simp]:
  "agrees env n (set_state s c) b = agrees env n c b" "agrees env n (or_state s c) b = agrees env n c b"
  "agrees env n (clear_state s c) b = agrees env n c b"
  by (simp_all add: agrees_def state_upd)

lemma stop_agrees:
  assumes "BWLStopSession env e1 e2 e3 a c b = Some (err, a', fl, data, c', b')" "agrees env n c b"
  shows "agrees env n c' b'"
proof (cases "tests c")
  case None
  then show ?thesis using assms by (simp add: BWLStopSession_def)
next
  case (Some t)
  obtain a1 fp where f: "(if a = 0 \<and> e1 < BWLErrWARNING then (BWL_CNTRL_FAILURE, None) else (a, localfp t)) = (a1, fp)" by fastforce
  obtain r1 c1 where w: "BWLWriteStopSession c a1 fp = (r1, c1)" by fastforce
  obtain mt c2 where m: "BWLReadRequestType c1 = (mt, c2)" by fastforce
  obtain r3 av d c3 where r: "BWLReadStopSession c2 (remotefp t) = (r3, (av, d), c3)" by (metis prod_cases3 surj_pair)
  note k1 = agrees_keeps [OF assms(2) stop_written_keeps [OF w]]
  note k2 = agrees_keeps [OF k1 request_type_keeps [OF m]]
  note k3 = agrees_keeps [OF k2 stop_read_keeps [OF r]]
  have "c' = set_state BWLStateInvalid c1 \<and> b' = b \<or> c' = set_state BWLStateInvalid c2 \<and> b' = b \<or> c' = set_state BWLStateInvalid c3 \<and> b' = b \<or>
    (\<exists>c4. BWLTestSessionFree env t a1 c3 b = Some (c4, b') \<and> c' = clear_state BWLStateTest c4)"
    using assms(1) Some f w m r by (auto simp: BWLStopSession_def Let_def split: if_splits)
  then show ?thesis
    using k1 k2 k3 free_agrees [OF _ agrees_session [OF assms(2) Some] agrees_length [OF k3]] by auto
qed

lemma stop_now_agrees: "stop_now env sp a c b = Some (w, err, a', data, c', b') \<Longrightarrow> agrees env n c b \<Longrightarrow> agrees env n c' b'"
  by (auto simp: stop_now_def dest: stop_agrees)


lemma stop_by_peer_agrees:
  assumes "stop_by_peer env sp c b = Some (w, err, a', data, c', b')" "agrees env n c b" "tests c \<noteq> None"
  shows "agrees env n c' b'"
proof -
  obtain mt c1 where m: "BWLReadRequestType c = (mt, c1)" by fastforce
  note k1 = agrees_keeps [OF assms(2) request_type_keeps [OF m]]
  obtain t where t: "tests c = Some t" "tests c1 = Some t" using assms(3) request_type_keeps [OF m] by (auto simp: keeps_sessions_def)
  obtain r2 av d c2 where r: "BWLReadStopSession c1 (remotefp t) = (r2, (av, d), c2)" by (metis prod_cases3 surj_pair)
  note k2 = agrees_keeps [OF k1 stop_read_keeps [OF r]]
  obtain a1 fp where f: "(if sp_stop_err sp < BWLErrWARNING then (BWL_CNTRL_FAILURE, None)
      else (case av of None \<Rightarrow> BWL_CNTRL_ACCEPT | Some a \<Rightarrow> a, localfp t)) = (a1, fp)" by fastforce
  obtain r3 c3 where x: "BWLWriteStopSession c2 a1 fp = (r3, c3)" by fastforce
  note k3 = agrees_keeps [OF k2 stop_written_keeps [OF x]]
  let ?c3 = "if r3 \<noteq> BWLErrOK then set_state BWLStateInvalid c3 else c3"
  have k4: "agrees env n ?c3 b" using k3 by simp
  have "c' = set_state BWLStateInvalid c1 \<and> b' = b \<or> c' = set_state BWLStateInvalid c2 \<and> b' = b \<or>
    (\<exists>c4. BWLTestSessionFree env t a1 ?c3 b = Some (c4, b') \<and> c' = clear_state BWLStateTest c4)"
    using assms(1) t m r f x by (auto simp: stop_by_peer_def Let_def split: if_splits)
  then show ?thesis
    using k1 k2 free_agrees [OF _ agrees_session [OF assms(2) t(1)] agrees_length [OF k4]] by auto
qed

lemma active_session: "fst (BWLSessionsActive status c) \<Longrightarrow> tests c \<noteq> None"
  by (auto simp: BWLSessionsActive_def Let_def split: if_splits)

lemma wait_again_agrees:
  assumes "wait_again env sp wake es c b = Some (w, err, a, data, c', b')" "agrees env n c b" "tests c \<noteq> None"
  shows "agrees env n c' b'"
  using assms
proof (induction env sp wake es c b rule: wait_again.induct)
  case (2 env sp wake now sel es c b)
  show ?case
  proof (cases "wake \<noteq> None \<and> now = None")
    case True
    then show ?thesis using 2 by simp
  next
    case False
    then show ?thesis
      using 2 by (auto simp: Let_def split: select_result.splits if_splits prod.splits dest: stop_now_agrees stop_by_peer_agrees)
  qed
qed simp

lemma stop_wait_agrees:
  assumes "BWLStopSessionWait env sp wake status es c b = Some (w, err, a, data, c', b')" "agrees env n c b"
  shows "agrees env n c' b'"
  using assms active_session [of status c]
  by (auto simp: BWLStopSessionWait_def split: prod.splits if_splits dest: wait_again_agrees stop_now_agrees)

lemma wait_sessions_agrees:
  "wait_sessions env rs c b = Some (x, c', b') \<Longrightarrow> agrees env n c b \<Longrightarrow> agrees env n c' b'"
  by (induction env rs c b rule: wait_sessions.induct)
    (auto split: if_splits option.splits prod.splits dest: stop_wait_agrees)

lemma serve_start_agrees:
  assumes "serve_start rq c b = Some (go, c', b')" "agrees (se_policy (rq_server rq)) n c b"
  shows "agrees (se_policy (rq_server rq)) n c' b'"
proof -
  obtain rc c1 where s: "BWLProcessStartSession (rq_endpoint rq) c = (rc, c1)" by fastforce
  note k = agrees_keeps [OF assms(2) start_keeps [OF s]]
  then show ?thesis
    using assms(1) s
    by (auto simp: serve_start_def Let_def split: if_splits option.splits prod.splits wait_end.splits
        dest: wait_sessions_agrees stop_agrees)
qed

lemma serve_request_agrees:
  assumes "serve_request rq lt c b = Some (go, mt, c', b')" "agrees (se_policy (rq_server rq)) n c b"
    and "env_ok (se_policy (rq_server rq))" "\<forall>x. se_rand (rq_server rq) = Some x \<longrightarrow> length x = 4"
  shows "agrees (se_policy (rq_server rq)) n c' b'"
proof -
  obtain m c1 where r: "BWLReadRequestType c = (m, c1)" by fastforce
  note k = agrees_keeps [OF assms(2) request_type_keeps [OF r]]
  show ?thesis
    using assms(1,2) r k process_agrees [OF _ k assms(3,4)]
    by (auto simp: serve_request_def Let_def split: if_splits BWLRequestType.splits prod.splits
        dest: serve_start_agrees agrees_keeps [OF k time_keeps])
qed

section \<open>The child as a process\<close>

definition turn_ok :: "nat \<Rightarrow> request_env \<Rightarrow> bool" where
  "turn_ok a rq \<longleftrightarrow> te_child (se_policy (rq_server rq)) = a \<and> env_ok (se_policy (rq_server rq)) \<and>
     (\<forall>x. se_rand (rq_server rq) = Some x \<longrightarrow> length x = 4)"

text \<open>
  The runs of the loop from a control record and a parent: turns, bytes that arrive and a socket whose
  status changes, and whatever the parent does for its other children. The child has the address \<open>a\<close> in
  the parent; the flag tells whether the loop goes on, the type is that of the last message.
\<close>

inductive child_run ::
  "nat \<Rightarrow> BWLControl \<Rightarrow> broker \<Rightarrow> bool \<Rightarrow> BWLRequestType \<Rightarrow> BWLControl \<Rightarrow> broker \<Rightarrow> bool" for a c0 b0 where
  accepted: "child_run a c0 b0 True BWLReqInvalid c0 b0"
| turn: "child_run a c0 b0 True lt c b \<Longrightarrow> turn_ok a rq \<Longrightarrow> serve_request rq lt c b = Some (go, mt, c', b') \<Longrightarrow>
    child_run a c0 b0 go mt c' b'"
| socket: "child_run a c0 b0 go mt c b \<Longrightarrow> child_run a c0 b0 go mt (c\<lparr>sock_in := i, rd_status := rs, wr_status := ws\<rparr>) b"
| others: "child_run a c0 b0 go mt c b \<Longrightarrow> heap b' a = heap b a \<Longrightarrow> child_run a c0 b0 go mt c b'"

lemma agrees_other: "te_child env = te_child env' \<Longrightarrow> heap b' (te_child env) = heap b (te_child env) \<Longrightarrow>
    agrees env n c b = agrees env' n c b'"
  by (cases "tests c") (simp_all add: agrees_def granted_now_def child_of_def)

lemma run_agrees:
  assumes "child_run a c0 b0 go mt c b" "agrees env0 n c0 b0" "te_child env0 = a"
  shows "agrees env0 n c b"
  using assms
proof (induction rule: child_run.induct)
  case (turn lt c b rq go mt c' b')
  let ?env = "se_policy (rq_server rq)"
  have e: "te_child ?env = te_child env0" using turn.hyps(2) turn.prems(2) by (simp add: turn_ok_def)
  have "agrees ?env n c b" using turn.IH turn.prems agrees_other [OF e refl] by simp
  then have "agrees ?env n c' b'"
    using serve_request_agrees [OF turn.hyps(3)] turn.hyps(2) by (simp add: turn_ok_def)
  then show ?case using agrees_other [OF e refl] by simp
next
  case (socket go mt c b i rs ws)
  then show ?case by (simp add: agrees_def)
next
  case (others go mt c b b')
  then show ?case using agrees_other [OF refl, of b' env0 b n c] by simp
qed simp

text \<open>
  C1. The child and its parent agree on the reservation at every turn of the loop, whatever the client
  sends and whatever happens to the socket, the clock and the tests: while the connection has a session,
  the parent holds a reservation with its identifier and at the time the client was told, and otherwise
  the parent holds none for the child. When the connection is closed, for whatever reason, nothing is
  left of the reservation.
\<close>

theorem reservation_follows_session:
  assumes "child_run a c0 b0 go mt c b" "tests c0 = None" "128 \<le> length (msg c0)"
    and "heap b0 a = Some cs0" "ch_node cs0 = Some n" "ch_res cs0 = None"
  shows "(\<exists>cs. heap b a = Some cs \<and> ch_node cs = Some n \<and> (case tests c of
       None \<Rightarrow> ch_res cs = None
     | Some t \<Rightarrow> \<exists>r. ch_res cs = Some r \<and> r_sid r = sid t \<and> r_restime r = reserve_time t)) \<and>
    (\<forall>env c' b'. te_child env = a \<longrightarrow> BWLControlClose env c b = Some (c', b') \<longrightarrow>
       (\<exists>cs. heap b' a = Some cs \<and> ch_res cs = None))"
proof -
  have start: "agrees env n c0 b0" if "te_child env = a" for env
    using assms(2-6) that by (simp add: agrees_def child_of_def)
  have inv: "agrees env n c b" if "te_child env = a" for env by (rule run_agrees [OF assms(1) start [OF that] that])
  have "\<exists>cs. heap b a = Some cs \<and> ch_node cs = Some n \<and> (case tests c of
       None \<Rightarrow> ch_res cs = None | Some t \<Rightarrow> \<exists>r. ch_res cs = Some r \<and> r_sid r = sid t \<and> r_restime r = reserve_time t)"
    using inv [of "sample_env\<lparr>te_child := a\<rparr>"]
    by (auto simp: agrees_def granted_now_def child_of_def holds_def split: option.splits)
  moreover have "\<exists>cs. heap b' a = Some cs \<and> ch_res cs = None"
    if e: "te_child env = a" and cl: "BWLControlClose env c b = Some (c', b')" for env c' b'
  proof (cases "tests c")
    case None
    then show ?thesis using inv [OF e] cl e by (auto simp: BWLControlClose_def agrees_def child_of_def)
  next
    case (Some t)
    then have "BWLTestSessionFree env t BWL_CNTRL_FAILURE c b = Some (c', b')" using cl by (simp add: BWLControlClose_def)
    from free_agrees [OF this agrees_session [OF inv [OF e] Some] agrees_length [OF inv [OF e]]]
    show ?thesis using e by (auto simp: agrees_def child_of_def)
  qed
  ultimately show ?thesis by blast
qed

definition sample_turn :: request_env where
  "sample_turn = \<lparr>rq_server = sample_server, rq_timer = True, rq_endpoint = (\<lambda>t p. Inr 0), rq_timer_off = True, rq_exit = False,
     rq_rounds = [], rq_timer_die = True, rq_stop = \<lparr>sp_stop_err = BWLErrOK, sp_results_err = BWLErrOK, sp_free_err = BWLErrOK\<rparr>\<rparr>"

lemma sample_turn_ok: "turn_ok 0 sample_turn"
  by (simp add: turn_ok_def sample_turn_def sample_server_def env_ok_def sample_env_def cstr_ok_def char_byte_def)

lemma sample_run: "\<exists>s u b. child_run 0 sample_control sample_parent True BWLReqTest s b \<and> tests s = Some u"
proof -
  obtain u b' where g: "granted sample_server sample_parent (requested PingParams sample_test) u b'" using session_granted_here by blast
  have s: "sendable Timeslots.sample_ctx (se_ctx sample_server) PingParams sample_test" "se_alloc sample_server"
      "\<forall>r. se_rand sample_server = Some r \<longrightarrow> length r = 4"
    using sample_sendable by (simp_all add: sample_server_def)
  obtain c1 s' where x: "serve_test sample_server sample_parent sample_control c1 = Some (BWLErrOK, s', b')" "tests s' = Some u"
    by (rule request_granted [OF sample_ready_ends s g]) (rule that; assumption)
  let ?s = "sample_control\<lparr>sock_in := sock_out c1, rd_status := rd_status sample_control, wr_status := wr_status sample_control\<rparr>"
  have arr: "arrive c1 [] sample_control = ?s" by (simp add: arrive_def)
  have "serve_request sample_turn BWLReqInvalid ?s sample_parent = Some (True, BWLReqTest, s', b')"
    using x(1) by (auto simp: serve_test_def arr serve_request_def sample_turn_def less_eq_BWLErrSeverity_def split: BWLRequestType.splits prod.splits)
  then have "child_run 0 sample_control sample_parent True BWLReqTest s' b'"
    by (intro child_run.turn [OF child_run.socket [OF child_run.accepted] sample_turn_ok])
  with x(2) show ?thesis by blast
qed

theorem reservation_follows_session_witness:
  "\<exists>c b t cs r. child_run 0 sample_control sample_parent True BWLReqTest c b \<and> tests c = Some t \<and>
     heap b 0 = Some cs \<and> ch_res cs = Some r \<and> r_sid r = sid t \<and> r_restime r = reserve_time t"
proof -
  obtain s u b where run: "child_run 0 sample_control sample_parent True BWLReqTest s b" "tests s = Some u"
    using sample_run by blast
  have i: "tests sample_control = None" "128 \<le> length (msg sample_control)" "heap sample_parent 0 = Some sample_child"
      "ch_node sample_child = Some 1" "ch_res sample_child = None"
    using linked_length [OF sample_peer_linked]
    by (simp_all add: sample_control_def sample_parent_def sample_child_def) (simp add: sample_peer_def)
  show ?thesis
    using reservation_follows_session [OF run(1) i, THEN conjunct1, unfolded run(2) option.case] run by blast
qed

end
