(* ===== verification/Negotiate.thy ===== *)
theory Negotiate
  imports Session
begin

unbundle bit_operations_syntax

text \<open>
  The client program \<open>bwctl/bwctl.c\<close> between its two servers: choosing a tool both have and asking each
  in turn until they have reserved the same time (\<open>negotiate_test\<close>, \<open>negotiate_individual_test\<close>), starting
  the test on both (\<open>start_testing\<close>) and ending it (\<open>wait_for_results\<close>).

  Every call of \<open>BWLSessionRequest\<close> has its own environment, since the servers change between calls: a
  round of the negotiation holds those of one request to each, with the outcomes of \<open>sig_check\<close>. \<open>None\<close>
  as a result means that the negotiation goes on after the given rounds.

  Shown: when the negotiation succeeds, both servers have accepted one time, within the window of the
  user, and both connections hold a session reserved at that time (\<open>negotiated_time_common\<close>).
\<close>

section \<open>The sessions of the client program\<close>

record ipsess =
  ip_cntrl :: BWLControl
  ip_rttbound :: BWLNum64
  ip_is_client :: bool
  ip_is_local :: bool
  ip_requested :: bool
  ip_tspec :: BWLTestSpec
  ip_avail_tools :: u32
  ip_host_time :: BWLTimeStamp
  ip_fake_daemon :: bool

abbreviation asked_time :: "ipsess \<Rightarrow> BWLNum64" where
  "asked_time sess \<equiv> tstamp (req_time (ip_tspec sess))"

definition set_asked :: "BWLNum64 \<Rightarrow> ipsess \<Rightarrow> ipsess" where
  "set_asked time sess = sess\<lparr>ip_tspec := (ip_tspec sess)\<lparr>req_time := (req_time (ip_tspec sess))\<lparr>tstamp := time\<rparr>\<rparr>\<rparr>"

section \<open>The tool\<close>

text \<open>The first tool that both servers have and that supports the options; the shift ends with 0.\<close>

definition pick_first_tool :: "BWLContext \<Rightarrow> u32 \<Rightarrow> BWLTestSpec \<Rightarrow> u32" where
  "pick_first_tool ctx common opts =
     (case find (\<lambda>tid. tid AND common \<noteq> 0 \<and> BWLToolValidateTest ctx tid opts) (map (\<lambda>k. push_bit k 1) [0..<32]) of
        None \<Rightarrow> 0 | Some tid \<Rightarrow> tid)"

text \<open>The first of the tools the user listed; without one the options keep the tool they had.\<close>

fun pick_listed_tool :: "BWLContext \<Rightarrow> u32 list \<Rightarrow> u32 \<Rightarrow> BWLTestSpec \<Rightarrow> u32" where
  "pick_listed_tool ctx [] common opts = tool_id opts"
| "pick_listed_tool ctx (tid # tids) common opts =
     (if tid = BWL_TOOL_UNDEFINED then tool_id opts
      else if tid AND common = 0 then pick_listed_tool ctx tids common opts
      else if \<not> BWLToolValidateTest ctx tid opts then pick_listed_tool ctx tids (common AND NOT tid) opts
      else tid)"

definition pick_tool :: "BWLContext \<Rightarrow> u32 list \<Rightarrow> u32 \<Rightarrow> BWLTestSpec \<Rightarrow> BWLTestSpec option" where
  "pick_tool ctx tool_ids common opts =
     (if common = 0 then None
      else if tool_ids = [] \<or> hd tool_ids = BWL_TOOL_UNDEFINED then Some (opts\<lparr>tool_id := pick_first_tool ctx common opts\<rparr>)
      else let tid = pick_listed_tool ctx tool_ids common opts
           in if tid = BWL_TOOL_UNDEFINED then None else Some (opts\<lparr>tool_id := tid\<rparr>))"

section \<open>One server\<close>

text \<open>The session, identifier, time and port are in and out; \<open>sig\<close> is what \<open>sig_check\<close> answers.\<close>

definition negotiate_individual_test ::
  "client_env \<Rightarrow> bool \<Rightarrow> ipsess \<Rightarrow> u8 list \<Rightarrow> BWLTimeStamp \<Rightarrow> u16 \<Rightarrow> bool \<times> ipsess \<times> u8 list \<times> BWLTimeStamp \<times> u16" where
  "negotiate_individual_test ce sig sess s time port =
     (let (r, c) = BWLSessionRequest ce (ip_cntrl sess) (ip_is_client sess) (ip_tspec sess) port s;
          sess = sess\<lparr>ip_cntrl := c\<rparr>; time = time\<lparr>tstamp := rr_time r\<rparr>
      in if \<not> rr_ok r \<or> sig then (False, sess, rr_sid r, time, rr_port r)
         else let sess = sess\<lparr>ip_requested := True\<rparr>
              in if BWLNum64Cmp (tstamp time) (latest_time (ip_tspec sess)) > 0
                 then (False, sess, rr_sid r, time, rr_port r)
                 else (True, set_asked (tstamp time) sess, rr_sid r, time, rr_port r))"

section \<open>Both servers\<close>

record negotiation =
  ng_server :: ipsess
  ng_client :: ipsess
  ng_sid :: "u8 list"
  ng_time :: BWLTimeStamp
  ng_port :: u16

record neg_round =
  nr_server :: client_env
  nr_server_sig :: bool
  nr_sig :: bool
  nr_client :: client_env
  nr_client_sig :: bool
  nr_last_sig :: bool

datatype verdict = NegFailed | NegAgreed | NegAgain

definition same_time :: "negotiation \<Rightarrow> bool" where
  "same_time g \<longleftrightarrow> BWLNum64Cmp (asked_time (ng_client g)) (asked_time (ng_server g)) = 0"

text \<open>The port for a client whose server runs without an endpoint.\<close>

definition client_port :: "BWLContext \<Rightarrow> u16 \<Rightarrow> BWLTestSpec \<Rightarrow> u16 \<Rightarrow> u16" where
  "client_port ctx tester_port spec port =
     (if no_server_endpoint spec \<noteq> 0
      then (if tester_port \<noteq> 0 then tester_port else BWLToolStandardTesterPortByID ctx (tool_id spec)) else port)"

definition ask_server :: "neg_round \<Rightarrow> negotiation \<Rightarrow> bool \<times> negotiation" where
  "ask_server r g =
     (let (ok, sess, s, time, port) = negotiate_individual_test (nr_server r) (nr_server_sig r)
            (set_asked (tstamp (ng_time g)) (ng_server g)) (ng_sid g) (ng_time g) (ng_port g)
      in (ok \<and> \<not> nr_sig r, g\<lparr>ng_server := sess, ng_sid := s, ng_time := time, ng_port := port\<rparr>))"

definition ask_client :: "BWLContext \<Rightarrow> u16 \<Rightarrow> neg_round \<Rightarrow> negotiation \<Rightarrow> bool \<times> negotiation" where
  "ask_client ctx tester_port r g =
     (let sess = set_asked (tstamp (ng_time g)) (ng_client g);
          (ok, sess, s, time, port) = negotiate_individual_test (nr_client r) (nr_client_sig r) sess (ng_sid g) (ng_time g)
            (client_port ctx tester_port (ip_tspec sess) (ng_port g))
      in (ok \<and> \<not> nr_last_sig r, g\<lparr>ng_client := sess, ng_sid := s, ng_time := time, ng_port := port\<rparr>))"

definition negotiate_round :: "BWLContext \<Rightarrow> u16 \<Rightarrow> neg_round \<Rightarrow> negotiation \<Rightarrow> verdict \<times> negotiation" where
  "negotiate_round ctx tester_port r g =
     (let (ok, g) = ask_server r g
      in if \<not> ok then (NegFailed, g)
         else let (ok, g) = (if \<not> ip_requested (ng_client g) \<or> \<not> same_time g then ask_client ctx tester_port r g else (True, g))
              in if \<not> ok then (NegFailed, g) else (if same_time g then NegAgreed else NegAgain, g))"

fun negotiate_loop :: "BWLContext \<Rightarrow> u16 \<Rightarrow> neg_round list \<Rightarrow> negotiation \<Rightarrow> (bool \<times> negotiation) option" where
  "negotiate_loop ctx tester_port [] g = None"
| "negotiate_loop ctx tester_port (r # rs) g = (case negotiate_round ctx tester_port r g of
       (NegAgain, g) \<Rightarrow> negotiate_loop ctx tester_port rs g
     | (v, g) \<Rightarrow> Some (v = NegAgreed, g))"

text \<open>The label \<open>error_exit\<close>: a session that was requested is cancelled with a request at time 0.\<close>

definition cancel_requested :: "client_env \<Rightarrow> ipsess \<Rightarrow> u8 list \<Rightarrow> u16 \<Rightarrow> ipsess \<times> u8 list \<times> u16" where
  "cancel_requested ce sess s port =
     (if \<not> ip_requested sess then (sess, s, port)
      else let sess = set_asked 0 sess;
               (r, c) = BWLSessionRequest ce (ip_cntrl sess) (ip_is_client sess) (ip_tspec sess) port s
           in (sess\<lparr>ip_cntrl := c\<rparr>, rr_sid r, rr_port r))"

record neg_env =
  ne_ctx :: BWLContext
  ne_client_addr :: "sockaddr option"
  ne_server_addr :: "sockaddr option"
  ne_test_type :: u32
  ne_tool_ids :: "u32 list"
  ne_parsable :: bool
  ne_outformat :: u8
  ne_now :: "BWLTimeStamp option"
  ne_window :: u32
  ne_tester_port :: u16
  ne_rounds :: "neg_round list"
  ne_cancel_client :: client_env
  ne_cancel_server :: client_env

definition cancel_both :: "neg_env \<Rightarrow> negotiation \<Rightarrow> negotiation" where
  "cancel_both ne g =
     (let (cl, s, port) = cancel_requested (ne_cancel_client ne) (ng_client g) (ng_sid g) (ng_port g);
          (sv, s, port) = cancel_requested (ne_cancel_server ne) (ng_server g) s port
      in g\<lparr>ng_client := cl, ng_server := sv, ng_sid := s, ng_port := port\<rparr>)"

text \<open>Seven times the sum of the round trips and a quarter of a second.\<close>

definition time_offset :: "ipsess \<Rightarrow> ipsess \<Rightarrow> BWLNum64" where
  "time_offset server_sess client_sess =
     BWLNum64Add (BWLNum64Mult (BWLNum64Add (ip_rttbound client_sess) (ip_rttbound server_sess)) (BWLULongToNum64 7)) 0x40000000"

text \<open>How long to wait after the end of a test (the global \<open>fuzz64\<close>).\<close>

definition end_fuzz :: "ipsess \<Rightarrow> ipsess \<Rightarrow> BWLNum64" where
  "end_fuzz server_sess client_sess =
     BWLNum64Add (BWLULongToNum64 1) (BWLNum64Max (ip_rttbound client_sess) (ip_rttbound server_sess))"

text \<open>The options with addresses, tool and output format, or a failure.\<close>

definition choose_options :: "neg_env \<Rightarrow> ipsess \<Rightarrow> ipsess \<Rightarrow> BWLTestSpec \<Rightarrow> BWLTestSpec option" where
  "choose_options ne server_sess client_sess opts = (case (ne_client_addr ne, ne_server_addr ne) of
       (Some cl, Some sv) \<Rightarrow>
         map_option (\<lambda>opts. opts\<lparr>outformat := if ne_parsable ne then BWLToolGetParsableFormatByID (ne_ctx ne) (tool_id opts)
                                            else ne_outformat ne\<rparr>)
           (pick_tool (ne_ctx ne) (ne_tool_ids ne)
              (BWLToolGetCommonTools (ne_ctx ne) (ip_avail_tools client_sess) (ip_avail_tools server_sess) (ne_test_type ne))
              (opts\<lparr>client := cl, server := sv\<rparr>))
     | _ \<Rightarrow> None)"

text \<open>The negotiation as it starts: the error of the time asked of each is that of the other host.\<close>

definition start_negotiation :: "BWLTestSpec \<Rightarrow> BWLTimeStamp \<Rightarrow> ipsess \<Rightarrow> ipsess \<Rightarrow> negotiation" where
  "start_negotiation opts time server_sess client_sess =
     (let opts = (if ip_fake_daemon server_sess \<and> \<not> ip_is_local server_sess then opts\<lparr>no_server_endpoint := 1\<rparr> else opts);
          spec = (\<lambda>other. opts\<lparr>req_time := BWLSetTimeStampError (req_time opts) (BWLGetTimeStampError (ip_host_time other))\<rparr>)
      in \<lparr>ng_server = server_sess\<lparr>ip_tspec := spec client_sess, ip_requested := False\<rparr>,
          ng_client = client_sess\<lparr>ip_tspec := spec server_sess, ip_requested := False\<rparr>,
          ng_sid = replicate 16 0, ng_time = time, ng_port = 0\<rparr>)"

text \<open>\<open>s0\<close> is the content of the identifier before it is cleared.\<close>

definition negotiate_test ::
  "neg_env \<Rightarrow> u8 list \<Rightarrow> ipsess \<Rightarrow> ipsess \<Rightarrow> BWLTestSpec \<Rightarrow> (bool \<times> negotiation) option" where
  "negotiate_test ne s0 server_sess client_sess opts =
     (let early = cancel_both ne \<lparr>ng_server = server_sess, ng_client = client_sess, ng_sid = s0, ng_time = no_time, ng_port = 0\<rparr>
      in case choose_options ne server_sess client_sess opts of None \<Rightarrow> Some (False, early)
         | Some opts \<Rightarrow> (case ne_now ne of None \<Rightarrow> Some (False, early)
             | Some now \<Rightarrow>
                 let time = now\<lparr>tstamp := BWLNum64Add (tstamp now) (time_offset server_sess client_sess)\<rparr>;
                     opts = opts\<lparr>latest_time := BWLNum64Add (tstamp time) (BWLULongToNum64 (ne_window ne))\<rparr>
                 in (case negotiate_loop (ne_ctx ne) (ne_tester_port ne) (ne_rounds ne)
                           (start_negotiation opts time server_sess client_sess) of
                       None \<Rightarrow> None
                     | Some (True, g) \<Rightarrow> Some (True, g)
                     | Some (False, g) \<Rightarrow> Some (False, cancel_both ne g))))"

section \<open>Starting and ending the test\<close>

text \<open>\<open>dataport\<close> is the uninitialised local variable, which the server's port replaces.\<close>

definition start_testing ::
  "peer \<Rightarrow> peer \<Rightarrow> bool \<Rightarrow> bool \<Rightarrow> u16 \<Rightarrow> ipsess \<Rightarrow> ipsess \<Rightarrow> bool \<times> ipsess \<times> ipsess" where
  "start_testing speer cpeer sig1 sig2 dataport server_sess client_sess =
     (let (err, dataport, c) = BWLStartSession speer (ip_cntrl server_sess) dataport;
          server_sess = server_sess\<lparr>ip_cntrl := c\<rparr>
      in if err < BWLErrINFO \<or> sig1 then (False, server_sess, client_sess)
         else let (err, dataport, c) = BWLStartSession cpeer (ip_cntrl client_sess) dataport;
                  client_sess = client_sess\<lparr>ip_cntrl := c\<rparr>
              in (\<not> (err < BWLErrINFO \<or> sig2), server_sess, client_sess))"

text \<open>
  Waiting for the end: an event is the number of ready sockets, the clock after \<open>select\<close> and the signal
  check. \<open>None\<close>: still waiting after the events.
\<close>

definition end_time :: "BWLNum64 \<Rightarrow> ipsess \<Rightarrow> BWLNum64" where
  "end_time fuzz64 client_sess =
     (let spec = ip_tspec client_sess
      in BWLNum64Add (BWLNum64Add (BWLNum64Add (tstamp (req_time spec)) (BWLULongToNum64 (duration spec)))
           (BWLULongToNum64 (ucast (omit spec)))) fuzz64)"

fun wait_end :: "BWLNum64 \<Rightarrow> (int \<times> BWLTimeStamp option \<times> bool) list \<Rightarrow> bool option" where
  "wait_end endtime [] = None"
| "wait_end endtime ((rc, now, sig) # es) = (case now of None \<Rightarrow> Some False
     | Some t \<Rightarrow> if sig then Some False
                else if rc > 0 \<or> BWLNum64Cmp (tstamp t) endtime \<ge> 0 then Some True
                else wait_end endtime es)"

definition end_session :: "peer \<Rightarrow> bool option \<Rightarrow> ipsess \<Rightarrow> bool \<times> u8 list \<times> ipsess" where
  "end_session peer fp sess =
     (let (err, atype, data, c) = BWLEndSession peer (ip_cntrl sess) BWL_CNTRL_ACCEPT fp;
          sess = sess\<lparr>ip_cntrl := c\<rparr>
      in if err < BWLErrWARNING then (False, data, sess) else (True, data, sess\<lparr>ip_requested := False\<rparr>))"

definition wait_for_results ::
  "BWLTimeStamp option \<Rightarrow> BWLNum64 \<Rightarrow> (int \<times> BWLTimeStamp option \<times> bool) list \<Rightarrow> peer \<Rightarrow> bool option \<Rightarrow> bool \<Rightarrow> peer \<Rightarrow> bool option \<Rightarrow>
   ipsess \<Rightarrow> ipsess \<Rightarrow> (bool \<times> ipsess \<times> ipsess) option" where
  "wait_for_results now fuzz64 events cpeer cfp sig speer sfp server_sess client_sess =
     (if now = None then Some (False, server_sess, client_sess)
      else case wait_end (end_time fuzz64 client_sess) events of
          None \<Rightarrow> None
        | Some False \<Rightarrow> Some (False, server_sess, client_sess)
        | Some True \<Rightarrow>
            (let (ok, _, client_sess) = end_session cpeer cfp client_sess
             in if \<not> ok \<or> sig then Some (False, server_sess, client_sess)
                else let (ok, _, server_sess) = end_session speer sfp server_sess
                     in Some (ok, server_sess, client_sess)))"

section \<open>What an accepted request leaves\<close>

lemma accepted_request:
  assumes "BWLSessionRequest ce c ic spec port s = (r, c')" "rr_ok r" "rr_time r \<noteq> 0"
  shows "\<exists>t. tests c' = Some t \<and> reserve_time t = rr_time r"
proof -
  have req: "\<exists>t. tests c' = Some t \<and> reserve_time t = rr_time r" if "request_session ce port s t0 c = (r, c')" for t0
    using that assms(2) by (auto simp: request_session_def Let_def split: prod.splits if_splits)
  have can: False if "cancel_session ce port s t0 c = (r, c')" for t0
    using that assms(3) by (auto simp: cancel_session_def Let_def split: prod.splits option.splits if_splits)
  show ?thesis
    using assms req can
    by (auto simp: BWLSessionRequest_def Let_def split: if_splits option.splits sum.splits)
qed

text \<open>A session that has been requested: within the latest time, and held by the connection at its time.\<close>

definition reserved :: "ipsess \<Rightarrow> bool" where
  "reserved sess \<longleftrightarrow> asked_time sess \<le> latest_time (ip_tspec sess) \<and>
     (asked_time sess \<noteq> 0 \<longrightarrow> (\<exists>t. tests (ip_cntrl sess) = Some t \<and> reserve_time t = asked_time sess))"

lemma Cmp_iff: "BWLNum64Cmp x y = 0 \<longleftrightarrow> x = y" "BWLNum64Cmp x y > 0 \<longleftrightarrow> x > y"
  by (auto simp: BWLNum64Cmp_def)

lemma individual_reserved:
  assumes "negotiate_individual_test ce sg sess s time port = (ok, sess', s', time', port')"
  shows "latest_time (ip_tspec sess') = latest_time (ip_tspec sess)"
    "ok \<Longrightarrow> ip_requested sess' \<and> reserved sess' \<and> asked_time sess' = tstamp time'"
proof -
  obtain r c where q: "BWLSessionRequest ce (ip_cntrl sess) (ip_is_client sess) (ip_tspec sess) port s = (r, c)" by fastforce
  show "latest_time (ip_tspec sess') = latest_time (ip_tspec sess)"
    using assms q by (auto simp: negotiate_individual_test_def Let_def set_asked_def split: if_splits)
  show "ip_requested sess' \<and> reserved sess' \<and> asked_time sess' = tstamp time'" if ok
    using assms q that accepted_request [OF q]
    by (auto simp: negotiate_individual_test_def Let_def set_asked_def reserved_def Cmp_iff split: if_splits)
qed

definition neg_inv :: "BWLNum64 \<Rightarrow> negotiation \<Rightarrow> bool" where
  "neg_inv lt g \<longleftrightarrow> latest_time (ip_tspec (ng_server g)) = lt \<and> latest_time (ip_tspec (ng_client g)) = lt \<and>
     (ip_requested (ng_client g) \<longrightarrow> reserved (ng_client g))"

lemma ask_server_inv:
  assumes "ask_server r g = (ok, g')" "neg_inv l g"
  shows "neg_inv l g'" "ok \<Longrightarrow> ip_requested (ng_server g') \<and> reserved (ng_server g')"
proof -
  let ?sv = "set_asked (tstamp (ng_time g)) (ng_server g)"
  obtain k sess s time port where n: "negotiate_individual_test (nr_server r) (nr_server_sig r) ?sv (ng_sid g) (ng_time g) (ng_port g) =
      (k, sess, s, time, port)" by (metis prod_cases5)
  note i = individual_reserved [OF n]
  show "neg_inv l g'" using assms n i(1) by (auto simp: ask_server_def neg_inv_def set_asked_def)
  show "ip_requested (ng_server g') \<and> reserved (ng_server g')" if ok using assms(1) n i(2) that by (auto simp: ask_server_def)
qed

lemma ask_client_inv:
  assumes "ask_client ctx tp r g = (ok, g')" "neg_inv l g" 
  shows "ng_server g' = ng_server g" "ok \<Longrightarrow> neg_inv l g' \<and> ip_requested (ng_client g')"
proof -
  let ?cl = "set_asked (tstamp (ng_time g)) (ng_client g)"
  obtain k sess s time port where n: "negotiate_individual_test (nr_client r) (nr_client_sig r) ?cl (ng_sid g) (ng_time g)
      (client_port ctx tp (ip_tspec ?cl) (ng_port g)) = (k, sess, s, time, port)" by (metis prod_cases5)
  note i = individual_reserved [OF n]
  show "ng_server g' = ng_server g" using assms(1) n by (auto simp: ask_client_def Let_def)
  show "neg_inv l g' \<and> ip_requested (ng_client g')" if ok
    using assms n i that by (auto simp: ask_client_def Let_def neg_inv_def set_asked_def)
qed

definition common_time :: "BWLNum64 \<Rightarrow> negotiation \<Rightarrow> bool" where
  "common_time lt g \<longleftrightarrow> neg_inv lt g \<and> same_time g \<and> ip_requested (ng_server g) \<and> reserved (ng_server g) \<and>
     ip_requested (ng_client g)"

lemma round_inv:
  assumes "negotiate_round ctx tp r g = (v, g')" "neg_inv l g"
  shows "v = NegAgain \<Longrightarrow> neg_inv l g'" "v = NegAgreed \<Longrightarrow> common_time l g'"
proof -
  obtain ok1 g1 where s: "ask_server r g = (ok1, g1)" by fastforce
  note i1 = ask_server_inv [OF s assms(2)]
  obtain ok2 g2 where c: "ask_client ctx tp r g1 = (ok2, g2)" by fastforce
  note i2 = ask_client_inv [OF c i1(1)]
  show "v = NegAgain \<Longrightarrow> neg_inv l g'" "v = NegAgreed \<Longrightarrow> common_time l g'"
    using assms(1) s c i1 i2 by (auto simp: negotiate_round_def common_time_def split: if_splits)
qed

lemma loop_common:
  "negotiate_loop ctx tp rs g = Some (True, g') \<Longrightarrow> neg_inv l g \<Longrightarrow> common_time l g'"
  by (induction rs arbitrary: g) (auto split: prod.splits verdict.splits dest: round_inv)

text \<open>
  C40. A negotiation that succeeds: both servers have accepted the same time, which is not after the
  latest time the client allows (the time of the first request and the window of the user), and unless
  that time is zero both connections hold a session the server reserved for it.
\<close>

theorem negotiated_time_common:
  assumes "negotiate_test ne s0 sv cl opts = Some (True, g)"
  shows "\<exists>time now. ne_now ne = Some now \<and> asked_time (ng_server g) = time \<and> asked_time (ng_client g) = time \<and>
    time \<le> tstamp now + time_offset sv cl + BWLULongToNum64 (ne_window ne) \<and>
    (time \<noteq> 0 \<longrightarrow> (\<exists>t u. tests (ip_cntrl (ng_server g)) = Some t \<and> tests (ip_cntrl (ng_client g)) = Some u \<and>
       reserve_time t = time \<and> reserve_time u = time))"
proof -
  obtain opts' now where opt: "choose_options ne sv cl opts = Some opts'" "ne_now ne = Some now"
    using assms by (auto simp: negotiate_test_def Let_def split: option.splits)
  let ?t = "now\<lparr>tstamp := BWLNum64Add (tstamp now) (time_offset sv cl)\<rparr>"
  let ?l = "BWLNum64Add (tstamp ?t) (BWLULongToNum64 (ne_window ne))"
  let ?g = "start_negotiation (opts'\<lparr>latest_time := ?l\<rparr>) ?t sv cl"
  have "negotiate_loop (ne_ctx ne) (ne_tester_port ne) (ne_rounds ne) ?g = Some (True, g)"
    using assms opt by (auto simp: negotiate_test_def Let_def split: option.splits prod.splits bool.splits)
  moreover have "neg_inv ?l ?g" by (simp add: neg_inv_def start_negotiation_def Let_def)
  ultimately have "common_time ?l g" by (rule loop_common)
  then show ?thesis using opt(2)
    by (auto simp: common_time_def neg_inv_def same_time_def Cmp_iff reserved_def BWLNum64Add_def)
qed

text \<open>
  A cancellation when the session is already gone, as after a repeated request that was denied: the
  request at time 0 is sent as that of a new session.
\<close>

lemma cancel_without_session:
  assumes "ip_requested sess" "tests (ip_cntrl sess) = None" "BWLStateIs BWLStateRequest (ip_cntrl sess)"
    and "new_session ce (ip_is_client sess) (ip_tspec (set_asked 0 sess)) port = Inr t"
  shows "ip_cntrl (fst (cancel_requested ce sess s port)) = snd (request_session ce port s t (ip_cntrl sess))"
  using assms
  by (auto simp: cancel_requested_def BWLSessionRequest_def set_asked_def Let_def split: prod.splits)

lemma cancel_with_session:
  assumes "ip_requested sess" "tests (ip_cntrl sess) = Some t" "sid t = s" "BWLStateIs BWLStateRequest (ip_cntrl sess)"
  shows "tests (ip_cntrl (fst (cancel_requested ce sess s port))) = None"
  using assms
  by (auto simp: cancel_requested_def BWLSessionRequest_def set_asked_def cancel_session_def Let_def split: prod.splits option.splits)

section \<open>A negotiation with two willing servers\<close>

text \<open>A server that reads the request and answers it with a session \<open>u\<close>.\<close>

definition willing :: "BWLTestSession \<Rightarrow> peer" where
  "willing u c = (case BWLReadRequestType (arrive c [] sample_control) of (_, s) \<Rightarrow>
     (case BWLReadTestRequest Timeslots.sample_ctx True s None of (_, _, _, s) \<Rightarrow>
        arrive (snd (BWLWriteTestAccept s BWL_CNTRL_ACCEPT u)) [] c))"

lemma willing_accepts:
  assumes "sendable Timeslots.sample_ctx Timeslots.sample_ctx k t" "length (sid u) = 16"
  obtains c1 c2 where "BWLWriteTestRequest LE Timeslots.sample_ctx sample_control t = (BWLErrOK, c1)"
    "BWLReadTestAccept (willing u c1) t = (BWLErrOK, Some (BWL_CNTRL_ACCEPT, accepted_session u t), c2)"
proof -
  note r = sample_ready_ends [unfolded ready_ends_def]
  have l: "linked sample_control sample_control" using r by (simp add: peers_def)
  have e: "sock_out sample_control = []" "may_request sample_control" "awaits_request sample_control"
    "\<not> BWLStateIs BWLStateTest sample_control" "BWL_MODE_PROTOCOL_MSS_VERSION \<le> protocol_version sample_control" using r by simp_all
  have q: "wf_request t" "knows_tool Timeslots.sample_ctx (tool_id (test_spec t)) k"
    "tool_id (test_spec t) AND (tool_id (test_spec t) - 1) = 0" using assms(1) by (simp_all add: sendable_def)
  obtain c1 s1 s2 where x: "BWLWriteTestRequest LE Timeslots.sample_ctx sample_control t = (BWLErrOK, c1)"
      "BWLReadRequestType (arrive c1 [] sample_control) = (BWLReqTest, s1)"
      "BWLReadTestRequest Timeslots.sample_ctx True s1 None = (BWLErrOK, Some BWL_CNTRL_ACCEPT, Some (requested k t), s2)"
      "cstate c1 = cstate sample_control OR BWLStateTestAccept" "cstate s2 = cstate sample_control OR BWLStateTestAccept"
      "linked s2 c1" "sock_out s2 = []"
    using test_request_delivered [OF l e(1-4) refl refl e(5) q(1,2,2,3), of "[]"] l e(1) by metis
  have acc: "BWLStateIs BWLStateTestAccept s2" "BWLStateIs BWLStateTestAccept c1" "valid_accept BWL_CNTRL_ACCEPT"
    using x(4,5) by (simp_all add: bits valid_accept_def)
  obtain s3 c2 where "BWLWriteTestAccept s2 BWL_CNTRL_ACCEPT u = (BWLErrOK, s3)"
      "BWLReadTestAccept (arrive s3 [] c1) t = (BWLErrOK, Some (BWL_CNTRL_ACCEPT, accepted_session u t), c2)"
    using test_accept_delivered [OF x(6,7) acc assms(2), of "[]" t] by auto
  then show ?thesis using x(1-3) by (intro that [of c1 c2]) (simp_all add: willing_def)
qed

lemma willing_request:
  assumes "new_session ce ic spec port = Inr t" "sendable Timeslots.sample_ctx Timeslots.sample_ctx k (if conf_server t then t else t\<lparr>sid := s\<rparr>)"
    and "ce_order ce = LE" "ce_ctx ce = Timeslots.sample_ctx" "ce_peer ce = willing u" "length (sid u) = 16" "length s = 16"
  shows "\<exists>r c. BWLSessionRequest ce sample_control ic spec port s = (r, c) \<and> rr_ok r \<and> rr_time r = reserve_time u \<and> length (rr_sid r) = 16"
proof -
  let ?t = "if conf_server t then t else t\<lparr>sid := s\<rparr>"
  obtain c1 c2 where x: "BWLWriteTestRequest LE Timeslots.sample_ctx sample_control ?t = (BWLErrOK, c1)"
    "BWLReadTestAccept (willing u c1) ?t = (BWLErrOK, Some (BWL_CNTRL_ACCEPT, accepted_session u ?t), c2)"
    by (rule willing_accepts [OF assms(2,6)])
  have c: "BWLStateIs BWLStateRequest sample_control" "tests sample_control = None"
    using sample_ready_ends by (simp_all add: ready_ends_def may_request_def)
  have "reserve_time (accepted_session u ?t) = reserve_time u" "conf_server t \<Longrightarrow> sid (accepted_session u ?t) = sid u"
    "conf_server (accepted_session u ?t) = conf_server t"
    by (simp_all add: accepted_session_def Let_def)
  then show ?thesis
    using x c assms(1,3-7)
    by (cases "conf_server t") (simp_all add: BWLSessionRequest_def request_session_def BWLClientRequestTestReadResponse_def Let_def)
qed

definition sample_reserved :: BWLTestSession where
  "sample_reserved = sample_session\<lparr>sid := replicate 16 9, reserve_time := tstamp (sample_time 300)\<rparr>"

definition willing_env :: client_env where
  "willing_env = sample_client\<lparr>ce_peer := willing sample_reserved\<rparr>"

definition sample_ip :: "bool \<Rightarrow> ipsess" where
  "sample_ip ic = \<lparr>ip_cntrl = sample_control, ip_rttbound = 0, ip_is_client = ic, ip_is_local = False, ip_requested = False,
     ip_tspec = test_spec sample_test, ip_avail_tools = BWL_TOOL_PING, ip_host_time = sample_time 200, ip_fake_daemon = False\<rparr>"

definition sample_neg :: neg_env where
  "sample_neg = \<lparr>ne_ctx = Timeslots.sample_ctx, ne_client_addr = Some (AF_INET [10, 0, 0, 1]),
     ne_server_addr = Some (AF_INET [10, 0, 0, 2]), ne_test_type = BWL_TEST_LATENCY, ne_tool_ids = [BWL_TOOL_PING],
     ne_parsable = False, ne_outformat = 0, ne_now = Some (sample_time 200), ne_window = 1000, ne_tester_port = 0,
     ne_rounds = [\<lparr>nr_server = willing_env, nr_server_sig = False, nr_sig = False, nr_client = willing_env, nr_client_sig = False,
       nr_last_sig = False\<rparr>], ne_cancel_client = willing_env, ne_cancel_server = willing_env\<rparr>"

lemma sample_common: "BWLToolGetCommonTools Timeslots.sample_ctx BWL_TOOL_PING BWL_TOOL_PING BWL_TEST_LATENCY = BWL_TOOL_PING"
  by code_simp

lemma sample_options: "choose_options sample_neg (sample_ip False) (sample_ip True) (test_spec sample_test) = Some (test_spec sample_test)"
  using sample_common
  by (simp add: choose_options_def sample_neg_def sample_ip_def pick_tool_def BWL_TOOL_PING_def BWL_TOOL_UNDEFINED_def
      BWLToolValidateTest_def Timeslots.sample_ctx_def BWLToolPing_def BWLToolGenericValidateTest_def sample_test_def sample_session_def)

lemma sample_spec_ok:
  assumes "spec = (test_spec sample_test)\<lparr>latest_time := l, req_time := r\<rparr>" "valid_timestamp r" "length s = 16"
  shows "\<exists>rr c. BWLSessionRequest willing_env sample_control ic spec p s = (rr, c) \<and> rr_ok rr \<and>
    rr_time rr = tstamp (sample_time 300) \<and> length (rr_sid rr) = 16"
proof -
  have new: "\<exists>t. new_session willing_env ic spec p = Inr t \<and> test_spec t = spec \<and> sid t = replicate 16 0 \<and> conf_server t = (\<not> ic) \<and> conf_client t = ic"
    using assms(1) by (simp add: new_session_def willing_env_def sample_client_def choose_addrs_def loopback4_def host_nat_def
        BWLTestSessionAlloc_def sample_test_def)
  then obtain t where t: "new_session willing_env ic spec p = Inr t" "test_spec t = spec" "sid t = replicate 16 0" "conf_server t = (\<not> ic)" "conf_client t = ic"
    by blast
  have "sendable Timeslots.sample_ctx Timeslots.sample_ctx PingParams (if conf_server t then t else t\<lparr>sid := s\<rparr>)"
    using sample_sendable t assms by (auto simp: sendable_def wf_request_def)
  then show ?thesis
    using willing_request [OF t(1), of PingParams s sample_reserved] assms(3)
    by (simp add: willing_env_def sample_client_def sample_reserved_def)
qed


lemma willing_individual:
  assumes "ip_cntrl sess = sample_control" "ip_tspec sess = (test_spec sample_test)\<lparr>latest_time := l, req_time := r\<rparr>" "valid_timestamp r"
    and "length s = 16" "tstamp (sample_time 300) \<le> l"
  obtains sess' s' time' port' where
    "negotiate_individual_test willing_env False sess s time port = (True, sess', s', time', port')"
    "asked_time sess' = tstamp (sample_time 300)" "tstamp time' = tstamp (sample_time 300)" "length s' = 16"
proof -
  obtain rr c where "BWLSessionRequest willing_env sample_control (ip_is_client sess) (ip_tspec sess) port s = (rr, c)" "rr_ok rr"
      "rr_time rr = tstamp (sample_time 300)" "length (rr_sid rr) = 16"
    using sample_spec_ok [OF assms(2-4)] by blast
  then have "negotiate_individual_test willing_env False sess s time port =
      (True, set_asked (tstamp (sample_time 300)) (sess\<lparr>ip_cntrl := c, ip_requested := True\<rparr>), rr_sid rr,
        time\<lparr>tstamp := tstamp (sample_time 300)\<rparr>, rr_port rr)" (is ?run) and len: "length (rr_sid rr) = 16"
    using assms(1,2,5) by (simp_all add: negotiate_individual_test_def Let_def Cmp_iff not_less)
  from \<open>?run\<close> _ _ len show ?thesis by (rule that) (simp_all add: set_asked_def)
qed

lemma sample_negotiation: "\<exists>g. negotiate_test sample_neg [] (sample_ip False) (sample_ip True) (test_spec sample_test) = Some (True, g)"
proof -
  let ?T = "tstamp (sample_time 300)"
  let ?time = "(sample_time 200)\<lparr>tstamp := BWLNum64Add (tstamp (sample_time 200)) (time_offset (sample_ip False) (sample_ip True))\<rparr>"
  let ?l = "BWLNum64Add (tstamp ?time) (BWLULongToNum64 1000)"
  let ?opts = "(test_spec sample_test)\<lparr>latest_time := ?l\<rparr>"
  let ?g = "start_negotiation ?opts ?time (sample_ip False) (sample_ip True)"
  let ?r = "BWLSetTimeStampError (req_time ?opts) (BWLGetTimeStampError (sample_time 200))"
  have vr: "valid_timestamp (?r\<lparr>tstamp := x\<rparr>)" for x
    by (simp add: valid_timestamp_def BWLSetTimeStampError_def BWLGetTimeStampError_def sample_time_def sample_test_def shift_err.simps)
  have spec: "ip_tspec (set_asked x (ng_server ?g)) = (test_spec sample_test)\<lparr>latest_time := ?l, req_time := ?r\<lparr>tstamp := x\<rparr>\<rparr>"
    "ip_tspec (set_asked x (ng_client ?g)) = (test_spec sample_test)\<lparr>latest_time := ?l, req_time := ?r\<lparr>tstamp := x\<rparr>\<rparr>" for x
    by (simp_all add: set_asked_def start_negotiation_def sample_ip_def Let_def)
  have l: "?T \<le> ?l" by (simp add: sample_time_def time_offset_def sample_ip_def BWLNum64Add_def BWLNum64Mult_def BWLULongToNum64_def MASK32_def Let_def)
  have c: "ip_cntrl (set_asked x (ng_server ?g)) = sample_control" "ip_cntrl (set_asked x (ng_client ?g)) = sample_control"
      "length (ng_sid ?g) = 16" "\<not> ip_requested (ng_client ?g)" for x
    by (simp_all add: set_asked_def start_negotiation_def sample_ip_def Let_def)
  obtain sv s1 t1 p1 where sv: "negotiate_individual_test willing_env False (set_asked (tstamp (ng_time ?g)) (ng_server ?g)) (ng_sid ?g) (ng_time ?g) (ng_port ?g) =
      (True, sv, s1, t1, p1)" "asked_time sv = ?T" "tstamp t1 = ?T" "length s1 = 16"
    by (rule willing_individual [OF c(1) spec(1) vr c(3) l])
  obtain cl s2 t2 p2 where cl: "negotiate_individual_test willing_env False (set_asked ?T (ng_client ?g)) s1 t1
      (client_port Timeslots.sample_ctx 0 (ip_tspec (set_asked ?T (ng_client ?g))) p1) = (True, cl, s2, t2, p2)" "asked_time cl = ?T"
    by (rule willing_individual [OF c(2) spec(2) vr sv(4) l])
  let ?round = "\<lparr>nr_server = willing_env, nr_server_sig = False, nr_sig = False, nr_client = willing_env, nr_client_sig = False, nr_last_sig = False\<rparr>"
  let ?g1 = "?g\<lparr>ng_server := sv, ng_sid := s1, ng_time := t1, ng_port := p1\<rparr>"
  have "ask_server ?round ?g = (True, ?g1)" using sv(1) by (simp add: ask_server_def)
  moreover have "ask_client Timeslots.sample_ctx 0 ?round ?g1 = (True, ?g1\<lparr>ng_client := cl, ng_sid := s2, ng_time := t2, ng_port := p2\<rparr>)"
    using cl(1) sv(3) by (simp add: ask_client_def)
  ultimately have "negotiate_round Timeslots.sample_ctx 0 ?round ?g =
      (NegAgreed, ?g1\<lparr>ng_client := cl, ng_sid := s2, ng_time := t2, ng_port := p2\<rparr>)"
    using c(4) sv(2) cl(2) by (simp add: negotiate_round_def same_time_def Cmp_iff)
  then show ?thesis
    using sample_options by (simp add: negotiate_test_def Let_def sample_neg_def)
qed


theorem negotiated_time_common_witness:
  "\<exists>g. negotiate_test sample_neg [] (sample_ip False) (sample_ip True) (test_spec sample_test) = Some (True, g) \<and>
     asked_time (ng_server g) = asked_time (ng_client g)"
  using sample_negotiation negotiated_time_common by metis

end
