(* ===== verification/Spec2Isabelle.thy ===== *)
theory Spec2Isabelle
  imports Handshake Child Negotiate
begin

text \<open>
  Verification of \<open>bwctl\<close>, the bandwidth test controller. A daemon (\<open>bwctld\<close>) accepts control
  connections and schedules network tests; a client (\<open>bwctl\<close>) asks two daemons for a test at a common
  time. Both are built on \<open>bwlib\<close>, which has the control protocol.

  \<^bold>\<open>The parts and how they interact.\<close> The daemon forks a child for every connection. A child speaks the
  control protocol with the client: a handshake with mutual proof of a shared key, then requests for the
  time, for a test, to start it and to stop it, over blocks that are ciphered when the mode asks for it.
  On a test request the child applies the policy: fixed limits on its own copy of the usage classes,
  counted resources and the time of the test by messages on a pipe to the parent. The parent keeps, for
  all children, what every class uses and the list of booked time slots, and frees what a child held when
  the test completes or the process exits.

  \<^bold>\<open>The theories\<close>, with the code they model:

  \<^item> \<open>Prelude\<close>: words of the widths used, bytes in network and host order, buffers as lists with
    \<open>memcpy\<close> and \<open>slice\<close>, the simplification rules the components share; locales for message codecs.
  \<^item> \<open>Arith64\<close>, \<open>Rounding\<close>, \<open>Timestamp\<close>: \<open>bwlib/arithm64.c\<close> and \<open>bwlib/time.c\<close>. Fixed-point times of
    32.32 bits as \<open>64 word\<close> with the wrap-around of the code; conversions, error estimates, the clock.
  \<^item> \<open>Tools\<close>: \<open>bwlib/tools.c\<close> and the definitions, validation and port functions of the tools.
  \<^item> \<open>PolicyTree\<close>: usage classes and resource demands of \<open>bwctld/policy.c\<close>. The classes are a list of
    nodes with an index for the parent; a walk to the root has fuel for every class. A ledger beside the
    tree has the amounts granted and released as integers.
  \<^item> \<open>Timeslots\<close>: the scheduler of \<open>bwctld/bwctld.c\<close> (slots, reservations, \<open>ChldReservationDemand\<close>).
  \<^item> \<open>PolicyIpc\<close>, \<open>Broker\<close>: the messages between child and parent and the parent that serves them
    (\<open>CheckFD\<close>, the tables of children, \<open>reap_one\<close>), a state machine over arbitrary input bytes.
  \<^item> \<open>CStrings\<close>, \<open>PolicyConf\<close>: the readers of the limits and keys files and the class of a connection
    (\<open>parselimits\<close>, \<open>GetNodeFromAddr\<close>, \<open>BWLDAllowOpenMode\<close>).
  \<^item> \<open>Rijndael_Tables\<close>, \<open>Rijndael\<close>, \<open>Blocks\<close>: \<open>bwlib/rijndael-alg-fst.c\<close> and \<open>rijndael-api-fst.c\<close>.
  \<^item> \<open>Control\<close>, \<open>Protocol\<close>, \<open>Messages\<close>, \<open>TestRequest\<close>: the control record with its socket, \<open>bwlib/io.c\<close>,
    and every message of \<open>bwlib/protocol.c\<close>, writer and reader.
  \<^item> \<open>Handshake\<close>: \<open>BWLControlAccept\<close> and \<open>BWLControlOpen\<close> of \<open>bwlib/sapi.c\<close> and \<open>bwlib/capi.c\<close>.
  \<^item> \<open>TestPolicy\<close>: the policy hooks of a child, which put their questions to the modelled parent.
  \<^item> \<open>Session\<close>: test sessions at the server (\<open>BWLProcessTestRequest\<close>, \<open>BWLStopSession\<close>, \dots) and at the
    client (\<open>BWLSessionRequest\<close>, \<open>BWLStartSession\<close>, \<open>BWLEndSession\<close>).
  \<^item> \<open>Child\<close>: \<open>BWLStopSessionWait\<close>, the request loop of a child in \<open>NewConnection\<close>, \<open>BWLControlClose\<close>.
  \<^item> \<open>Negotiate\<close>: the client program \<open>bwctl/bwctl.c\<close> with its two servers (\<open>negotiate_test\<close>,
    \<open>start_testing\<close>, \<open>wait_for_results\<close>).

  State is passed explicitly: structures are records, the control record holds the bytes that will
  arrive, the bytes sent and the status of the next system call, and the parent is the record
  \<open>broker\<close>. Errors are values of \<open>BWLErrSeverity\<close>, of sums or of options.

  \<^bold>\<open>What is shown\<close>, from the parts to the whole:

  \<^item> arithmetic: multiplication of times is exact modulo the width, conversions are inverse up to a unit,
    error estimates are never too small;
  \<^item> cipher: the table-driven code equals the cipher of the standard, decryption undoes encryption for
    every key length, and so do the block chains on a connection;
  \<^item> scheduler: a granted reservation is the first that fits, books its window and keeps the slots sorted,
    disjoint and within capacity; a request is denied only when nothing fits;
  \<^item> policy: a request for a resource is all or nothing over the classes; over every run of the parent the
    counters stay within the limits, up to the \<open>float\<close> error of the code, and so do the amounts granted as
    long as no sum with an amount asked for wraps around; a limits file that is accepted gives a tree in
    which every numeric limit binds all classes below; the longest network decides;
  \<^item> parent and child: a message is a remote call of the function behind it, in either byte order;
  \<^item> protocol: what one end writes the other reads, for every message and every mode, and both ends stay
    in step; a connection in a ciphered mode is accepted only with the key;
  \<^item> the composition: a granted test is within the numeric limits of its class and those above, and
    allowed by its class, and a completed one returns everything
    (\<open>TestPolicy\<close>); client and server agree on a granted session (\<open>session_agreed\<close>); the parent holds a
    reservation for a child exactly while its connection has a session (\<open>reservation_follows_session\<close>); a
    negotiation that succeeds ends with one time at both servers (\<open>negotiated_time_common\<close>).

  Where the code does something else than it means to, the theorems state what it does (a denied request
  removes bookings, a mode that was not offered is accepted, a request to an old peer is rejected), and
  lemmas show what it lets pass (\<open>wrapping_request_granted\<close>, \<open>limit_900m_inexact\<close>, \<open>horizon_not_applied\<close>,
  \<open>udp_allowed_below\<close>).

  \<^bold>\<open>Bounds and termination.\<close> Loops over data are structural or have a measure. Fuel is used in one place,
  the walk of \<open>IntegerResourceDemand\<close> along the parents of a class (and its path \<open>demand_path\<close>): one unit
  more than there are classes, which is enough because a parent comes before its children
  (\<open>request_all_or_nothing\<close>: the demand always returns). The port search of \<open>owamp\<close>, which may run forever, is a \<open>partial_function\<close>, and \<open>None\<close> is carried through
  to the callers as a parent that does not come back. Waiting for a test takes one event for each call
  of \<open>select\<close>, and a negotiation one round for each pair of requests; without a further one the result
  is \<open>None\<close>. A negotiation need not end: that is up to the servers. The scheduler theorems assume times
  within one era of the 32 bit seconds.

  \<^bold>\<open>Not modelled\<close>: options, configuration files other than limits and keys, opening sockets, \<open>fork\<close> and
  \<open>select\<close> in both programs, the local server of the client, the times between its tests and the display of
  results, which are interaction with the operating system; the test endpoint \<open>bwlib/endpoint.c\<close> and the command lines of the tools, which
  run processes; logging; the hash tables, address records and file readers of \<open>I2util\<close>, which are not
  part of the repository. Where modelled code calls them, their results are parameters.
\<close>

end
